(* ===== verification/Prelude.thy ===== *)
theory Prelude
  imports Main "HOL-Library.Char_ord" "HOL-Library.List_Lexorder" "HOL-Library.Word"
begin

text \<open>
  The prelude of the WorkloadClass development: the Go types and the pieces of the Go
  standard library that every component uses, with the lemmas the components share.
  \<^item> Strings are Go strings, that is, byte sequences: a \<^typ>\<open>string\<close> whose characters
    are bytes. \<open>len(s)\<close> is \<^const>\<open>length\<close>; string comparison is the bytewise
    lexicographic order of \<open>List_Lexorder\<close>.
  \<^item> A \<open>time.Time\<close> is the number of nanoseconds since Go's zero time (January 1, year 1,
    00:00:00 UTC), so \<open>IsZero()\<close> is equality with 0. A \<open>time.Duration\<close> is an
    \<open>int64\<close> number of nanoseconds: an \<^typ>\<open>int\<close> kept in range by \<open>i64\<close>, the
    two's complement reduction that a Go multiplication or addition performs.
  \<^item> An error is a value of \<open>api_error\<close>; a fallible operation returns \<open>api_error + 'a\<close>.
\<close>

named_theorems go_arith "reduction of 64-bit arithmetic that stays in range"
named_theorems str_simps "Go string helpers"

type_synonym go_time = int
type_synonym duration = int

subsection \<open>64-bit arithmetic\<close>

definition i64 :: "int \<Rightarrow> int" where
  "i64 x = (x + 2 ^ 63) mod 2 ^ 64 - 2 ^ 63"

definition min_i64 :: int where "min_i64 = - (2 ^ 63)"
definition max_i64 :: int where "max_i64 = 2 ^ 63 - 1"

lemma i64_id [go_arith]: "- (2 ^ 63) \<le> x \<Longrightarrow> x < 2 ^ 63 \<Longrightarrow> i64 x = x"
  by (simp add: i64_def)

lemma i64_bounds: "- (2 ^ 63) \<le> i64 x" "i64 x < 2 ^ 63"
  by (simp_all add: i64_def)

lemma i64_i64 [simp]: "i64 (i64 x) = i64 x"
  by (rule i64_id) (rule i64_bounds)+

text \<open>The reduction is the one of 64-bit machine words read as two's complement.\<close>

lemma i64_sint: "i64 x = sint (word_of_int x :: 64 word)"
  by (simp add: i64_def sint_sbintrunc' signed_take_bit_eq_take_bit_shift take_bit_eq_mod)

lemma i64_overflow_example: "i64 (2 ^ 63) = - (2 ^ 63)"
  by (simp add: i64_def)

subsection \<open>Durations and times\<close>

definition second :: duration where "second = 1000000000"
definition minute :: duration where "minute = 60 * second"
definition hour :: duration where "hour = 60 * minute"
definition week :: duration where "week = 24 * 7 * hour"

lemmas duration_defs = second_def minute_def hour_def week_def

text \<open>\<open>time.Duration(days) * 24 * time.Hour\<close>, multiplied left to right in \<open>int64\<close>.\<close>

definition days_duration :: "int \<Rightarrow> duration" where
  "days_duration d = i64 (i64 (d * 24) * hour)"

text \<open>\<open>time.Duration(secs) * time.Second\<close>.\<close>

definition secs_duration :: "int \<Rightarrow> duration" where
  "secs_duration s = i64 (s * second)"

text \<open>\<open>t.Sub(u)\<close>: the difference, saturated at the bounds of \<open>int64\<close>.\<close>

definition time_sub :: "go_time \<Rightarrow> go_time \<Rightarrow> duration" where
  "time_sub t u = max min_i64 (min max_i64 (t - u))"

lemma time_sub_id [go_arith]:
  "- (2 ^ 63) \<le> t - u \<Longrightarrow> t - u < 2 ^ 63 \<Longrightarrow> time_sub t u = t - u"
  by (simp add: time_sub_def min_i64_def max_i64_def)

lemma time_sub_pos: "0 < time_sub t u \<longleftrightarrow> u < t"
  by (auto simp: time_sub_def min_i64_def max_i64_def)

lemma time_sub_self [simp]: "time_sub t t = 0"
  by (simp add: time_sub_def min_i64_def max_i64_def)

lemma time_sub_neg: "time_sub t u < 0 \<longleftrightarrow> t < u"
  by (auto simp: time_sub_def min_i64_def max_i64_def)

lemma days_duration_id [go_arith]:
  assumes "0 \<le> d" "d \<le> 106751"
  shows "days_duration d = d * 86400000000000"
proof -
  have "i64 (d * 24) = d * 24"
    using assms by (intro i64_id) auto
  moreover have "i64 (d * 24 * 3600000000000) = d * 24 * 3600000000000"
    using assms by (intro i64_id) auto
  ultimately show ?thesis
    by (simp add: days_duration_def duration_defs)
qed

text \<open>\<open>IsZero()\<close> of an optional \<open>*metav1.Time\<close>: nil, or the zero time.\<close>

definition time_unset :: "go_time option \<Rightarrow> bool" where
  "time_unset t = (case t of None \<Rightarrow> True | Some x \<Rightarrow> x = 0)"

lemma time_unset_None [simp]: "time_unset None"
  by (simp add: time_unset_def)

subsection \<open>Errors\<close>

text \<open>
  The kinds of error the code tells apart (\<open>apierrors.IsNotFound\<close>,
  \<open>IsTooManyRequests\<close>, \<open>IsForbidden\<close>, and conflicts), each with its message.
\<close>

datatype api_error =
    NotFound (err_msg: string)
  | TooManyRequests (err_msg: string)
  | Forbidden (err_msg: string)
  | Conflict (err_msg: string)
  | OtherError (err_msg: string)

definition is_not_found :: "api_error \<Rightarrow> bool" where
  "is_not_found e = (case e of NotFound _ \<Rightarrow> True | _ \<Rightarrow> False)"

lemma is_not_found_simps [simp]:
  "is_not_found (NotFound m)" "\<not> is_not_found (TooManyRequests m)" "\<not> is_not_found (Forbidden m)"
  "\<not> is_not_found (Conflict m)" "\<not> is_not_found (OtherError m)"
  by (simp_all add: is_not_found_def)

text \<open>\<open>fmt.Errorf("...: %w", err)\<close> keeps the kind of the error; \<open>%v\<close> does not.\<close>

fun wrap_error :: "string \<Rightarrow> api_error \<Rightarrow> api_error" where
  "wrap_error p (NotFound m) = NotFound (p @ m)"
| "wrap_error p (TooManyRequests m) = TooManyRequests (p @ m)"
| "wrap_error p (Forbidden m) = Forbidden (p @ m)"
| "wrap_error p (Conflict m) = Conflict (p @ m)"
| "wrap_error p (OtherError m) = OtherError (p @ m)"

definition errorf_v :: "string \<Rightarrow> api_error \<Rightarrow> api_error" where
  "errorf_v p e = OtherError (p @ err_msg e)"

lemma is_not_found_wrap [simp]: "is_not_found (wrap_error p e) = is_not_found e"
  by (cases e) simp_all

text \<open>Sequencing of fallible operations: the early return of \<open>if err != nil\<close>.\<close>

definition bind_result :: "'e + 'a \<Rightarrow> ('a \<Rightarrow> 'e + 'b) \<Rightarrow> 'e + 'b" where
  "bind_result r f = (case r of Inl e \<Rightarrow> Inl e | Inr x \<Rightarrow> f x)"

lemma bind_result_simps [simp]:
  "bind_result (Inl e) f = Inl e" "bind_result (Inr x) f = f x"
  by (simp_all add: bind_result_def)

lemma bind_result_Inr_iff:
  "bind_result r f = Inr y \<longleftrightarrow> (\<exists>x. r = Inr x \<and> f x = Inr y)"
  by (cases r) auto

text \<open>\<open>errors.Join\<close>: nil when every error is nil, otherwise the messages joined by newlines.\<close>

definition join_errors :: "api_error list \<Rightarrow> api_error option" where
  "join_errors es = (case es of [] \<Rightarrow> None
     | e # rest \<Rightarrow> Some (OtherError (foldl (\<lambda>acc x. acc @ [CHR 0x0A] @ err_msg x) (err_msg e) rest)))"

lemma join_errors_None_iff [simp]: "join_errors es = None \<longleftrightarrow> es = []"
  by (simp add: join_errors_def split: list.splits)

subsection \<open>Strings\<close>

definition has_prefix :: "string \<Rightarrow> string \<Rightarrow> bool" where
  "has_prefix s p = (take (length p) s = p)"

definition trim_prefix :: "string \<Rightarrow> string \<Rightarrow> string" where
  "trim_prefix s p = (if has_prefix s p then drop (length p) s else s)"

definition has_suffix :: "string \<Rightarrow> string \<Rightarrow> bool" where
  "has_suffix s p = (length p \<le> length s \<and> drop (length s - length p) s = p)"

definition trim_suffix :: "string \<Rightarrow> string \<Rightarrow> string" where
  "trim_suffix s p = (if has_suffix s p then take (length s - length p) s else s)"

lemma has_prefix_append [simp]: "has_prefix (p @ s) p"
  by (simp add: has_prefix_def)

lemma trim_prefix_append [simp]: "trim_prefix (p @ s) p = s"
  by (simp add: trim_prefix_def)

lemma has_suffix_append [simp]: "has_suffix (s @ p) p"
  by (simp add: has_suffix_def)

lemma trim_suffix_append [simp]: "trim_suffix (s @ p) p = s"
  by (simp add: trim_suffix_def)

lemma has_suffix_iff: "has_suffix s p \<longleftrightarrow> (\<exists>r. s = r @ p)"
proof
  assume "has_suffix s p"
  then have "s = take (length s - length p) s @ p"
    unfolding has_suffix_def by (metis append_take_drop_id)
  then show "\<exists>r. s = r @ p" ..
qed auto

text \<open>\<open>strings.TrimRight(s, cutset)\<close> for an ASCII cutset.\<close>

definition trim_right :: "string \<Rightarrow> string \<Rightarrow> string" where
  "trim_right s cutset = rev (dropWhile (\<lambda>c. c \<in> set cutset) (rev s))"

lemma length_trim_right: "length (trim_right s cutset) \<le> length s"
  using length_dropWhile_le [of _ "rev s"] by (simp add: trim_right_def)

text \<open>\<open>strings.Contains\<close>.\<close>

fun str_contains :: "string \<Rightarrow> string \<Rightarrow> bool" where
  "str_contains [] p = (p = [])"
| "str_contains (c # s) p = (has_prefix (c # s) p \<or> str_contains s p)"

text \<open>\<open>strings.Join\<close>.\<close>

fun str_join :: "string list \<Rightarrow> string \<Rightarrow> string" where
  "str_join [] sep = []"
| "str_join [x] sep = x"
| "str_join (x # y # xs) sep = x @ sep @ str_join (y # xs) sep"

lemma str_join_eq_Nil: "str_join xs sep = [] \<longleftrightarrow> (\<forall>x \<in> set xs. x = []) \<and> (length xs \<le> 1 \<or> sep = [])"
  by (induction xs sep rule: str_join.induct) auto

text \<open>
  \<open>strings.TrimSpace\<close>: Unicode white space, as the UTF-8 encodings of the code points
  with the White_Space property.
\<close>

definition unicode_spaces :: "string list" where
  "unicode_spaces = [[CHR 0x09], [CHR 0x0A], [CHR 0x0B], [CHR 0x0C], [CHR 0x0D], [CHR 0x20],
     [CHR 0xC2, CHR 0x85], [CHR 0xC2, CHR 0xA0], [CHR 0xE1, CHR 0x9A, CHR 0x80],
     [CHR 0xE2, CHR 0x80, CHR 0x80], [CHR 0xE2, CHR 0x80, CHR 0x81], [CHR 0xE2, CHR 0x80, CHR 0x82],
     [CHR 0xE2, CHR 0x80, CHR 0x83], [CHR 0xE2, CHR 0x80, CHR 0x84], [CHR 0xE2, CHR 0x80, CHR 0x85],
     [CHR 0xE2, CHR 0x80, CHR 0x86], [CHR 0xE2, CHR 0x80, CHR 0x87], [CHR 0xE2, CHR 0x80, CHR 0x88],
     [CHR 0xE2, CHR 0x80, CHR 0x89], [CHR 0xE2, CHR 0x80, CHR 0x8A], [CHR 0xE2, CHR 0x80, CHR 0xA8],
     [CHR 0xE2, CHR 0x80, CHR 0xA9], [CHR 0xE2, CHR 0x80, CHR 0xAF], [CHR 0xE2, CHR 0x81, CHR 0x9F],
     [CHR 0xE3, CHR 0x80, CHR 0x80]]"

function strip_spaces :: "string list \<Rightarrow> string \<Rightarrow> string" where
  "strip_spaces sps s = (case find (\<lambda>w. w \<noteq> [] \<and> has_prefix s w) sps of
     None \<Rightarrow> s | Some w \<Rightarrow> strip_spaces sps (drop (length w) s))"
  by pat_completeness auto
termination
proof (relation "measure (\<lambda>(sps, s). length s)", simp)
  fix sps s w
  assume "find (\<lambda>w. w \<noteq> [] \<and> has_prefix s w) sps = Some w"
  then have "w \<noteq> []" "has_prefix s w"
    by (auto simp: find_Some_iff)
  then have "s \<noteq> []" "0 < length w"
    by (auto simp: has_prefix_def)
  then show "((sps, drop (length w) s), sps, s) \<in> measure (\<lambda>(sps, s). length s)"
    by (simp add: diff_less)
qed

declare strip_spaces.simps [simp del]

definition trim_space :: "string \<Rightarrow> string" where
  "trim_space s = rev (strip_spaces (map rev unicode_spaces) (rev (strip_spaces unicode_spaces s)))"

text \<open>ASCII lower case, and \<open>strings.EqualFold\<close> against an ASCII string: the only non-ASCII
  code points that fold to an ASCII letter are the Kelvin sign and the long s.\<close>

definition lower_char :: "char \<Rightarrow> char" where
  "lower_char c = (if 65 \<le> (of_char c :: nat) \<and> (of_char c :: nat) \<le> 90
     then char_of ((of_char c :: nat) + 32) else c)"

fun fold_ascii :: "string \<Rightarrow> string" where
  "fold_ascii [] = []"
| "fold_ascii (c # s) =
     (if has_prefix (c # s) [CHR 0xE2, CHR 0x84, CHR 0xAA] then CHR ''k'' # fold_ascii (drop 2 s)
      else if has_prefix (c # s) [CHR 0xC5, CHR 0xBF] then CHR ''s'' # fold_ascii (drop 1 s)
      else lower_char c # fold_ascii s)"

definition equal_fold :: "string \<Rightarrow> string \<Rightarrow> bool" where
  "equal_fold s t = (fold_ascii s = map lower_char t)"

subsection \<open>Decimal numbers\<close>

definition digit_char :: "nat \<Rightarrow> char" where
  "digit_char d = char_of (48 + d)"

fun show_nat :: "nat \<Rightarrow> string" where
  "show_nat n = (if n < 10 then [digit_char n] else show_nat (n div 10) @ [digit_char (n mod 10)])"

declare show_nat.simps [simp del]

lemma show_nat_nonempty [simp]: "show_nat n \<noteq> []"
  by (subst show_nat.simps) simp

text \<open>\<open>%d\<close>.\<close>

definition show_int :: "int \<Rightarrow> string" where
  "show_int i = (if i < 0 then CHR ''-'' # show_nat (nat (- i)) else show_nat (nat i))"

definition is_digit :: "char \<Rightarrow> bool" where
  "is_digit c = (48 \<le> (of_char c :: nat) \<and> (of_char c :: nat) \<le> 57)"

definition digit_val :: "char \<Rightarrow> int" where
  "digit_val c = int (of_char c :: nat) - 48"

lemma is_digit_digit_char [simp]: "d < 10 \<Longrightarrow> is_digit (digit_char d)"
  by (simp add: is_digit_def digit_char_def)

lemma digit_val_digit_char [simp]: "d < 10 \<Longrightarrow> digit_val (digit_char d) = int d"
  by (simp add: digit_val_def digit_char_def)

definition digits_val :: "string \<Rightarrow> int" where
  "digits_val s = foldl (\<lambda>n c. n * 10 + digit_val c) 0 s"

lemma digits_val_Nil [simp]: "digits_val [] = 0"
  by (simp add: digits_val_def)

lemma digits_val_snoc [simp]: "digits_val (s @ [c]) = digits_val s * 10 + digit_val c"
  by (simp add: digits_val_def)

lemma digits_val_single [simp]: "digits_val [c] = digit_val c"
  by (simp add: digits_val_def)

lemma digit_val_nonneg: "is_digit c \<Longrightarrow> 0 \<le> digit_val c"
  by (simp add: is_digit_def digit_val_def)

text \<open>
  \<open>strconv.Atoi\<close>: an optional sign and at least one decimal digit; \<open>None\<close> on a syntax
  or range error (the value must fit an \<open>int64\<close>).
\<close>

definition atoi :: "string \<Rightarrow> int option" where
  "atoi s =
     (let neg = (s \<noteq> [] \<and> hd s = CHR ''-'');
          body = (if s \<noteq> [] \<and> (hd s = CHR ''-'' \<or> hd s = CHR ''+'') then tl s else s);
          v = (if neg then - digits_val body else digits_val body)
      in if body = [] \<or> \<not> list_all is_digit body then None
         else if v < min_i64 \<or> max_i64 < v then None else Some v)"

text \<open>The message of the error \<open>Atoi\<close> returns, after the quoted input.\<close>

definition atoi_error :: "string \<Rightarrow> string" where
  "atoi_error s =
     (let body = (if s \<noteq> [] \<and> (hd s = CHR ''-'' \<or> hd s = CHR ''+'') then tl s else s)
      in if body = [] \<or> \<not> list_all is_digit body then '': invalid syntax''
         else '': value out of range'')"

lemma show_nat_digits: "list_all is_digit (show_nat n)"
proof (induction n rule: show_nat.induct)
  case (1 n)
  then show ?case
    by (subst show_nat.simps) simp
qed

lemma digits_val_show_nat: "digits_val (show_nat n) = int n"
proof (induction n rule: show_nat.induct)
  case (1 n)
  show ?case
  proof (cases "n < 10")
    case True
    then show ?thesis by (subst show_nat.simps) simp
  next
    case False
    with 1 have "digits_val (show_nat (n div 10)) = int (n div 10)" by simp
    with False show ?thesis
      by (subst show_nat.simps) (simp add: zmod_int zdiv_int)
  qed
qed

lemma hd_show_nat_digit: "is_digit (hd (show_nat n))"
  using show_nat_digits [of n] show_nat_nonempty [of n] by (cases "show_nat n") auto

lemma atoi_show_nat: "int n \<le> max_i64 \<Longrightarrow> atoi (show_nat n) = Some (int n)"
  using hd_show_nat_digit [of n]
  by (auto simp: atoi_def Let_def show_nat_digits digits_val_show_nat is_digit_def min_i64_def)

subsection \<open>Printing and rounding durations\<close>

text \<open>The fraction of \<open>Duration.String()\<close>: \<open>prec\<close> digits without the trailing zeros.\<close>

definition pad_zeros :: "nat \<Rightarrow> string \<Rightarrow> string" where
  "pad_zeros n s = replicate (n - length s) (CHR ''0'') @ s"

definition frac_string :: "int \<Rightarrow> nat \<Rightarrow> string" where
  "frac_string v prec =
     (let digits = trim_right (pad_zeros prec (show_int (v mod 10 ^ prec))) ''0''
      in if digits = [] then [] else CHR ''.'' # digits)"

definition duration_string :: "duration \<Rightarrow> string" where
  "duration_string d =
     (let u = \<bar>d\<bar>; sgn_str = (if d < 0 then ''-'' else '''')
      in if u = 0 then ''0s''
         else if u < 1000 then sgn_str @ show_int u @ ''ns''
         else if u < 1000000 then sgn_str @ show_int (u div 1000) @ frac_string u 3 @ [CHR 0xC2, CHR 0xB5, CHR ''s'']
         else if u < second then sgn_str @ show_int (u div 1000000) @ frac_string u 6 @ ''ms''
         else let secs = u div second; mins = secs div 60; hours = mins div 60
              in sgn_str @ (if hours > 0 then show_int hours @ ''h'' else '''') @
                 (if mins > 0 then show_int (mins mod 60) @ ''m'' else '''') @
                 show_int (secs mod 60) @ frac_string u 9 @ ''s'')"

text \<open>\<open>d.Round(m)\<close> for positive \<open>m\<close>: to the nearest multiple, halves away from zero, saturating.\<close>

definition round_duration :: "duration \<Rightarrow> duration \<Rightarrow> duration" where
  "round_duration d m =
     (if m \<le> 0 then d
      else let r = \<bar>d\<bar> mod m
           in if d < 0 then
                (if 2 * r < m then d + r
                 else let d1 = i64 (d - m + r) in if d1 < d then d1 else min_i64)
              else if 2 * r < m then d - r
              else let d1 = i64 (d + m - r) in if d1 > d then d1 else max_i64)"

end
