(* ===== verification/Api_Types.thy ===== *)
theory Api_Types
  imports Prelude
begin

text \<open>
  The data of the program: the custom resources of \<open>api/v1\<close> field by field, the fields the
  code reads and writes of the Kubernetes objects (Pods, PodDisruptionBudgets, Nodes,
  conditions), and the two parameters every component takes:
  \<^item> \<open>env\<close>: the third-party libraries (\<open>k8s.io/apimachinery\<close>, \<open>sigs.k8s.io/yaml\<close>, the JSON
    decoding of types that define their own \<open>UnmarshalJSON\<close>) and the data the Go standard
    library reads at run time (the time zone database, Unicode tables, the local zone);
  \<^item> \<open>'s client\<close>: the Kubernetes API client, as operations on a state \<open>'s\<close> of the cluster.
    Reads return the object or an error, writes return an optional error and the new state.
  Both are records of functions; nothing is assumed of them here. Go string types with named
  constants stay strings, so unknown values are values too; the constants are abbreviations.
  Go maps that are iterated are association lists, the other ones are maps. \<open>int32\<close> and
  \<open>int64\<close> fields are \<^typ>\<open>int\<close>s; arithmetic on them is reduced by \<open>i64\<close> where the code
  computes.
\<close>

subsection \<open>Constants of api/v1\<close>

abbreviation SpotPlacementTypeSpot :: string where
  "SpotPlacementTypeSpot \<equiv> ''Spot''"
abbreviation SpotPlacementTypeOnDemand :: string where
  "SpotPlacementTypeOnDemand \<equiv> ''OnDemand''"
abbreviation FallbackActionFail :: string where
  "FallbackActionFail \<equiv> ''Fail''"
abbreviation FallbackActionFallbackToOnDemand :: string where
  "FallbackActionFallbackToOnDemand \<equiv> ''FallbackToOnDemand''"
abbreviation ReadinessReady :: string where
  "ReadinessReady \<equiv> ''Ready''"
abbreviation ReadinessNotReady :: string where
  "ReadinessNotReady \<equiv> ''NotReady''"
abbreviation ReadinessOverdue :: string where
  "ReadinessOverdue \<equiv> ''Overdue''"
abbreviation EnforcedClassLabel :: string where
  "EnforcedClassLabel \<equiv> ''workloads.gke.io/enforced-class''"
abbreviation PodUIDLabel :: string where
  "PodUIDLabel \<equiv> ''workloads.gke.io/pod-uid''"
abbreviation ConditionTypeValidated :: string where
  "ConditionTypeValidated \<equiv> ''Validated''"
abbreviation ReasonValidationPassed :: string where
  "ReasonValidationPassed \<equiv> ''ValidationPassed''"
abbreviation ReasonValidationFailed :: string where
  "ReasonValidationFailed \<equiv> ''ValidationFailed''"
abbreviation ReasonNoGuardrails :: string where
  "ReasonNoGuardrails \<equiv> ''NoGuardrails''"
abbreviation ReasonSelectorOverlap :: string where
  "ReasonSelectorOverlap \<equiv> ''SelectorOverlap''"
abbreviation ConditionTypePlacementPluginAttached :: string where
  "ConditionTypePlacementPluginAttached \<equiv> ''PlacementPluginAttached''"
abbreviation ReasonPluginPending :: string where
  "ReasonPluginPending \<equiv> ''PluginPending''"
abbreviation ReasonProfileResolved :: string where
  "ReasonProfileResolved \<equiv> ''ProfileResolved''"
abbreviation ReasonPluginResolutionFailed :: string where
  "ReasonPluginResolutionFailed \<equiv> ''PluginResolutionFailed''"
abbreviation ConditionTypeInFallback :: string where
  "ConditionTypeInFallback \<equiv> ''InFallback''"
abbreviation ReasonFallbackActive :: string where
  "ReasonFallbackActive \<equiv> ''FallbackActive''"
abbreviation ReasonSpotTargetMet :: string where
  "ReasonSpotTargetMet \<equiv> ''SpotTargetMet''"
abbreviation ActiveReversionAction :: string where
  "ActiveReversionAction \<equiv> ''Active''"
abbreviation LazyReversionAction :: string where
  "LazyReversionAction \<equiv> ''Lazy''"
abbreviation NoneReversionAction :: string where
  "NoneReversionAction \<equiv> ''None''"
abbreviation AllowedEnforcementMode :: string where
  "AllowedEnforcementMode \<equiv> ''Allowed''"
abbreviation RequiredEnforcementMode :: string where
  "RequiredEnforcementMode \<equiv> ''Required''"
abbreviation ForbiddenEnforcementMode :: string where
  "ForbiddenEnforcementMode \<equiv> ''Forbidden''"
abbreviation GKESpotPlacementPolicyKind :: string where
  "GKESpotPlacementPolicyKind \<equiv> ''GKESpotPlacementPolicy''"
abbreviation PluginNameGKESpotPlacement :: string where
  "PluginNameGKESpotPlacement \<equiv> ''gke-spot-placement''"
abbreviation GroupVersionGroup :: string where
  "GroupVersionGroup \<equiv> ''workloads.gke.io''"
abbreviation ConditionTrue :: string where
  "ConditionTrue \<equiv> ''True''"
abbreviation ConditionFalse :: string where
  "ConditionFalse \<equiv> ''False''"

subsection \<open>Kubernetes objects\<close>

type_synonym str_map = "string \<rightharpoonup> string"

record label_requirement =
  lr_key :: string
  lr_operator :: string
  lr_values :: "string list"

abbreviation LabelSelectorOpIn :: string where
  "LabelSelectorOpIn \<equiv> ''In''"
abbreviation LabelSelectorOpNotIn :: string where
  "LabelSelectorOpNotIn \<equiv> ''NotIn''"
abbreviation LabelSelectorOpExists :: string where
  "LabelSelectorOpExists \<equiv> ''Exists''"
abbreviation LabelSelectorOpDoesNotExist :: string where
  "LabelSelectorOpDoesNotExist \<equiv> ''DoesNotExist''"

record label_selector =
  sel_labels :: "(string \<times> string) list"
  sel_exprs :: "label_requirement list"

record condition =
  c_type :: string
  c_status :: string
  c_reason :: string
  c_message :: string
  c_observed :: int
  c_transition :: go_time

record owner_ref =
  or_kind :: string
  or_name :: string
  or_uid :: string
  or_controller :: "bool option"

datatype int_or_string = IntVal int | StrVal string

record toleration =
  tol_key :: string
  tol_operator :: string
  tol_value :: string
  tol_effect :: string

record node_requirement =
  nr_key :: string
  nr_operator :: string
  nr_values :: "string list"

record node_term =
  nt_exprs :: "node_requirement list"
  nt_fields :: "node_requirement list"

record preferred_term =
  pt_weight :: int
  pt_preference :: node_term

text \<open>\<open>required = None\<close> is a nil \<open>RequiredDuringSchedulingIgnoredDuringExecution\<close>.\<close>

record node_affinity =
  na_required :: "node_term list option"
  na_preferred :: "preferred_term list"

record affinity =
  aff_node :: "node_affinity option"

record pod_condition =
  pcd_type :: string
  pcd_status :: string
  pcd_transition :: go_time

record pod =
  pod_name :: string
  pod_generate_name :: string
  pod_namespace :: string
  pod_uid :: string
  pod_labels :: str_map
  pod_created :: go_time
  pod_deletion :: "go_time option"
  pod_deletion_grace :: "int option"
  pod_owners :: "owner_ref list"
  pod_node :: string
  pod_node_selector :: str_map
  pod_tolerations :: "toleration list"
  pod_affinity :: "affinity option"
  pod_grace :: "int option"
  pod_phase :: string
  pod_start :: "go_time option"
  pod_conditions :: "pod_condition list"

record pdb =
  pdb_name :: string
  pdb_namespace :: string
  pdb_uid :: string
  pdb_version :: string
  pdb_labels :: str_map
  pdb_annotations :: str_map
  pdb_owners :: "owner_ref list"
  pdb_selector :: "label_selector option"
  pdb_max_unavailable :: "int_or_string option"
  pdb_unhealthy :: "string option"

record node_obj =
  node_name :: string
  node_labels :: str_map
  node_unschedulable :: bool
  node_conditions :: "(string \<times> string) list"

subsection \<open>WorkloadClass (workloadclass_types.go)\<close>

record disruption_window =
  dw_name :: string
  dw_days :: "string list"
  dw_time_zone :: string
  dw_start :: string
  dw_end :: string

record subject =
  sub_kind :: string
  sub_name :: string
  sub_namespace :: string

record disruption_policy =
  dp_windows :: "disruption_window list"
  dp_allowed_outside :: "subject list"
  dp_max_days :: int
  dp_min_run_days :: int
  dp_grace_seconds :: int
  dp_emergency :: bool

record capacity_strategy =
  cs_type :: string
  cs_spot_ratio :: string
  cs_fallback :: string

record infra_ref =
  ir_group :: string
  ir_kind :: string
  ir_name :: string

record workload_class_spec =
  ws_selector :: "label_selector option"
  ws_policy :: disruption_policy
  ws_capacity :: "capacity_strategy option"
  ws_infra :: "infra_ref option"

record workload_class_status =
  st_readiness :: string
  st_last_disruption :: "go_time option"
  st_conditions :: "condition list"

record workload_class =
  wc_name :: string
  wc_namespace :: string
  wc_uid :: string
  wc_generation :: int
  wc_created :: go_time
  wc_deletion :: "go_time option"
  wc_spec :: workload_class_spec
  wc_status :: workload_class_status

abbreviation "wc_policy w \<equiv> ws_policy (wc_spec w)"
abbreviation "wc_selector w \<equiv> ws_selector (wc_spec w)"
abbreviation "wc_capacity w \<equiv> ws_capacity (wc_spec w)"
abbreviation "wc_infra w \<equiv> ws_infra (wc_spec w)"
abbreviation "wc_conditions w \<equiv> st_conditions (wc_status w)"
abbreviation "wc_readiness w \<equiv> st_readiness (wc_status w)"

subsection \<open>WorkloadClassGuardrail (workloadclassguardrail_types.go)\<close>

record disruption_limits =
  dl_days :: "string list"
  dl_max_windows :: int
  dl_max_days :: int
  dl_timeout :: int
  dl_emergency :: bool

record plugin_constraint =
  pc_name :: string
  pc_template :: string
  pc_parameters :: "string option"

record guardrail_spec =
  gs_disruption :: disruption_limits
  gs_plugin :: "plugin_constraint list option"

record guardrail =
  gr_name :: string
  gr_generation :: int
  gr_spec :: guardrail_spec
  gr_conditions :: "condition list"

subsection \<open>GKESpotPlacementPolicy (gkespotplacementpolicy_types.go)\<close>

record reversion_policy =
  rp_action :: string
  rp_min_duration :: "duration option"

record spot_policy_spec =
  ps_compute_class :: string
  ps_families :: "string list"
  ps_reversion :: reversion_policy

record spot_policy =
  sp_name :: string
  sp_generation :: int
  sp_spec :: spot_policy_spec
  sp_conditions :: "condition list"

record fallback_constraints =
  fc_allow :: "bool option"
  fc_max_ratio :: "int_or_string option"

record reversion_constraints =
  rc_required_action :: "string option"
  rc_max_duration :: "duration option"

record spot_params =
  sg_mode :: string
  sg_min_ratio :: "string option"
  sg_fallback :: "fallback_constraints option"
  sg_reversion :: "reversion_constraints option"

subsection \<open>Cluster autoscaler status (spot_capacity.go)\<close>

record backoff_info =
  bo_code :: string
  bo_message :: string

record node_group =
  ng_name :: string
  ng_health :: string
  ng_scale_up :: string
  ng_backoff :: "backoff_info option"

subsection \<open>The environment\<close>

text \<open>
  A time zone is the lookup of the zone database: for an instant in seconds, the offset in
  effect and the half-open interval of instants it is in effect for (\<open>Location.lookup\<close>).
\<close>

type_synonym location = "int \<Rightarrow> int \<times> int \<times> int"

record env =
  as_selector :: "label_selector option \<Rightarrow> string + (str_map \<Rightarrow> bool)"
    \<comment> \<open>\<open>metav1.LabelSelectorAsSelector\<close>, the selector as its \<open>Matches\<close>\<close>
  find_status_condition :: "condition list \<Rightarrow> string \<Rightarrow> condition option"
  is_status_condition_true :: "condition list \<Rightarrow> string \<Rightarrow> bool"
  set_status_condition :: "go_time \<Rightarrow> condition list \<Rightarrow> condition \<Rightarrow> condition list \<times> bool"
  remove_status_condition :: "condition list \<Rightarrow> string \<Rightarrow> condition list \<times> bool"
  get_controller_of :: "owner_ref list \<Rightarrow> owner_ref option"
  is_controlled_by :: "owner_ref list \<Rightarrow> string \<Rightarrow> bool"
  set_controller_reference :: "workload_class \<Rightarrow> owner_ref list \<Rightarrow> api_error + owner_ref list"
  intstr_string :: "int_or_string \<Rightarrow> string"
  quote :: "string \<Rightarrow> string"
  sha256 :: "string \<Rightarrow> string"
  load_location :: "string \<Rightarrow> string + location"
  format_expiration :: "go_time \<Rightarrow> string"
  parse_expiration :: "string \<Rightarrow> go_time option"
  json_object :: "string \<Rightarrow> string + bool"
    \<comment> \<open>\<open>json.Unmarshal\<close> into \<open>map[string]any\<close>: an error, or whether the map is non-nil\<close>
  decode_params :: "string \<Rightarrow> string + spot_params"
  yaml_status :: "string \<Rightarrow> string + node_group list"

record 's client =
  get_namespace :: "'s \<Rightarrow> string \<Rightarrow> api_error + str_map"
  get_wc :: "'s \<Rightarrow> string \<Rightarrow> string \<Rightarrow> api_error + workload_class"
  list_wcs :: "'s \<Rightarrow> string \<Rightarrow> api_error + workload_class list"
  list_all_wcs :: "'s \<Rightarrow> api_error + workload_class list"
  get_guardrail :: "'s \<Rightarrow> string \<Rightarrow> api_error + guardrail"
  list_guardrails :: "'s \<Rightarrow> api_error + guardrail list"
  get_policy :: "'s \<Rightarrow> string \<Rightarrow> api_error + spot_policy"
  list_policies :: "'s \<Rightarrow> api_error + spot_policy list"
  get_pod :: "'s \<Rightarrow> string \<Rightarrow> string \<Rightarrow> api_error + pod"
  list_pods :: "'s \<Rightarrow> string \<Rightarrow> (str_map \<Rightarrow> bool) \<Rightarrow> api_error + pod list"
  get_pdb :: "'s \<Rightarrow> string \<Rightarrow> string \<Rightarrow> api_error + pdb"
  list_pdbs :: "'s \<Rightarrow> string \<Rightarrow> api_error + pdb list"
  get_node :: "'s \<Rightarrow> string \<Rightarrow> api_error + node_obj"
  list_nodes :: "'s \<Rightarrow> string \<Rightarrow> string \<Rightarrow> api_error + node_obj list"
  get_config_map :: "'s \<Rightarrow> string \<Rightarrow> string \<Rightarrow> api_error + str_map"
  update_wc_status :: "workload_class \<Rightarrow> 's \<Rightarrow> api_error option \<times> 's"
  update_guardrail_status :: "guardrail \<Rightarrow> 's \<Rightarrow> api_error option \<times> 's"
  update_policy_status :: "spot_policy \<Rightarrow> 's \<Rightarrow> api_error option \<times> 's"
  patch_pod_labels :: "pod \<Rightarrow> str_map \<Rightarrow> 's \<Rightarrow> api_error option \<times> 's"
  create_or_update_pdb :: "pdb \<Rightarrow> (pdb \<Rightarrow> api_error + pdb) \<Rightarrow> 's \<Rightarrow> api_error option \<times> 's"
  delete_pdb :: "pdb \<Rightarrow> 's \<Rightarrow> api_error option \<times> 's"
  evict_pod :: "pod \<Rightarrow> 's \<Rightarrow> api_error option \<times> 's"
  retry_on_conflict :: "('s \<Rightarrow> (api_error option \<times> workload_class) \<times> 's) \<Rightarrow> 's
     \<Rightarrow> (api_error option \<times> workload_class) \<times> 's"
    \<comment> \<open>\<open>retry.RetryOnConflict(retry.DefaultRetry, f)\<close> of client-go\<close>

type_synonym namespaced_name = "string \<times> string"

end
