(* ===== verification/Reference_Env.thy ===== *)
theory Reference_Env
  imports Api_Types
begin

text \<open>
  A concrete environment: executable functions with the documented behaviour of the library
  calls the program makes (label selectors, status conditions, owner references). It is the
  instance at which the theorems with hypotheses about the environment are shown to hold; no
  other definition of the development uses it. \<open>selector_matches\<close> is the meaning of a label
  selector, which \<open>selector_laws\<close> requires of the parameter \<open>as_selector\<close>.
\<close>

subsection \<open>The meaning of label selectors\<close>

definition req_holds :: "string \<Rightarrow> string list \<Rightarrow> string option \<Rightarrow> bool" where
  "req_holds oper values v =
     (if oper = LabelSelectorOpIn then (case v of None \<Rightarrow> False | Some x \<Rightarrow> x \<in> set values)
      else if oper = LabelSelectorOpNotIn then (case v of None \<Rightarrow> True | Some x \<Rightarrow> x \<notin> set values)
      else if oper = LabelSelectorOpExists then v \<noteq> None
      else if oper = LabelSelectorOpDoesNotExist then v = None
      else False)"

definition selector_matches :: "label_selector \<Rightarrow> str_map \<Rightarrow> bool" where
  "selector_matches sel labels =
     ((\<forall>(k, v) \<in> set (sel_labels sel). labels k = Some v) \<and>
      (\<forall>r \<in> set (sel_exprs sel). req_holds (lr_operator r) (lr_values r) (labels (lr_key r))))"

definition known_operator :: "string \<Rightarrow> bool" where
  "known_operator oper =
     (oper \<in> {LabelSelectorOpIn, LabelSelectorOpNotIn, LabelSelectorOpExists, LabelSelectorOpDoesNotExist})"

definition known_operators :: "label_selector \<Rightarrow> bool" where
  "known_operators sel = list_all (\<lambda>r. known_operator (lr_operator r)) (sel_exprs sel)"

text \<open>What the program relies on of \<open>metav1.LabelSelectorAsSelector\<close>: a nil selector matches
  nothing; a selector it accepts has known operators only and matches by their meaning.\<close>

definition selector_laws :: "env \<Rightarrow> bool" where
  "selector_laws E =
     (as_selector E None = Inr (\<lambda>labels. False) \<and>
      (\<forall>sel m. as_selector E (Some sel) = Inr m \<longrightarrow> known_operators sel \<and> m = selector_matches sel))"

lemma selector_lawsD:
  assumes "selector_laws E" "as_selector E (Some sel) = Inr m"
  shows "known_operators sel" "m labels = selector_matches sel labels"
  using assms by (auto simp: selector_laws_def)

lemma selector_laws_None: "selector_laws E \<Longrightarrow> as_selector E None = Inr (\<lambda>labels. False)"
  by (simp add: selector_laws_def)

subsection \<open>Status conditions\<close>

text \<open>What the program relies on of the helpers of \<open>k8s.io/apimachinery/pkg/api/meta\<close>.\<close>

definition ref_find :: "condition list \<Rightarrow> string \<Rightarrow> condition option" where
  "ref_find cs ty = find (\<lambda>c. c_type c = ty) cs"

definition ref_is_true :: "condition list \<Rightarrow> string \<Rightarrow> bool" where
  "ref_is_true cs ty = (case ref_find cs ty of None \<Rightarrow> False | Some c \<Rightarrow> c_status c = ConditionTrue)"

definition merge_condition :: "go_time \<Rightarrow> condition \<Rightarrow> condition \<Rightarrow> condition" where
  "merge_condition now old_c c =
     c\<lparr>c_transition := (if c_status old_c = c_status c then c_transition old_c
        else if c_transition c = 0 then now else c_transition c)\<rparr>"

fun replace_condition :: "go_time \<Rightarrow> condition list \<Rightarrow> condition \<Rightarrow> condition list" where
  "replace_condition now [] c = []"
| "replace_condition now (x # xs) c =
     (if c_type x = c_type c then merge_condition now x c # xs else x # replace_condition now xs c)"

definition ref_set :: "go_time \<Rightarrow> condition list \<Rightarrow> condition \<Rightarrow> condition list \<times> bool" where
  "ref_set now cs c =
     (case ref_find cs (c_type c) of
        None \<Rightarrow> (cs @ [c\<lparr>c_transition := (if c_transition c = 0 then now else c_transition c)\<rparr>], True)
      | Some x \<Rightarrow> (replace_condition now cs c, merge_condition now x c \<noteq> x))"

definition ref_remove :: "condition list \<Rightarrow> string \<Rightarrow> condition list \<times> bool" where
  "ref_remove cs ty = (filter (\<lambda>c. c_type c \<noteq> ty) cs, \<exists>c \<in> set cs. c_type c = ty)"

text \<open>What a condition says, apart from when it was set.\<close>

definition same_content :: "condition \<Rightarrow> condition \<Rightarrow> bool" where
  "same_content a b =
     (c_status a = c_status b \<and> c_reason a = c_reason b \<and> c_message a = c_message b \<and> c_observed a = c_observed b)"

text \<open>The laws: reading after writing, the other conditions left alone, and no change reported where
  nothing changes.\<close>

definition condition_laws :: "env \<Rightarrow> bool" where
  "condition_laws E =
     ((\<forall>cs ty. is_status_condition_true E cs ty =
         (case find_status_condition E cs ty of None \<Rightarrow> False | Some c \<Rightarrow> c_status c = ConditionTrue)) \<and>
      (\<forall>cs ty c. find_status_condition E cs ty = Some c \<longrightarrow> c_type c = ty) \<and>
      (\<forall>now cs c. \<exists>x. find_status_condition E (fst (set_status_condition E now cs c)) (c_type c) = Some x \<and>
         same_content x c) \<and>
      (\<forall>now cs c ty. ty \<noteq> c_type c \<longrightarrow>
         find_status_condition E (fst (set_status_condition E now cs c)) ty = find_status_condition E cs ty) \<and>
      (\<forall>now cs c. \<not> snd (set_status_condition E now cs c) \<longrightarrow> fst (set_status_condition E now cs c) = cs) \<and>
      (\<forall>cs ty. find_status_condition E (fst (remove_status_condition E cs ty)) ty = None) \<and>
      (\<forall>cs ty ty'. ty' \<noteq> ty \<longrightarrow>
         find_status_condition E (fst (remove_status_condition E cs ty)) ty' = find_status_condition E cs ty') \<and>
      (\<forall>cs ty. \<not> snd (remove_status_condition E cs ty) \<longrightarrow> fst (remove_status_condition E cs ty) = cs) \<and>
      (\<forall>now cs c x. find_status_condition E cs (c_type c) = Some x \<longrightarrow> same_content x c \<longrightarrow>
         set_status_condition E now cs c = (cs, False)) \<and>
      (\<forall>cs ty. find_status_condition E cs ty = None \<longrightarrow> remove_status_condition E cs ty = (cs, False)))"

subsection \<open>Expiration times\<close>

text \<open>What the program relies on of \<open>Format\<close> and \<open>time.Parse\<close> with the layout \<open>ExpirationFormat\<close>
  (\<open>2006-01-02 15:04:05.999999999 -0700 MST\<close>): parsing a formatted time gives back the instant, to the
  nanosecond. The layout has four digits for the year and whole minutes for the offset of the zone, so the
  law is about the years 1 to 9999 of a process that runs in UTC, as the container image of the program
  does.\<close>

definition end_of_years :: go_time where
  "end_of_years = 315537897600 * second"

definition expiration_law :: "env \<Rightarrow> bool" where
  "expiration_law E =
     (\<forall>t. 0 \<le> t \<longrightarrow> t < end_of_years \<longrightarrow> parse_expiration E (format_expiration E t) = Some t)"

subsection \<open>The reference environment\<close>

definition ref_selector :: "label_selector option \<Rightarrow> string + (str_map \<Rightarrow> bool)" where
  "ref_selector s =
     (case s of None \<Rightarrow> Inr (\<lambda>labels. False)
      | Some sel \<Rightarrow> if known_operators sel then Inr (selector_matches sel) else Inl ''not a valid label selector operator'')"

definition ref_controller :: "owner_ref list \<Rightarrow> owner_ref option" where
  "ref_controller rs = find (\<lambda>r. or_controller r = Some True) rs"

definition ref_set_controller :: "workload_class \<Rightarrow> owner_ref list \<Rightarrow> api_error + owner_ref list" where
  "ref_set_controller w rs =
     (case ref_controller rs of
        Some r \<Rightarrow> if or_uid r = wc_uid w \<and> or_kind r = ''WorkloadClass'' \<and> or_name r = wc_name w then Inr rs else Inl (OtherError ''already owned by another controller'')
      | None \<Rightarrow> Inr (rs @ [\<lparr>or_kind = ''WorkloadClass'', or_name = wc_name w, or_uid = wc_uid w,
                           or_controller = Some True\<rparr>]))"

definition utc :: location where
  "utc t = (0, 0, 0)"

text \<open>Times are printed as seconds, with the nanoseconds after a point unless they are zero.\<close>

definition ref_format :: "go_time \<Rightarrow> string" where
  "ref_format t = show_int (t div second) @ (if t mod second = 0 then [] else CHR ''.'' # show_int (t mod second))"

definition ref_parse :: "string \<Rightarrow> go_time option" where
  "ref_parse v =
     (case atoi (takeWhile (\<lambda>c. c \<noteq> CHR ''.'') v) of None \<Rightarrow> None
      | Some secs \<Rightarrow> (case dropWhile (\<lambda>c. c \<noteq> CHR ''.'') v of [] \<Rightarrow> Some (secs * second)
                      | c # rest \<Rightarrow> map_option (\<lambda>nanos. secs * second + nanos) (atoi rest)))"

definition default_params :: spot_params where
  "default_params = \<lparr>sg_mode = '''', sg_min_ratio = None, sg_fallback = None, sg_reversion = None\<rparr>"

definition ref_env :: env where
  "ref_env = \<lparr>
     as_selector = ref_selector,
     find_status_condition = ref_find,
     is_status_condition_true = ref_is_true,
     set_status_condition = ref_set,
     remove_status_condition = ref_remove,
     get_controller_of = ref_controller,
     is_controlled_by = (\<lambda>rs uid. case ref_controller rs of None \<Rightarrow> False | Some r \<Rightarrow> or_uid r = uid),
     set_controller_reference = ref_set_controller,
     intstr_string = (\<lambda>x. case x of IntVal i \<Rightarrow> show_int i | StrVal v \<Rightarrow> v),
     quote = (\<lambda>v. [CHR 0x22] @ v @ [CHR 0x22]),
     sha256 = (\<lambda>v. replicate 32 (CHR 0x2A)),
     load_location = (\<lambda>z. if z = ''Etc/UTC'' \<or> z = ''UTC'' then Inr utc else Inl (''unknown time zone '' @ z)),
     format_expiration = ref_format,
     parse_expiration = ref_parse,
     json_object = (\<lambda>raw. Inr True),
     decode_params = (\<lambda>raw. Inr (default_params\<lparr>sg_mode := raw\<rparr>)),
     yaml_status = (\<lambda>raw. Inr []) \<rparr>"

lemma ref_env_simps [simp]:
  "as_selector ref_env = ref_selector" "find_status_condition ref_env = ref_find"
  "is_status_condition_true ref_env = ref_is_true" "set_status_condition ref_env = ref_set"
  "remove_status_condition ref_env = ref_remove" "get_controller_of ref_env = ref_controller"
  "set_controller_reference ref_env = ref_set_controller" "format_expiration ref_env = ref_format"
  "parse_expiration ref_env = ref_parse" "sha256 ref_env v = replicate 32 (CHR 0x2A)"
  "is_controlled_by ref_env rs uid = (case ref_controller rs of None \<Rightarrow> False | Some r \<Rightarrow> or_uid r = uid)"
  "load_location ref_env z = (if z = ''Etc/UTC'' \<or> z = ''UTC'' then Inr utc else Inl (''unknown time zone '' @ z))"
  "decode_params ref_env raw = Inr (default_params\<lparr>sg_mode := raw\<rparr>)" "yaml_status ref_env raw = Inr []"
  "json_object ref_env raw = Inr True" "quote ref_env v = [CHR 0x22] @ v @ [CHR 0x22]"
  "intstr_string ref_env x = (case x of IntVal i \<Rightarrow> show_int i | StrVal v \<Rightarrow> v)"
  by (simp_all add: ref_env_def)

lemma selector_laws_ref_env: "selector_laws ref_env"
  by (simp add: selector_laws_def ref_selector_def)

lemma split_at_mark:
  "\<forall>c \<in> set s. c \<noteq> x \<Longrightarrow> rest = [] \<or> (\<exists>r. rest = x # r) \<Longrightarrow>
   takeWhile (\<lambda>c. c \<noteq> x) (s @ rest) = s \<and> dropWhile (\<lambda>c. c \<noteq> x) (s @ rest) = rest"
  by (induction s) auto

lemma ref_parse_parts:
  assumes "\<forall>c \<in> set s. c \<noteq> CHR ''.''"
  shows "ref_parse s = map_option (\<lambda>secs. secs * second) (atoi s)"
    and "ref_parse (s @ CHR ''.'' # f) =
      (case atoi s of None \<Rightarrow> None | Some secs \<Rightarrow> map_option (\<lambda>nanos. secs * second + nanos) (atoi f))"
proof -
  note plain = split_at_mark [OF assms, of "[]", unfolded append_Nil2, THEN conjunct1, OF disjI1 [OF refl]]
    split_at_mark [OF assms, of "[]", unfolded append_Nil2, THEN conjunct2, OF disjI1 [OF refl]]
  show "ref_parse s = map_option (\<lambda>secs. secs * second) (atoi s)"
    unfolding ref_parse_def plain by (cases "atoi s") simp_all
  have "takeWhile (\<lambda>c. c \<noteq> CHR ''.'') (s @ CHR ''.'' # f) = s" "dropWhile (\<lambda>c. c \<noteq> CHR ''.'') (s @ CHR ''.'' # f) = CHR ''.'' # f"
    using split_at_mark [OF assms, of "CHR ''.'' # f"] by blast+
  then show "ref_parse (s @ CHR ''.'' # f) =
      (case atoi s of None \<Rightarrow> None | Some secs \<Rightarrow> map_option (\<lambda>nanos. secs * second + nanos) (atoi f))"
    unfolding ref_parse_def by (simp only: list.case)
qed

lemma ref_parse_plain [simp]: "CHR ''.'' \<notin> set v \<Longrightarrow> ref_parse v = map_option (\<lambda>t. t * second) (atoi v)"
  by (rule ref_parse_parts) auto

lemma expiration_law_ref_env: "expiration_law ref_env"
proof -
  have atoi: "atoi (show_int x) = Some x" if "0 \<le> x" "x \<le> max_i64" for x
    using that atoi_show_nat [of "nat x"] by (simp add: show_int_def)
  have "ref_parse (ref_format t) = Some t" if t: "0 \<le> t" "t < end_of_years" for t
  proof -
    have secs: "0 \<le> t div second" "t div second \<le> max_i64" and nanos: "0 \<le> t mod second" "t mod second \<le> max_i64"
      using t pos_mod_bound [of "1000000000" t] by (simp_all add: second_def end_of_years_def max_i64_def)
    have point: "\<forall>c \<in> set (show_int (t div second)). c \<noteq> CHR ''.''"
      using secs(1) show_nat_digits [of "nat (t div second)"] by (auto simp: show_int_def list_all_iff is_digit_def)
    have "t div second * second + t mod second = t" by simp
    then show ?thesis
      using ref_parse_parts [OF point] atoi [OF secs] atoi [OF nanos]
      by (cases "t mod second = 0") (simp_all add: ref_format_def)
  qed
  then show ?thesis by (simp add: expiration_law_def)
qed

subsection \<open>Owner references\<close>

text \<open>What the program relies on of \<open>metav1.GetControllerOf\<close>, \<open>metav1.IsControlledBy\<close> and
  \<open>controllerutil.SetControllerReference\<close>: the controller is the first reference marked so; an object
  without one can be given the WorkloadClass as its controller.\<close>

definition owner_laws :: "env \<Rightarrow> bool" where
  "owner_laws E =
     ((\<forall>rs. get_controller_of E rs = find (\<lambda>r. or_controller r = Some True) rs) \<and>
      (\<forall>rs uid. is_controlled_by E rs uid =
         (case get_controller_of E rs of None \<Rightarrow> False | Some r \<Rightarrow> or_uid r = uid)) \<and>
      (\<forall>wc rs rs'. set_controller_reference E wc rs = Inr rs' \<longrightarrow>
         (\<exists>r. get_controller_of E rs' = Some r \<and> or_uid r = wc_uid wc \<and> or_kind r = ''WorkloadClass'')) \<and>
      (\<forall>wc rs. get_controller_of E rs = None \<longrightarrow> (\<exists>rs'. set_controller_reference E wc rs = Inr rs')))"

lemma find_snoc: "find P (xs @ [y]) = (case find P xs of Some x \<Rightarrow> Some x | None \<Rightarrow> if P y then Some y else None)"
  by (induction xs) auto

lemma owner_laws_ref_env: "owner_laws ref_env"
  by (auto simp: owner_laws_def ref_controller_def ref_set_controller_def find_snoc split: option.splits if_splits)

lemma find_replace_same:
  "find (\<lambda>x. c_type x = c_type c) cs = Some y \<Longrightarrow>
   find (\<lambda>x. c_type x = c_type c) (replace_condition now cs c) = Some (merge_condition now y c)"
  by (induction cs) (auto simp: merge_condition_def split: if_splits)

lemma find_replace_other:
  "ty \<noteq> c_type c \<Longrightarrow>
   find (\<lambda>x. c_type x = ty) (replace_condition now cs c) = find (\<lambda>x. c_type x = ty) cs"
  by (induction cs) (auto simp: merge_condition_def)

lemma replace_condition_same:
  "find (\<lambda>x. c_type x = c_type c) cs = Some y \<Longrightarrow> merge_condition now y c = y \<Longrightarrow> replace_condition now cs c = cs"
  by (induction cs) (auto split: if_splits)

lemma find_filter_other: "ty' \<noteq> ty \<Longrightarrow>
   find (\<lambda>c. c_type c = ty') (filter (\<lambda>c. c_type c \<noteq> ty) cs) = find (\<lambda>c. c_type c = ty') cs"
  by (induction cs) auto

lemma condition_laws_ref_env: "condition_laws ref_env"
proof -
  have set_read: "\<exists>x. ref_find (fst (ref_set now cs c)) (c_type c) = Some x \<and> same_content x c" for now cs c
    by (cases "ref_find cs (c_type c)")
       (auto simp: ref_set_def ref_find_def find_snoc find_replace_same merge_condition_def same_content_def)
  have set_other: "ref_find (fst (ref_set now cs c)) ty = ref_find cs ty" if "ty \<noteq> c_type c" for now cs c ty
    using that by (auto simp: ref_set_def ref_find_def find_snoc find_replace_other split: option.splits)
  have set_same: "fst (ref_set now cs c) = cs" if "\<not> snd (ref_set now cs c)" for now cs c
    using that by (auto simp: ref_set_def ref_find_def intro: replace_condition_same split: option.splits)
  have remove_same: "ref_find (fst (ref_remove cs ty)) ty = None" for cs ty
    by (auto simp: ref_find_def ref_remove_def find_None_iff)
  have remove_id: "fst (ref_remove cs ty) = cs" if "\<not> snd (ref_remove cs ty)" for cs ty
    using that by (auto simp: ref_remove_def filter_id_conv)
  have settled: "ref_set now cs c = (cs, False)" if "ref_find cs (c_type c) = Some x" "same_content x c" for now cs c x
  proof -
    have "c_type x = c_type c" using that(1) by (auto simp: ref_find_def find_Some_iff)
    then have "merge_condition now x c = x"
      using that(2) by (cases x; cases c) (simp add: merge_condition_def same_content_def)
    then show ?thesis
      using that(1) by (simp add: ref_set_def replace_condition_same ref_find_def)
  qed
  have absent: "ref_remove cs ty = (cs, False)" if "ref_find cs ty = None" for cs ty
    using that by (auto simp: ref_remove_def ref_find_def find_None_iff filter_id_conv)
  have found_type: "c_type c = ty" if "ref_find cs ty = Some c" for cs ty c
    using that by (auto simp: ref_find_def find_Some_iff)
  have remove_other: "ref_find (fst (ref_remove cs ty)) ty' = ref_find cs ty'" if "ty' \<noteq> ty" for cs ty ty'
    using that by (simp add: ref_find_def ref_remove_def find_filter_other)
  show ?thesis
    unfolding condition_laws_def ref_env_simps ref_is_true_def
  proof (intro conjI)
    show "\<forall>cs ty. ref_find cs ty = None \<longrightarrow> ref_remove cs ty = (cs, False)"
      by (intro allI impI absent)
    show "\<forall>now cs c x. ref_find cs (c_type c) = Some x \<longrightarrow> same_content x c \<longrightarrow> ref_set now cs c = (cs, False)"
      by (intro allI impI settled)
  qed (use set_read set_other set_same remove_same remove_id found_type remove_other in \<open>simp_all\<close>)
qed

subsection \<open>Sample objects\<close>

definition sample_window :: disruption_window where
  "sample_window = \<lparr>dw_name = ''night'', dw_days = [''Monday'', ''Tuesday''], dw_time_zone = '''',
     dw_start = ''01:00'', dw_end = ''05:00''\<rparr>"

definition sample_policy :: disruption_policy where
  "sample_policy = \<lparr>dp_windows = [sample_window], dp_allowed_outside = [], dp_max_days = 30,
     dp_min_run_days = 1, dp_grace_seconds = 0, dp_emergency = False\<rparr>"

definition sample_selector :: label_selector where
  "sample_selector = \<lparr>sel_labels = [(''app'', ''web'')], sel_exprs = []\<rparr>"

definition sample_spec :: workload_class_spec where
  "sample_spec = \<lparr>ws_selector = Some sample_selector, ws_policy = sample_policy, ws_capacity = None, ws_infra = None\<rparr>"

definition sample_wc :: workload_class where
  "sample_wc = \<lparr>wc_name = ''web'', wc_namespace = ''prod'', wc_uid = ''u1'', wc_generation = 1, wc_created = 1,
     wc_deletion = None, wc_spec = sample_spec,
     wc_status = \<lparr>st_readiness = '''', st_last_disruption = None, st_conditions = []\<rparr>\<rparr>"

definition sample_pod :: pod where
  "sample_pod = \<lparr>pod_name = ''web-0'', pod_generate_name = '''', pod_namespace = ''prod'', pod_uid = ''p1'',
     pod_labels = [''app'' \<mapsto> ''web''], pod_created = 1, pod_deletion = None, pod_deletion_grace = None,
     pod_owners = [], pod_node = '''', pod_node_selector = Map.empty, pod_tolerations = [], pod_affinity = None,
     pod_grace = None, pod_phase = ''Running'', pod_start = None, pod_conditions = []\<rparr>"

definition sample_guardrail :: guardrail where
  "sample_guardrail = \<lparr>gr_name = ''weekdays'', gr_generation = 1,
     gr_spec = \<lparr>gs_disruption = \<lparr>dl_days = [''Monday'', ''Tuesday'', ''Wednesday''], dl_max_windows = 2, dl_max_days = 60,
       dl_timeout = 0, dl_emergency = False\<rparr>, gs_plugin = None\<rparr>, gr_conditions = []\<rparr>"

lemmas samples =
  sample_window_def sample_policy_def sample_selector_def sample_spec_def sample_wc_def sample_pod_def
  sample_guardrail_def

lemma sample_selects: "as_selector ref_env (wc_selector sample_wc) = Inr (selector_matches sample_selector)"
  by (simp add: samples ref_selector_def known_operators_def)

lemma sample_selected: "selector_matches sample_selector (pod_labels sample_pod)"
  by (simp add: samples selector_matches_def)

definition spot_strategy :: capacity_strategy where
  "spot_strategy = \<lparr>cs_type = '''', cs_spot_ratio = '''', cs_fallback = FallbackActionFallbackToOnDemand\<rparr>"

definition spot_wc :: workload_class where
  "spot_wc = sample_wc\<lparr>wc_spec := sample_spec\<lparr>ws_capacity := Some spot_strategy\<rparr>\<rparr>"

text \<open>A guardrail whose \<open>gke-spot-placement\<close> entry requires Spot.\<close>

definition spot_guardrail :: guardrail where
  "spot_guardrail = sample_guardrail\<lparr>gr_spec := (gr_spec sample_guardrail)\<lparr>gs_plugin :=
     Some [\<lparr>pc_name = PluginNameGKESpotPlacement, pc_template = '''', pc_parameters = Some RequiredEnforcementMode\<rparr>]\<rparr>\<rparr>"

lemmas spot_samples = spot_strategy_def spot_wc_def spot_guardrail_def samples

end
