(* ===== verification/Utils_Basic.thy ===== *)
theory Utils_Basic
  imports Api_Types Reference_Env
begin

text \<open>
  The small helpers of \<open>internal/utils\<close>: \<open>format.go\<close>, \<open>subset.go\<close>, \<open>spotratio.go\<close>,
  \<open>spotpod.go\<close>, \<open>gkespot.go\<close> and \<open>gkespotguardrail.go\<close>. The lemmas give the meaning of the
  ratio rule (the share it converges to), of percentage parsing, and of the Pod predicates.
  A pointer that the Go function compares with nil is an option.
\<close>

subsection \<open>format.go, subset.go\<close>

definition QuotedList :: "string list \<Rightarrow> string" where
  "QuotedList values = str_join (map (\<lambda>v. [CHR 0x27] @ v @ [CHR 0x27]) values) '', ''"

fun subset_loop :: "string list \<Rightarrow> string set \<Rightarrow> bool" where
  "subset_loop [] superset_map = True"
| "subset_loop (d # ds) superset_map = (if d \<notin> superset_map then False else subset_loop ds superset_map)"

definition IsSubset :: "string list \<Rightarrow> string list \<Rightarrow> bool" where
  "IsSubset sub super =
     (if length sub = 0 then True
      else let superset_map = fold insert super {} in subset_loop sub superset_map)"

subsection \<open>spotratio.go\<close>

definition ParsePercentage :: "env \<Rightarrow> string \<Rightarrow> string + int" where
  "ParsePercentage E s =
     (if \<not> has_suffix s ''%'' then Inl ''must end with %''
      else case atoi (trim_suffix s ''%'') of
        None \<Rightarrow> Inl (''strconv.Atoi: parsing '' @ quote E (trim_suffix s ''%'') @ atoi_error (trim_suffix s ''%''))
      | Some v \<Rightarrow> if v < 0 \<or> v > 100 then Inl ''must be between 0% and 100%'' else Inr v)"

definition SpotRatioPercent :: "env \<Rightarrow> string \<Rightarrow> string + int" where
  "SpotRatioPercent E spot_ratio =
     (if spot_ratio = '''' then Inr 100
      else case ParsePercentage E spot_ratio of
        Inl err \<Rightarrow> Inl (''invalid spotRatio '' @ quote E spot_ratio @ '': '' @ err)
      | Inr v \<Rightarrow> Inr v)"

definition ShouldUseSpot :: "int \<Rightarrow> int \<Rightarrow> int \<Rightarrow> bool" where
  "ShouldUseSpot spot_existing total_existing spot_ratio =
     (i64 (spot_existing * 100) < i64 (i64 (total_existing + 1) * spot_ratio))"

definition SpotShareMet :: "int \<Rightarrow> int \<Rightarrow> int \<Rightarrow> bool" where
  "SpotShareMet spot pods spot_ratio =
     (if pods \<le> 0 then True else \<not> ShouldUseSpot spot (i64 (pods - 1)) spot_ratio)"

subsection \<open>spotpod.go\<close>

abbreviation SpotLabelKey :: string where
  "SpotLabelKey \<equiv> ''cloud.google.com/gke-spot''"
abbreviation SpotLabelValue :: string where
  "SpotLabelValue \<equiv> ''true''"

text \<open>Reading a Go map of strings yields the empty string for a missing key.\<close>

definition map_get :: "str_map \<Rightarrow> string \<Rightarrow> string" where
  "map_get m k = (case m k of None \<Rightarrow> '''' | Some v \<Rightarrow> v)"

definition IsSpotNode :: "node_obj option \<Rightarrow> bool" where
  "IsSpotNode node = (case node of None \<Rightarrow> False
     | Some n \<Rightarrow> map_get (node_labels n) SpotLabelKey = SpotLabelValue)"

definition IsSpotToleration :: "toleration \<Rightarrow> bool" where
  "IsSpotToleration t =
     (tol_key t = SpotLabelKey \<and> (tol_operator t = ''Equal'' \<or> tol_operator t = '''') \<and>
      tol_value t = SpotLabelValue \<and> tol_effect t = ''NoSchedule'')"

definition IsPodTargetedForSpot :: "pod option \<Rightarrow> bool" where
  "IsPodTargetedForSpot p = (case p of None \<Rightarrow> False
     | Some pod \<Rightarrow> map_get (pod_node_selector pod) SpotLabelKey = SpotLabelValue \<or>
         list_ex IsSpotToleration (pod_tolerations pod))"

definition IsPodActive :: "pod option \<Rightarrow> bool" where
  "IsPodActive p = (case p of None \<Rightarrow> False
     | Some pod \<Rightarrow> pod_deletion pod = None \<and> pod_phase pod \<noteq> ''Succeeded'' \<and> pod_phase pod \<noteq> ''Failed'')"

subsection \<open>gkespot.go, gkespotguardrail.go\<close>

definition ReferencesGKESpotPlacementPolicy :: "infra_ref option \<Rightarrow> bool" where
  "ReferencesGKESpotPlacementPolicy ref = (case ref of None \<Rightarrow> False
     | Some r \<Rightarrow> ir_kind r = GKESpotPlacementPolicyKind \<and>
         (ir_group r = '''' \<or> ir_group r = GroupVersionGroup))"

definition TargetsSpot :: "env \<Rightarrow> workload_class option \<Rightarrow> bool" where
  "TargetsSpot E w = (case w of None \<Rightarrow> False
     | Some wc \<Rightarrow> (case wc_capacity wc of None \<Rightarrow> False
       | Some cs \<Rightarrow>
           if cs_type cs \<noteq> '''' \<and> cs_type cs \<noteq> SpotPlacementTypeSpot then False
           else (case SpotRatioPercent E (cs_spot_ratio cs) of Inl err \<Rightarrow> False | Inr ratio \<Rightarrow> ratio > 0)))"

definition IsGKESpotManaged :: "workload_class option \<Rightarrow> bool" where
  "IsGKESpotManaged w = (case w of None \<Rightarrow> False
     | Some wc \<Rightarrow> (case wc_capacity wc of None \<Rightarrow> False
       | Some cs \<Rightarrow> wc_infra wc = None \<or> ReferencesGKESpotPlacementPolicy (wc_infra wc)))"

definition ParseGKESpotGuardrailParameters :: "env \<Rightarrow> string \<Rightarrow> string + spot_params" where
  "ParseGKESpotGuardrailParameters E raw = decode_params E raw"

subsection \<open>The Spot ratio rule\<close>

text \<open>
  The contract of an admission rule for a share of \<open>r\<close> percent: within a bound on the counts
  (no overflow) it admits a Pod to Spot while Spot has less than its share of the Pods including
  the new one. The lemmas follow a sequence of admissions.
\<close>

locale ratio_rule =
  fixes admit :: "int \<Rightarrow> int \<Rightarrow> int \<Rightarrow> bool" and bound :: int
  assumes admit_iff: "0 \<le> s \<Longrightarrow> s \<le> t \<Longrightarrow> t < bound \<Longrightarrow> 0 \<le> r \<Longrightarrow> r \<le> 100 \<Longrightarrow>
    admit s t r \<longleftrightarrow> s * 100 < (t + 1) * r"
begin

text \<open>The Spot count after \<open>n\<close> admissions, from \<open>s0\<close> Spot Pods of \<open>t0\<close> Pods.\<close>

fun spot_count :: "int \<Rightarrow> int \<Rightarrow> int \<Rightarrow> nat \<Rightarrow> int" where
  "spot_count s0 t0 r 0 = s0"
| "spot_count s0 t0 r (Suc n) =
     (let s = spot_count s0 t0 r n in if admit s (t0 + int n) r then s + 1 else s)"

lemma spot_count_range:
  "0 \<le> s0 \<Longrightarrow> s0 \<le> t0 \<Longrightarrow> 0 \<le> spot_count s0 t0 r n \<and> spot_count s0 t0 r n \<le> t0 + int n"
  by (induction n) (auto simp: Let_def)

lemma spot_count_closed:
  assumes r: "0 \<le> r" "r \<le> 100" and s0: "0 \<le> s0" "s0 \<le> t0"
  shows "t0 + int n < bound \<Longrightarrow>
    spot_count s0 t0 r n = max s0 (min (s0 + int n) (((t0 + int n) * r + 99) div 100))"
proof (induction n)
  case 0
  then show ?case by simp
next
  case (Suc n)
  let ?s = "spot_count s0 t0 r n" and ?t = "t0 + int n"
  have IH: "?s = max s0 (min (s0 + int n) ((?t * r + 99) div 100))"
    using Suc by simp
  have range: "0 \<le> ?s" "?s \<le> ?t" "?t < bound"
    using spot_count_range [OF s0, of r n] Suc.prems by auto
  have admit: "admit ?s ?t r \<longleftrightarrow> ?s * 100 < (?t + 1) * r"
    using admit_iff [OF range r] .
  have step: "(?t + 1) * r = ?t * r + r" by (simp add: algebra_simps)
  have "spot_count s0 t0 r (Suc n) = (if ?s * 100 < ?t * r + r then ?s + 1 else ?s)"
    by (simp add: Let_def admit step)
  also have "\<dots> = max s0 (min (s0 + int n + 1) ((?t * r + r + 99) div 100))"
    using r unfolding IH by (auto simp: max_def min_def)
  finally show ?case
    by (simp add: algebra_simps)
qed

end

lemma ratio_product:
  fixes a r :: int
  assumes "0 \<le> a" "a \<le> 2 ^ 50" "0 \<le> r" "r \<le> 100"
  shows "i64 (a * r) = a * r"
proof (rule i64_id)
  have "0 \<le> a * r" using assms by simp
  moreover have "- (2 ^ 63) \<le> (0 :: int)" by simp
  ultimately show "- (2 ^ 63) \<le> a * r" by (rule order.trans [rotated])
  show "a * r < 2 ^ 63" using assms mult_mono [of a "2 ^ 50" r 100] by simp
qed

lemma ShouldUseSpot_iff:
  assumes "0 \<le> s" "s \<le> t" "t < 2 ^ 50" "0 \<le> r" "r \<le> 100"
  shows "ShouldUseSpot s t r \<longleftrightarrow> s * 100 < (t + 1) * r"
proof -
  have "i64 ((t + 1) * r) = (t + 1) * r"
    using assms by (intro ratio_product) simp_all
  then show ?thesis
    using assms by (simp add: ShouldUseSpot_def i64_id)
qed

interpretation spot_ratio: ratio_rule ShouldUseSpot "2 ^ 50"
  by unfold_locales (rule ShouldUseSpot_iff)

text \<open>The Pods admitted one after the other, counted by the rule itself.\<close>

fun admitted_spot :: "int \<Rightarrow> int \<Rightarrow> int \<Rightarrow> nat \<Rightarrow> int" where
  "admitted_spot s0 t0 r 0 = s0"
| "admitted_spot s0 t0 r (Suc n) =
     (let s = admitted_spot s0 t0 r n in if ShouldUseSpot s (t0 + int n) r then s + 1 else s)"

lemma admitted_spot_count: "admitted_spot s0 t0 r n = spot_ratio.spot_count s0 t0 r n"
  by (induction n) (auto simp: Let_def)

text \<open>C33: The ratio rule converges to its share: admitting \<open>n\<close> Pods one by one to a workload of
  \<open>t0\<close> Pods of which \<open>s0\<close> are Spot gives exactly \<open>\<lceil>r%\<rceil>\<close> of all Pods on Spot, limited only by the
  Spot Pods it started with and by the \<open>n\<close> it could add.\<close>

theorem ShouldUseSpot_share:
  assumes "0 \<le> s0" "s0 \<le> t0" "0 \<le> r" "r \<le> 100" "t0 + int n < 2 ^ 50"
  shows "admitted_spot s0 t0 r n = max s0 (min (s0 + int n) (((t0 + int n) * r + 99) div 100))"
  unfolding admitted_spot_count using assms by (intro spot_ratio.spot_count_closed)

lemma ShouldUseSpot_share_witness: "admitted_spot 0 0 80 5 = 4 \<and> admitted_spot 3 3 50 4 = 4"
  using ShouldUseSpot_share [of 0 0 80 5] ShouldUseSpot_share [of 3 3 50 4] by simp

text \<open>\<open>SpotShareMet\<close> says when reversion may stop: the Spot Pods make up at least the ratio of the
  Pods. Admitting a Pod by \<open>ShouldUseSpot\<close> and testing the share agree, so a workload that met its
  share before a non-Spot admission still meets it after.\<close>

theorem SpotShareMet_iff:
  assumes "0 \<le> spot" "spot \<le> pods" "pods < 2 ^ 50" "0 \<le> r" "r \<le> 100"
  shows "(SpotShareMet spot pods r \<longleftrightarrow> pods * r \<le> spot * 100) \<and>
    (\<not> ShouldUseSpot spot pods r \<longleftrightarrow> SpotShareMet spot (pods + 1) r)"
proof (cases "pods = 0")
  case True
  then show ?thesis using assms ShouldUseSpot_iff [of spot 0 r] by (auto simp: SpotShareMet_def i64_id)
next
  case False
  have i64: "i64 (pods - 1) = pods - 1" "i64 pods = pods" using assms by (simp_all add: i64_id)
  have "i64 (pods * r) = pods * r"
    using assms by (intro ratio_product) simp_all
  then have "ShouldUseSpot spot (pods - 1) r \<longleftrightarrow> spot * 100 < pods * r"
    using assms by (simp add: ShouldUseSpot_def i64_id)
  then show ?thesis
    using assms False by (auto simp: SpotShareMet_def i64)
qed

lemma SpotShareMet_iff_witness: "SpotShareMet 4 5 80 \<and> \<not> SpotShareMet 3 5 80 \<and> \<not> ShouldUseSpot 4 4 80"
  using SpotShareMet_iff [of 4 5 80] SpotShareMet_iff [of 3 5 80] SpotShareMet_iff [of 4 4 80] by simp

subsection \<open>Percentages\<close>

lemma trim_suffix_percent [simp]: "trim_suffix (s @ ''%'') ''%'' = s"
  by simp

lemma ParsePercentage_show:
  assumes "n \<le> 100"
  shows "ParsePercentage E (show_nat n @ ''%'') = Inr (int n)"
  using assms atoi_show_nat [of n] by (simp add: ParsePercentage_def max_i64_def)

lemma ParsePercentage_range: "ParsePercentage E s = Inr v \<Longrightarrow> 0 \<le> v \<and> v \<le> 100"
  by (auto simp: ParsePercentage_def split: if_splits option.splits)

lemma SpotRatioPercent_range: "SpotRatioPercent E s = Inr v \<Longrightarrow> 0 \<le> v \<and> v \<le> 100"
  by (auto simp: SpotRatioPercent_def dest: ParsePercentage_range split: if_splits sum.splits)

text \<open>Printing a percentage and parsing it back gives the same number, and whatever a ratio
  string parses to lies between 0 and 100; the empty ratio means 100.\<close>

theorem SpotRatioPercent_roundtrip:
  "(n \<le> 100 \<longrightarrow> SpotRatioPercent E (show_nat n @ ''%'') = Inr (int n)) \<and>
   SpotRatioPercent E '''' = Inr 100 \<and>
   (\<forall>s v. SpotRatioPercent E s = Inr v \<longrightarrow> 0 \<le> v \<and> v \<le> 100)"
  by (auto simp: SpotRatioPercent_def ParsePercentage_show dest: ParsePercentage_range split: sum.splits if_splits)

lemma SpotRatioPercent_roundtrip_witness: "SpotRatioPercent ref_env (show_nat 75 @ ''%'') = Inr 75"
  using SpotRatioPercent_roundtrip [of 75 ref_env] by simp

end
