(* ===== verification/Reference_Client.thy ===== *)
theory Reference_Client
  imports Reference_Env
begin

text \<open>
  A concrete API server: the cluster as lists of objects, with reads by namespace and name and
  writes that replace one object. Like \<open>ref_env\<close> it is only an instance, at which theorems
  with hypotheses about the client are shown to hold.
\<close>

record cluster =
  k_namespaces :: "(string \<times> str_map) list"
  k_wcs :: "workload_class list"
  k_guardrails :: "guardrail list"
  k_policies :: "spot_policy list"
  k_pods :: "pod list"
  k_pdbs :: "pdb list"
  k_nodes :: "node_obj list"
  k_config_maps :: "(namespaced_name \<times> str_map) list"

definition empty_cluster :: cluster where
  "empty_cluster = \<lparr>k_namespaces = [], k_wcs = [], k_guardrails = [], k_policies = [], k_pods = [], k_pdbs = [],
     k_nodes = [], k_config_maps = []\<rparr>"

definition fetch :: "'a option \<Rightarrow> api_error + 'a" where
  "fetch x = (case x of None \<Rightarrow> Inl (NotFound ''not found'') | Some a \<Rightarrow> Inr a)"

definition same_wc :: "workload_class \<Rightarrow> workload_class \<Rightarrow> bool" where
  "same_wc a b = (wc_namespace a = wc_namespace b \<and> wc_name a = wc_name b)"

definition same_pdb :: "pdb \<Rightarrow> pdb \<Rightarrow> bool" where
  "same_pdb a b = (pdb_namespace a = pdb_namespace b \<and> pdb_name a = pdb_name b)"

definition same_pod :: "pod \<Rightarrow> pod \<Rightarrow> bool" where
  "same_pod a b = (pod_namespace a = pod_namespace b \<and> pod_name a = pod_name b)"

definition replace_by :: "('a \<Rightarrow> 'a \<Rightarrow> bool) \<Rightarrow> 'a \<Rightarrow> 'a list \<Rightarrow> 'a list" where
  "replace_by same x xs = map (\<lambda>y. if same x y then x else y) xs"

definition ref_upsert :: "pdb \<Rightarrow> (pdb \<Rightarrow> api_error + pdb) \<Rightarrow> cluster \<Rightarrow> api_error option \<times> cluster" where
  "ref_upsert base mutate s =
     (case find (same_pdb base) (k_pdbs s) of
        None \<Rightarrow> (case mutate base of Inl e \<Rightarrow> (Some e, s)
          | Inr b \<Rightarrow> (None, s\<lparr>k_pdbs := k_pdbs s @ [b\<lparr>pdb_version := ''1''\<rparr>]\<rparr>))
      | Some x \<Rightarrow> (case mutate x of Inl e \<Rightarrow> (Some e, s)
          | Inr b \<Rightarrow> (None, s\<lparr>k_pdbs := replace_by same_pdb b (k_pdbs s)\<rparr>)))"

definition ref_client :: "cluster client" where
  "ref_client = \<lparr>
     get_namespace = (\<lambda>s n. fetch (map_of (k_namespaces s) n)),
     get_wc = (\<lambda>s ns n. fetch (find (\<lambda>w. wc_namespace w = ns \<and> wc_name w = n) (k_wcs s))),
     list_wcs = (\<lambda>s ns. Inr (filter (\<lambda>w. wc_namespace w = ns) (k_wcs s))),
     list_all_wcs = (\<lambda>s. Inr (k_wcs s)),
     get_guardrail = (\<lambda>s n. fetch (find (\<lambda>g. gr_name g = n) (k_guardrails s))),
     list_guardrails = (\<lambda>s. Inr (k_guardrails s)),
     get_policy = (\<lambda>s n. fetch (find (\<lambda>p. sp_name p = n) (k_policies s))),
     list_policies = (\<lambda>s. Inr (k_policies s)),
     get_pod = (\<lambda>s ns n. fetch (find (\<lambda>p. pod_namespace p = ns \<and> pod_name p = n) (k_pods s))),
     list_pods = (\<lambda>s ns sel. Inr (filter (\<lambda>p. pod_namespace p = ns \<and> sel (pod_labels p)) (k_pods s))),
     get_pdb = (\<lambda>s ns n. fetch (find (\<lambda>b. pdb_namespace b = ns \<and> pdb_name b = n) (k_pdbs s))),
     list_pdbs = (\<lambda>s ns. Inr (filter (\<lambda>b. pdb_namespace b = ns) (k_pdbs s))),
     get_node = (\<lambda>s n. fetch (find (\<lambda>x. node_name x = n) (k_nodes s))),
     list_nodes = (\<lambda>s key val. Inr (filter (\<lambda>x. node_labels x key = Some val) (k_nodes s))),
     get_config_map = (\<lambda>s ns n. fetch (map_of (k_config_maps s) (ns, n))),
     update_wc_status = (\<lambda>w s. (None, s\<lparr>k_wcs := replace_by same_wc w (k_wcs s)\<rparr>)),
     update_guardrail_status = (\<lambda>g s. (None, s\<lparr>k_guardrails := replace_by (\<lambda>a b. gr_name a = gr_name b) g (k_guardrails s)\<rparr>)),
     update_policy_status = (\<lambda>p s. (None, s\<lparr>k_policies := replace_by (\<lambda>a b. sp_name a = sp_name b) p (k_policies s)\<rparr>)),
     patch_pod_labels = (\<lambda>p ls s. (None, s\<lparr>k_pods := replace_by same_pod (p\<lparr>pod_labels := ls\<rparr>) (k_pods s)\<rparr>)),
     create_or_update_pdb = ref_upsert,
     delete_pdb = (\<lambda>b s. (None, s\<lparr>k_pdbs := filter (\<lambda>x. \<not> same_pdb b x) (k_pdbs s)\<rparr>)),
     evict_pod = (\<lambda>p s. (None, s\<lparr>k_pods := filter (\<lambda>x. \<not> same_pod p x) (k_pods s)\<rparr>)),
     retry_on_conflict = (\<lambda>f s. f s) \<rparr>"

lemma ref_client_simps [simp]:
  "get_namespace ref_client s n = fetch (map_of (k_namespaces s) n)"
  "get_wc ref_client s ns n = fetch (find (\<lambda>w. wc_namespace w = ns \<and> wc_name w = n) (k_wcs s))"
  "list_wcs ref_client s ns = Inr (filter (\<lambda>w. wc_namespace w = ns) (k_wcs s))"
  "list_all_wcs ref_client s = Inr (k_wcs s)"
  "get_guardrail ref_client s n = fetch (find (\<lambda>g. gr_name g = n) (k_guardrails s))"
  "list_guardrails ref_client s = Inr (k_guardrails s)"
  "get_policy ref_client s n = fetch (find (\<lambda>p. sp_name p = n) (k_policies s))"
  "get_pod ref_client s ns n = fetch (find (\<lambda>p. pod_namespace p = ns \<and> pod_name p = n) (k_pods s))"
  "list_pods ref_client s ns sel = Inr (filter (\<lambda>p. pod_namespace p = ns \<and> sel (pod_labels p)) (k_pods s))"
  "get_pdb ref_client s ns n = fetch (find (\<lambda>b. pdb_namespace b = ns \<and> pdb_name b = n) (k_pdbs s))"
  "list_pdbs ref_client s ns = Inr (filter (\<lambda>b. pdb_namespace b = ns) (k_pdbs s))"
  "get_node ref_client s n = fetch (find (\<lambda>x. node_name x = n) (k_nodes s))"
  "list_nodes ref_client s key val = Inr (filter (\<lambda>x. node_labels x key = Some val) (k_nodes s))"
  "get_config_map ref_client s ns n = fetch (map_of (k_config_maps s) (ns, n))"
  "create_or_update_pdb ref_client = ref_upsert"
  "update_wc_status ref_client w s = (None, s\<lparr>k_wcs := replace_by same_wc w (k_wcs s)\<rparr>)"
  "patch_pod_labels ref_client p ls s = (None, s\<lparr>k_pods := replace_by same_pod (p\<lparr>pod_labels := ls\<rparr>) (k_pods s)\<rparr>)"
  "delete_pdb ref_client b s = (None, s\<lparr>k_pdbs := filter (\<lambda>x. \<not> same_pdb b x) (k_pdbs s)\<rparr>)"
  "evict_pod ref_client p s = (None, s\<lparr>k_pods := filter (\<lambda>x. \<not> same_pod p x) (k_pods s)\<rparr>)"
  "retry_on_conflict ref_client f s = f s"
  by (simp_all add: ref_client_def)

lemma fetch_simps [simp]: "fetch None = Inl (NotFound ''not found'')" "fetch (Some a) = Inr a"
  by (simp_all add: fetch_def)

definition sample_cluster :: cluster where
  "sample_cluster = empty_cluster\<lparr>k_namespaces := [(''prod'', Map.empty)], k_wcs := [sample_wc],
     k_guardrails := [sample_guardrail], k_pods := [sample_pod]\<rparr>"

end
