(* ===== verification/Best_Match.thy ===== *)
theory Best_Match
  imports Utils_Basic Reference_Client "HOL-Library.AList" "HOL-Library.Product_Lexorder"
begin

text \<open>
  \<open>internal/utils/workloadclass.go\<close>: which WorkloadClass governs a Pod. The namespace's
  enforced WorkloadClass wins; otherwise the matching WorkloadClass with the most selector
  requirements, the oldest among equals.
\<close>

subsection \<open>Selection from a list\<close>

definition getSpecificity :: "label_selector option \<Rightarrow> int" where
  "getSpecificity sel = (case sel of None \<Rightarrow> 0
     | Some s \<Rightarrow> int (length (sel_labels s)) + int (length (sel_exprs s)))"

text \<open>The loop state: the best match so far, the other matches by name, the specificity.\<close>

record match_state =
  ms_best :: "workload_class option"
  ms_others :: "(string \<times> int) list"
  ms_max :: int

definition ns_name :: "workload_class \<Rightarrow> string" where
  "ns_name w = wc_namespace w @ ''/'' @ wc_name w"

text \<open>\<open>wc.CreationTimestamp.Before(&bestMatch.CreationTimestamp)\<close>; with no best match yet the
  specificity is above the initial -1, so the comparison is not reached.\<close>

definition older_than_best :: "workload_class \<Rightarrow> workload_class option \<Rightarrow> bool" where
  "older_than_best wc best = (case best of None \<Rightarrow> False | Some b \<Rightarrow> wc_created wc < wc_created b)"

definition updateBestMatch :: "workload_class \<Rightarrow> match_state \<Rightarrow> match_state" where
  "updateBestMatch wc st =
     (let spec = getSpecificity (wc_selector wc);
          equal_spec_older = (spec = ms_max st \<and> older_than_best wc (ms_best st))
      in if spec > ms_max st \<or> equal_spec_older then
           st\<lparr>ms_others := (case ms_best st of None \<Rightarrow> ms_others st
                | Some b \<Rightarrow> AList.update (ns_name b) (ms_max st) (ms_others st)),
              ms_max := spec, ms_best := Some wc\<rparr>
         else st\<lparr>ms_others := AList.update (ns_name wc) spec (ms_others st)\<rparr>)"

definition match_step :: "env \<Rightarrow> pod \<Rightarrow> workload_class \<Rightarrow> match_state \<Rightarrow> match_state" where
  "match_step E p wc st =
     (if wc_namespace wc \<noteq> pod_namespace p \<or> \<not> time_unset (wc_deletion wc) then st
      else case as_selector E (wc_selector wc) of
          Inl err \<Rightarrow> st
        | Inr sel_matches \<Rightarrow> if sel_matches (pod_labels p) then updateBestMatch wc st else st)"

definition initial_match :: match_state where
  "initial_match = \<lparr>ms_best = None, ms_others = [], ms_max = -1\<rparr>"

definition selectBestMatchFromList :: "env \<Rightarrow> pod \<Rightarrow> workload_class list \<Rightarrow> match_state" where
  "selectBestMatchFromList E p all_wcs = fold (match_step E p) all_wcs initial_match"

definition BestMatchWorkloadClassForPod ::
  "env \<Rightarrow> pod option \<Rightarrow> workload_class option \<Rightarrow> workload_class list \<Rightarrow> workload_class option" where
  "BestMatchWorkloadClassForPod E p enforced all_wcs =
     (case p of None \<Rightarrow> None
      | Some pod \<Rightarrow>
          (case enforced of
             Some w \<Rightarrow> if wc_namespace w = pod_namespace pod \<and> time_unset (wc_deletion w) then Some w
                       else ms_best (selectBestMatchFromList E pod all_wcs)
           | None \<Rightarrow> ms_best (selectBestMatchFromList E pod all_wcs)))"

subsection \<open>The ambiguity warning\<close>

text \<open>
  The names listed in the \<open>AmbiguousMatch\<close> event, or \<open>None\<close> when no event is emitted. The
  map iteration order of the source is the order of the association list here.
\<close>

definition emitAmbiguousMatchWarning :: "bool \<Rightarrow> (string \<times> int) list \<Rightarrow> int \<Rightarrow> string option" where
  "emitAmbiguousMatchWarning recorder matches max_specificity =
     (if length matches = 0 then None
      else let names = map fst (filter (\<lambda>(m, s). s = max_specificity) matches)
           in if length names \<noteq> 0 \<and> recorder
              then Some (''the following WorkloadClasses match pods with the same specificity as the best match, but were not selected: ''
                    @ str_join names '', '')
              else None)"

subsection \<open>With the API client\<close>

definition NamespaceEnforcedWorkloadClass ::
  "'s client \<Rightarrow> 's \<Rightarrow> string \<Rightarrow> api_error + workload_class option" where
  "NamespaceEnforcedWorkloadClass C s namespace =
     (case get_namespace C s namespace of
        Inl err \<Rightarrow> if is_not_found err then Inr None
          else Inl (wrap_error (''error getting Namespace '' @ namespace @ '': '') err)
      | Inr ns_labels \<Rightarrow>
          (case ns_labels EnforcedClassLabel of
             None \<Rightarrow> Inr None
           | Some enforced_class \<Rightarrow>
               if enforced_class = '''' then Inr None
               else (case get_wc C s namespace enforced_class of
                   Inl err \<Rightarrow> if is_not_found err then Inr None else Inl err
                 | Inr wc \<Rightarrow> if \<not> time_unset (wc_deletion wc) then Inr None else Inr (Some wc))))"

text \<open>The result and the warning event emitted on the best match, if any.\<close>

definition FindBestMatchWorkloadClass ::
  "env \<Rightarrow> 's client \<Rightarrow> 's \<Rightarrow> bool \<Rightarrow> pod option \<Rightarrow> api_error + (workload_class option \<times> string option)" where
  "FindBestMatchWorkloadClass E C s recorder p =
     (case p of None \<Rightarrow> Inr (None, None)
      | Some pod \<Rightarrow>
          (case NamespaceEnforcedWorkloadClass C s (pod_namespace pod) of
             Inl err \<Rightarrow> Inl err
           | Inr (Some w) \<Rightarrow> Inr (Some w, None)
           | Inr None \<Rightarrow>
               (case list_wcs C s (pod_namespace pod) of
                  Inl err \<Rightarrow> Inl (errorf_v ''failed to list WorkloadClasses: '' err)
                | Inr wcs \<Rightarrow>
                    let st = selectBestMatchFromList E pod wcs
                    in Inr (ms_best st, emitAmbiguousMatchWarning recorder (ms_others st) (ms_max st)))))"

definition everything :: "str_map \<Rightarrow> bool" where
  "everything labels = True"

definition WorkloadClassPodSelector ::
  "env \<Rightarrow> 's client \<Rightarrow> 's \<Rightarrow> workload_class \<Rightarrow> api_error + (str_map \<Rightarrow> bool)" where
  "WorkloadClassPodSelector E C s wc =
     (let from_spec =
        (if wc_selector wc = None then Inr everything
         else case as_selector E (wc_selector wc) of
             Inl err \<Rightarrow> Inl (OtherError (''invalid podSelector: '' @ err))
           | Inr sel \<Rightarrow> Inr sel)
      in case get_namespace C s (wc_namespace wc) of
           Inl err \<Rightarrow> if \<not> is_not_found err
             then Inl (wrap_error (''error getting Namespace '' @ wc_namespace wc @ '': '') err)
             else from_spec
         | Inr ns_labels \<Rightarrow>
             if map_get ns_labels EnforcedClassLabel = wc_name wc then Inr everything else from_spec)"

definition IsValidated :: "condition option \<Rightarrow> bool" where
  "IsValidated cond = (case cond of None \<Rightarrow> False
     | Some c \<Rightarrow> c_status c = ConditionTrue \<or> c_reason c = ReasonSelectorOverlap)"

subsection \<open>The selection rule\<close>

text \<open>
  The contract of a resolver: of the candidates for a Pod it returns one of least rank, and it
  returns one whenever there is one. What the callers rely on follows from the contract.
\<close>

locale resolver =
  fixes pick :: "'p \<Rightarrow> 'w list \<Rightarrow> 'w option"
    and cand :: "'p \<Rightarrow> 'w \<Rightarrow> bool"
    and rank :: "'w \<Rightarrow> 'r :: linorder"
  assumes pick_in: "pick p ws = Some b \<Longrightarrow> b \<in> set ws \<and> cand p b"
    and pick_least: "pick p ws = Some b \<Longrightarrow> w \<in> set ws \<Longrightarrow> cand p w \<Longrightarrow> rank b \<le> rank w"
    and pick_total: "w \<in> set ws \<Longrightarrow> cand p w \<Longrightarrow> pick p ws \<noteq> None"
begin

lemma pick_None_iff: "pick p ws = None \<longleftrightarrow> (\<forall>w \<in> set ws. \<not> cand p w)"
  using pick_in [of p ws] pick_total [of _ ws p] by (cases "pick p ws") auto

lemma sole_candidate:
  assumes "w \<in> set ws" "cand p w" "\<And>v. v \<in> set ws \<Longrightarrow> cand p v \<Longrightarrow> v = w"
  shows "pick p ws = Some w"
proof -
  from assms(1,2) obtain b where "pick p ws = Some b" using pick_total by blast
  with assms(3) pick_in show ?thesis by blast
qed

lemma order_independent:
  assumes same: "set ws = set ws'" and inj: "inj_on rank {w \<in> set ws. cand p w}"
  shows "pick p ws = pick p ws'"
proof (cases "pick p ws")
  case None
  then show ?thesis using same pick_None_iff by metis
next
  case (Some b)
  then have b: "b \<in> set ws" "cand p b" using pick_in by blast+
  then obtain b' where b': "pick p ws' = Some b'" using same pick_total by blast
  then have "b' \<in> set ws" "cand p b'" using same pick_in by blast+
  then have "rank b = rank b'"
    using b Some b' same pick_least by (metis order.antisym)
  then have "b = b'"
    using inj b \<open>b' \<in> set ws\<close> \<open>cand p b'\<close> by (auto dest: inj_onD)
  then show ?thesis using Some b' by simp
qed

end

text \<open>The candidates for a Pod and the rank: more requirements first, then the older one.\<close>

definition eligible :: "env \<Rightarrow> pod \<Rightarrow> workload_class \<Rightarrow> bool" where
  "eligible E p wc =
     (wc_namespace wc = pod_namespace p \<and> time_unset (wc_deletion wc) \<and>
      (case as_selector E (wc_selector wc) of Inl err \<Rightarrow> False | Inr m \<Rightarrow> m (pod_labels p)))"

definition match_rank :: "workload_class \<Rightarrow> int \<times> go_time" where
  "match_rank wc = (- getSpecificity (wc_selector wc), wc_created wc)"

definition better :: "workload_class \<Rightarrow> workload_class option \<Rightarrow> workload_class option" where
  "better wc best = (case best of None \<Rightarrow> Some wc | Some b \<Rightarrow> if match_rank wc < match_rank b then Some wc else Some b)"

definition match_inv :: "match_state \<Rightarrow> bool" where
  "match_inv st = (ms_max st = (case ms_best st of None \<Rightarrow> -1 | Some b \<Rightarrow> getSpecificity (wc_selector b)))"

lemma getSpecificity_nonneg: "0 \<le> getSpecificity sel"
  by (simp add: getSpecificity_def split: option.split)

lemma better_simps [simp]:
  "better wc None = Some wc"
  "better wc (Some b) = (if match_rank wc < match_rank b then Some wc else Some b)"
  by (simp_all add: better_def)

lemma better_not_None [simp]: "better wc best \<noteq> None"
  by (cases best) auto

lemma match_rank_less:
  "match_rank wc < match_rank b \<longleftrightarrow>
     getSpecificity (wc_selector wc) > getSpecificity (wc_selector b) \<or>
     (getSpecificity (wc_selector wc) = getSpecificity (wc_selector b) \<and> wc_created wc < wc_created b)"
  by (auto simp: match_rank_def less_prod_def)

lemma updateBestMatch_better:
  assumes "match_inv st"
  shows "match_inv (updateBestMatch wc st)" "ms_best (updateBestMatch wc st) = better wc (ms_best st)"
proof -
  have "getSpecificity (wc_selector wc) > -1" using getSpecificity_nonneg [of "wc_selector wc"] by linarith
  then show "match_inv (updateBestMatch wc st)" "ms_best (updateBestMatch wc st) = better wc (ms_best st)"
    using assms unfolding match_inv_def updateBestMatch_def Let_def older_than_best_def
    by (cases "ms_best st"; simp add: match_rank_less)+
qed

lemma match_step_eligible:
  "match_step E p wc st = (if eligible E p wc then updateBestMatch wc st else st)"
  by (simp add: match_step_def eligible_def split: sum.splits)

lemma match_step_better:
  assumes "match_inv st"
  shows "match_inv (match_step E p wc st)"
    "ms_best (match_step E p wc st) = (if eligible E p wc then better wc (ms_best st) else ms_best st)"
  using assms by (simp_all add: match_step_eligible updateBestMatch_better)

lemma fold_match_step:
  "match_inv st \<Longrightarrow>
   ms_best (fold (match_step E p) wcs st) = fold better (filter (eligible E p) wcs) (ms_best st)"
  by (induction wcs arbitrary: st) (auto simp: match_step_better)

lemma selectBest_fold: "ms_best (selectBestMatchFromList E p wcs) = fold better (filter (eligible E p) wcs) None"
  by (simp add: selectBestMatchFromList_def fold_match_step match_inv_def initial_match_def)

lemma fold_better_Some:
  "\<exists>xs b ys. w # ws = xs @ b # ys \<and> fold better ws (Some w) = Some b \<and>
     (\<forall>x \<in> set xs. match_rank b < match_rank x) \<and> (\<forall>y \<in> set ys. match_rank b \<le> match_rank y)"
proof (induction ws rule: rev_induct)
  case Nil
  show ?case by (intro exI [of _ "[]"] exI [of _ w]) simp
next
  case (snoc v ws)
  then obtain xs b ys where split: "w # ws = xs @ b # ys" "fold better ws (Some w) = Some b"
    "\<forall>x \<in> set xs. match_rank b < match_rank x" "\<forall>y \<in> set ys. match_rank b \<le> match_rank y"
    by blast
  show ?case
  proof (cases "match_rank v < match_rank b")
    case True
    then have "\<forall>x \<in> set (w # ws). match_rank v < match_rank x"
      unfolding split(1) using split(3,4) by fastforce
    moreover have "fold better (ws @ [v]) (Some w) = Some v"
      using True split(2) by simp
    ultimately show ?thesis by (intro exI [of _ "w # ws"] exI [of _ v] exI [of _ "[]"]) simp
  next
    case False
    then show ?thesis
      using split by (intro exI [of _ xs] exI [of _ b] exI [of _ "ys @ [v]"]) auto
  qed
qed

lemma select_None_iff:
  "ms_best (selectBestMatchFromList E p wcs) = None \<longleftrightarrow> (\<forall>w \<in> set wcs. \<not> eligible E p w)"
proof (cases "filter (eligible E p) wcs")
  case Nil
  then show ?thesis by (simp add: selectBest_fold filter_empty_conv)
next
  case (Cons w ws)
  then have "\<exists>v \<in> set wcs. eligible E p v" by (metis filter_empty_conv list.distinct(1))
  moreover have "ms_best (selectBestMatchFromList E p wcs) \<noteq> None"
    using fold_better_Some [of w ws] by (auto simp: selectBest_fold Cons)
  ultimately show ?thesis by blast
qed

lemma select_first_least:
  assumes "ms_best (selectBestMatchFromList E p wcs) = Some b"
  shows "\<exists>xs ys. filter (eligible E p) wcs = xs @ b # ys \<and>
    (\<forall>x \<in> set xs. match_rank b < match_rank x) \<and> (\<forall>y \<in> set ys. match_rank b \<le> match_rank y)"
proof (cases "filter (eligible E p) wcs")
  case Nil
  then show ?thesis using assms by (simp add: selectBest_fold)
next
  case (Cons w ws)
  then show ?thesis
    using fold_better_Some [of w ws] assms by (auto simp: selectBest_fold)
qed

interpretation best_match: resolver "\<lambda>p ws. ms_best (selectBestMatchFromList E p ws)" "eligible E" match_rank
proof
  fix p ws b w
  assume b: "ms_best (selectBestMatchFromList E p ws) = Some b"
  from select_first_least [OF this] obtain xs ys where split: "filter (eligible E p) ws = xs @ b # ys"
    "\<forall>x \<in> set xs. match_rank b < match_rank x" "\<forall>y \<in> set ys. match_rank b \<le> match_rank y" by blast
  then have "b \<in> set (filter (eligible E p) ws)" by simp
  then show "b \<in> set ws \<and> eligible E p b" by simp
  assume "w \<in> set ws" "eligible E p w"
  then have "w \<in> set (xs @ b # ys)" using split(1) by (simp flip: split(1))
  then show "match_rank b \<le> match_rank w" using split(2,3) by auto
next
  fix w ws p
  assume "w \<in> set ws" "eligible E p w"
  then show "ms_best (selectBestMatchFromList E p ws) \<noteq> None" by (auto simp: select_None_iff)
qed

text \<open>C24: The best match is the first WorkloadClass of least rank (most selector requirements, then
  oldest) among the active ones of the Pod's namespace whose selector matches the Pod, and there is
  none exactly when no WorkloadClass qualifies.\<close>

theorem selectBestMatch_spec:
  "(case ms_best (selectBestMatchFromList E p wcs) of
      None \<Rightarrow> filter (eligible E p) wcs = []
    | Some b \<Rightarrow> \<exists>xs ys. filter (eligible E p) wcs = xs @ b # ys \<and>
        (\<forall>x \<in> set xs. match_rank b < match_rank x) \<and> (\<forall>y \<in> set ys. match_rank b \<le> match_rank y))"
  using select_first_least [of E p wcs] select_None_iff [of E p wcs]
  by (auto simp: filter_empty_conv split: option.split)

lemma selectBestMatch_spec_witness:
  "ms_best (selectBestMatchFromList ref_env sample_pod [sample_wc]) = Some sample_wc \<and>
   (\<exists>xs ys. filter (eligible ref_env sample_pod) [sample_wc] = xs @ sample_wc # ys)"
proof -
  have "eligible ref_env sample_pod sample_wc"
    using sample_selects sample_selected by (simp add: eligible_def) (simp add: samples)
  then have "ms_best (selectBestMatchFromList ref_env sample_pod [sample_wc]) = Some sample_wc"
    by (simp add: selectBest_fold)
  with selectBestMatch_spec [of ref_env sample_pod "[sample_wc]"] show ?thesis
    by (simp only: option.case) blast
qed

text \<open>Who governs a Pod does not depend on the order in which the API server lists the
  WorkloadClasses, as long as no two that select the Pod have both the same number of requirements
  and the same creation time.\<close>

theorem governor_order_independent:
  assumes "set wcs = set wcs'" "inj_on match_rank {w \<in> set wcs. eligible E p w}"
  shows "BestMatchWorkloadClassForPod E (Some p) enforced wcs = BestMatchWorkloadClassForPod E (Some p) enforced wcs'"
  using best_match.order_independent [OF assms] by (simp add: BestMatchWorkloadClassForPod_def split: option.split)

definition older_wc :: workload_class where
  "older_wc = sample_wc\<lparr>wc_name := ''base'', wc_created := 0\<rparr>"

lemma governor_order_independent_witness:
  "BestMatchWorkloadClassForPod ref_env (Some sample_pod) None [sample_wc, older_wc] =
   BestMatchWorkloadClassForPod ref_env (Some sample_pod) None [older_wc, sample_wc]"
proof (rule governor_order_independent)
  show "inj_on match_rank {w \<in> set [sample_wc, older_wc]. eligible ref_env sample_pod w}"
    by (auto simp: inj_on_def match_rank_def older_wc_def sample_wc_def)
qed auto

subsection \<open>Webhooks and controllers agree\<close>

text \<open>What is relied on of \<open>Get\<close>: the object returned lies in the namespace asked for.\<close>

definition get_wc_law :: "'s client \<Rightarrow> bool" where
  "get_wc_law C = (\<forall>s ns nm w. get_wc C s ns nm = Inr w \<longrightarrow> wc_namespace w = ns)"

lemma get_wc_law_ref: "get_wc_law ref_client"
  by (auto simp: get_wc_law_def fetch_def find_Some_iff split: option.splits)

lemma NamespaceEnforced_active:
  assumes "get_wc_law C" "NamespaceEnforcedWorkloadClass C s ns = Inr (Some w)"
  shows "wc_namespace w = ns" "time_unset (wc_deletion w)"
  using assms unfolding NamespaceEnforcedWorkloadClass_def get_wc_law_def
  by (auto split: sum.splits option.splits if_splits)

text \<open>C11: The webhooks, which resolve one Pod with the API client, and the controllers, which
  resolve all Pods of a namespace against one list and one lookup of the enforced WorkloadClass,
  agree on the WorkloadClass that governs a Pod. A namespace's enforced WorkloadClass governs every
  Pod of the namespace.\<close>

theorem best_match_agreement:
  assumes "get_wc_law C" "NamespaceEnforcedWorkloadClass C s (pod_namespace p) = Inr enforced"
    and "list_wcs C s (pod_namespace p) = Inr wcs"
  shows "(\<exists>event. FindBestMatchWorkloadClass E C s recorder (Some p) =
      Inr (BestMatchWorkloadClassForPod E (Some p) enforced wcs, event)) \<and>
    (\<forall>w. enforced = Some w \<longrightarrow> BestMatchWorkloadClassForPod E (Some p) enforced wcs = Some w)"
  using assms NamespaceEnforced_active [OF assms(1)]
  by (auto simp: FindBestMatchWorkloadClass_def BestMatchWorkloadClassForPod_def Let_def split: option.splits)

definition enforced_cluster :: cluster where
  "enforced_cluster = sample_cluster\<lparr>k_namespaces := [(''prod'', [EnforcedClassLabel \<mapsto> ''base''])],
     k_wcs := [sample_wc, older_wc]\<rparr>"

lemma enforced_cluster_base:
  "NamespaceEnforcedWorkloadClass ref_client enforced_cluster (pod_namespace sample_pod) = Inr (Some older_wc)"
  by (simp add: NamespaceEnforcedWorkloadClass_def enforced_cluster_def older_wc_def samples)

lemma best_match_agreement_witness:
  "(\<exists>event. FindBestMatchWorkloadClass ref_env ref_client enforced_cluster True (Some sample_pod) = Inr (Some older_wc, event)) \<and>
   BestMatchWorkloadClassForPod ref_env (Some sample_pod) (Some older_wc) [sample_wc, older_wc] = Some older_wc"
proof -
  have wcs: "list_wcs ref_client enforced_cluster (pod_namespace sample_pod) = Inr [sample_wc, older_wc]"
    by (simp add: enforced_cluster_def older_wc_def samples)
  show ?thesis
    using best_match_agreement [OF get_wc_law_ref enforced_cluster_base wcs, of ref_env True] by auto
qed

lemma sample_eligible: "eligible ref_env sample_pod sample_wc"
  using sample_selects sample_selected by (simp add: eligible_def) (simp add: samples)

text \<open>A cluster whose only WorkloadClass governs the sample Pod.\<close>

lemma sole_wc_governs:
  assumes "k_namespaces s = [(''prod'', Map.empty)]" "k_wcs s = [wc]" "eligible ref_env sample_pod wc"
  shows "FindBestMatchWorkloadClass ref_env ref_client s recorder (Some sample_pod) = Inr (Some wc, None)"
proof -
  have "selectBestMatchFromList ref_env sample_pod [wc] = updateBestMatch wc initial_match"
    using assms(3) by (simp add: selectBestMatchFromList_def match_step_eligible)
  moreover have "updateBestMatch wc initial_match = \<lparr>ms_best = Some wc, ms_others = [], ms_max = getSpecificity (wc_selector wc)\<rparr>"
    using getSpecificity_nonneg [of "wc_selector wc"] by (simp add: updateBestMatch_def initial_match_def Let_def)
  moreover have "pod_namespace sample_pod = ''prod''" by (simp add: sample_pod_def)
  moreover have "wc_namespace wc = ''prod''" using assms(3) by (simp add: eligible_def sample_pod_def)
  ultimately show ?thesis
    using assms(1,2) by (simp add: FindBestMatchWorkloadClass_def NamespaceEnforcedWorkloadClass_def Let_def
        emitAmbiguousMatchWarning_def)
qed

end
