(* ===== verification/Gke_Guardrail.thy ===== *)
theory Gke_Guardrail
  imports Utils_Basic
begin

text \<open>
  \<open>internal/utils/gkespotguardrail_validation.go\<close>: validation of the plugin constraints of a
  guardrail. Every function returns the list of violation messages; a guardrail is valid when
  it is empty. The regular expression \<open>^(100|[1-9]?[0-9])%$\<close> is the matcher
  \<open>percentagePattern\<close>.
\<close>

definition percentagePattern :: "string \<Rightarrow> bool" where
  "percentagePattern s =
     (case s of
        [d, p] \<Rightarrow> is_digit d \<and> p = CHR ''%''
      | [c, d, p] \<Rightarrow> is_digit c \<and> c \<noteq> CHR ''0'' \<and> is_digit d \<and> p = CHR ''%''
      | _ \<Rightarrow> s = ''100%'')"

definition guardrailPercent :: "string \<Rightarrow> int \<times> bool" where
  "guardrailPercent s =
     (if \<not> percentagePattern s then (0, False)
      else case atoi (trim_suffix s ''%'') of Some v \<Rightarrow> (v, True) | None \<Rightarrow> (0, False))"

definition maxFallbackRatioPositive :: "int_or_string \<Rightarrow> bool" where
  "maxFallbackRatioPositive r =
     (case r of
        IntVal i \<Rightarrow> i > 0
      | StrVal s \<Rightarrow> (let (pct, ok) = guardrailPercent s in ok \<and> pct > 0))"

definition ratio_mode_violations :: "env \<Rightarrow> spot_params \<Rightarrow> string list" where
  "ratio_mode_violations E params =
     (case sg_min_ratio params of
        None \<Rightarrow> []
      | Some r \<Rightarrow>
          (let (pct, ok) = guardrailPercent r
           in if \<not> ok then []
              else if sg_mode params = RequiredEnforcementMode \<and> pct = 0 then
                [''minSpotRatio '' @ [CHR 0x22] @ ''0%'' @ [CHR 0x22] @
                 '' contradicts enforcementMode Required: a WorkloadClass must use Spot'']
              else if sg_mode params = ForbiddenEnforcementMode \<and> pct > 0 then
                [''minSpotRatio '' @ quote E r @ '' contradicts enforcementMode Forbidden: a WorkloadClass may not use Spot'']
              else []))"

definition fallback_ratio_violations :: "env \<Rightarrow> spot_params \<Rightarrow> string list" where
  "fallback_ratio_violations E params =
     (case sg_fallback params of
        None \<Rightarrow> []
      | Some f \<Rightarrow>
          (case (fc_allow f, fc_max_ratio f) of
             (Some False, Some r) \<Rightarrow>
               if maxFallbackRatioPositive r then
                 [''fallback.maxFallbackRatio '' @ intstr_string E r @ '' contradicts fallback.allowFallbackToOnDemand false'']
               else []
           | _ \<Rightarrow> []))"

definition reversion_duration_violations :: "spot_params \<Rightarrow> string list" where
  "reversion_duration_violations params =
     (case sg_reversion params of
        None \<Rightarrow> []
      | Some r \<Rightarrow>
          if rc_required_action r = Some NoneReversionAction \<and> rc_max_duration r \<noteq> None then
            [''reversion.maxFallbackDuration cannot be set when reversion.requiredReversionAction is None'']
          else [])"

definition validateGKESpotGuardrailCombinations :: "env \<Rightarrow> spot_params \<Rightarrow> string list" where
  "validateGKESpotGuardrailCombinations E params =
     ratio_mode_violations E params @ fallback_ratio_violations E params @ reversion_duration_violations params"

definition mode_violations :: "env \<Rightarrow> spot_params \<Rightarrow> string list" where
  "mode_violations E params =
     (if sg_mode params \<in> {'''', AllowedEnforcementMode, RequiredEnforcementMode, ForbiddenEnforcementMode} then []
      else [''invalid enforcementMode '' @ quote E (sg_mode params) @ '': must be one of Allowed, Required, Forbidden''])"

definition min_ratio_violations :: "env \<Rightarrow> spot_params \<Rightarrow> string list" where
  "min_ratio_violations E params =
     (case sg_min_ratio params of
        None \<Rightarrow> []
      | Some r \<Rightarrow> if \<not> percentagePattern r then
            [''invalid minSpotRatio '' @ quote E r @ '': must be an integer percentage between 0% and 100%'']
          else [])"

definition max_ratio_violations :: "env \<Rightarrow> spot_params \<Rightarrow> string list" where
  "max_ratio_violations E params =
     (case sg_fallback params of
        None \<Rightarrow> []
      | Some f \<Rightarrow>
          (case fc_max_ratio f of
             None \<Rightarrow> []
           | Some (IntVal i) \<Rightarrow>
               if i < 0 then [''invalid fallback.maxFallbackRatio '' @ show_int i @ '': must be non-negative''] else []
           | Some (StrVal v) \<Rightarrow>
               if \<not> percentagePattern v then
                 [''invalid fallback.maxFallbackRatio '' @ quote E v @ '': must be an integer percentage between 0% and 100%'']
               else []))"

definition reversion_violations :: "env \<Rightarrow> spot_params \<Rightarrow> string list" where
  "reversion_violations E params =
     (case sg_reversion params of
        None \<Rightarrow> []
      | Some r \<Rightarrow>
          (case rc_required_action r of
             None \<Rightarrow> []
           | Some a \<Rightarrow>
               if a \<in> {ActiveReversionAction, LazyReversionAction, NoneReversionAction} then []
               else [''invalid reversion.requiredReversionAction '' @ quote E a @ '': must be one of Active, Lazy, None'']) @
          (case rc_max_duration r of
             None \<Rightarrow> []
           | Some d \<Rightarrow>
               if d < 0 then [''invalid reversion.maxFallbackDuration '' @ quote E (duration_string d) @ '': must be non-negative'']
               else []))"

definition spot_params_violations :: "env \<Rightarrow> spot_params \<Rightarrow> string list" where
  "spot_params_violations E params =
     mode_violations E params @ min_ratio_violations E params @ max_ratio_violations E params @
     reversion_violations E params @ validateGKESpotGuardrailCombinations E params"

definition validateGKESpotGuardrailParameters :: "env \<Rightarrow> string \<Rightarrow> string list" where
  "validateGKESpotGuardrailParameters E raw =
     (case ParseGKESpotGuardrailParameters E raw of
        Inl err \<Rightarrow> [''invalid '' @ PluginNameGKESpotPlacement @ '' parameters: '' @ err]
      | Inr params \<Rightarrow> spot_params_violations E params)"

definition validatePlacementPluginConstraint :: "env \<Rightarrow> plugin_constraint \<Rightarrow> string list" where
  "validatePlacementPluginConstraint E c =
     (if trim_space (pc_name c) = '''' then [''placement pluginConstraint name must not be empty'']
      else if trim_space (pc_name c) \<noteq> pc_name c then
        [''placement pluginConstraint name '' @ quote E (pc_name c) @ '' must not have leading or trailing whitespace'']
      else case pc_parameters c of
          None \<Rightarrow> []
        | Some raw \<Rightarrow>
            if length raw = 0 then []
            else (case json_object E raw of
                Inl err \<Rightarrow> [''pluginConstraint '' @ quote E (pc_name c) @ '' parameters must be a valid JSON object: '' @ err]
              | Inr non_nil \<Rightarrow>
                  if \<not> non_nil then
                    [''pluginConstraint '' @ quote E (pc_name c) @ '' parameters must be a valid JSON object, got null'']
                  else if pc_name c = PluginNameGKESpotPlacement then validateGKESpotGuardrailParameters E raw
                  else []))"

definition ValidatePluginConstraints :: "env \<Rightarrow> plugin_constraint list option \<Rightarrow> string list" where
  "ValidatePluginConstraints E pc =
     (case pc of None \<Rightarrow> [] | Some placement \<Rightarrow> concat (map (validatePlacementPluginConstraint E) placement))"

text \<open>
  The parameters of the \<open>gke-spot-placement\<close> entries of a list of placement constraints, the
  filter four functions of the program start with: the entry has the plugin's name and
  non-empty parameters. Each element is the result of decoding.
\<close>

definition spot_entries :: "env \<Rightarrow> plugin_constraint list \<Rightarrow> (string + spot_params) list" where
  "spot_entries E placement =
     map (\<lambda>c. ParseGKESpotGuardrailParameters E (case pc_parameters c of Some raw \<Rightarrow> raw | None \<Rightarrow> ''''))
       (filter (\<lambda>c. \<not> (pc_name c \<noteq> PluginNameGKESpotPlacement \<or> pc_parameters c = None \<or> pc_parameters c = Some ''''))
         placement)"

end
