(* ===== verification/Pod_Placement.thy ===== *)
theory Pod_Placement
  imports Best_Match Gke_Guardrail
begin

text \<open>
  The Pod placement webhook: \<open>pod_placement.go\<close> (counting a workload's Pods, the mutations of
  a Pod), \<open>fallback_budget.go\<close> (the guardrails' budget of fallback Pods) and \<open>pod_webhook.go\<close>
  (the admission handler) of \<open>internal/webhook/v1\<close>. The handler returns the Pod it admits.
\<close>

subsection \<open>Mutating a Pod\<close>

abbreviation MachineFamilyLabelKey :: string where
  "MachineFamilyLabelKey \<equiv> ''cloud.google.com/machine-family''"
abbreviation ComputeClassLabelKey :: string where
  "ComputeClassLabelKey \<equiv> ''cloud.google.com/compute-class''"
abbreviation NodeSelectorOpIn :: string where
  "NodeSelectorOpIn \<equiv> ''In''"
abbreviation NodeSelectorOpDoesNotExist :: string where
  "NodeSelectorOpDoesNotExist \<equiv> ''DoesNotExist''"

definition spotIn :: node_requirement where
  "spotIn = \<lparr>nr_key = SpotLabelKey, nr_operator = NodeSelectorOpIn, nr_values = [SpotLabelValue]\<rparr>"

definition spotDoesNotExist :: node_requirement where
  "spotDoesNotExist = \<lparr>nr_key = SpotLabelKey, nr_operator = NodeSelectorOpDoesNotExist, nr_values = []\<rparr>"

definition term_of_exprs :: "node_requirement list \<Rightarrow> node_term" where
  "term_of_exprs rs = \<lparr>nt_exprs = rs, nt_fields = []\<rparr>"

definition setNodeSelector :: "string \<Rightarrow> string \<Rightarrow> pod \<Rightarrow> pod" where
  "setNodeSelector key value p = p\<lparr>pod_node_selector := (pod_node_selector p)(key \<mapsto> value)\<rparr>"

definition spot_toleration :: toleration where
  "spot_toleration = \<lparr>tol_key = SpotLabelKey, tol_operator = ''Equal'', tol_value = SpotLabelValue,
     tol_effect = ''NoSchedule''\<rparr>"

definition ensureSpotToleration :: "pod \<Rightarrow> pod" where
  "ensureSpotToleration p =
     (if list_ex IsSpotToleration (pod_tolerations p) then p
      else p\<lparr>pod_tolerations := pod_tolerations p @ [spot_toleration]\<rparr>)"

definition removeSpotToleration :: "pod \<Rightarrow> pod" where
  "removeSpotToleration p =
     (if length (pod_tolerations p) = 0 then p
      else p\<lparr>pod_tolerations := filter (\<lambda>t. \<not> IsSpotToleration t) (pod_tolerations p)\<rparr>)"

definition empty_node_affinity :: node_affinity where
  "empty_node_affinity = \<lparr>na_required = None, na_preferred = []\<rparr>"

text \<open>\<open>ensureNodeAffinity\<close>: the node affinity a Pod has, or the empty one it is given.\<close>

definition ensureNodeAffinity :: "pod \<Rightarrow> node_affinity" where
  "ensureNodeAffinity p =
     (case pod_affinity p of None \<Rightarrow> empty_node_affinity
      | Some a \<Rightarrow> (case aff_node a of None \<Rightarrow> empty_node_affinity | Some na \<Rightarrow> na))"

definition set_node_affinity :: "node_affinity \<Rightarrow> pod \<Rightarrow> pod" where
  "set_node_affinity na p =
     p\<lparr>pod_affinity := Some (case pod_affinity p of None \<Rightarrow> \<lparr>aff_node = Some na\<rparr>
         | Some a \<Rightarrow> a\<lparr>aff_node := Some na\<rparr>)\<rparr>"

definition concatRequirements :: "node_requirement list \<Rightarrow> node_requirement list \<Rightarrow> node_requirement list" where
  "concatRequirements a b = (if length a + length b = 0 then [] else a @ b)"

definition merge_terms :: "node_term \<Rightarrow> node_term \<Rightarrow> node_term" where
  "merge_terms e t = \<lparr>nt_exprs = concatRequirements (nt_exprs e) (nt_exprs t),
     nt_fields = concatRequirements (nt_fields e) (nt_fields t)\<rparr>"

definition combine_terms :: "node_term list option \<Rightarrow> node_term list \<Rightarrow> node_term list" where
  "combine_terms required terms =
     (case required of
        None \<Rightarrow> terms
      | Some existing \<Rightarrow>
          if length existing = 0 then terms
          else concat (map (\<lambda>e. map (merge_terms e) terms) existing))"

definition requireNodeSelectorTerms :: "node_term list \<Rightarrow> pod \<Rightarrow> pod" where
  "requireNodeSelectorTerms terms p =
     (let na = ensureNodeAffinity p
      in set_node_affinity (na\<lparr>na_required := Some (combine_terms (na_required na) terms)\<rparr>) p)"

definition addPreferredSchedulingTerm :: "preferred_term \<Rightarrow> pod \<Rightarrow> pod" where
  "addPreferredSchedulingTerm t p =
     (let na = ensureNodeAffinity p
      in set_node_affinity (na\<lparr>na_preferred := na_preferred na @ [t]\<rparr>) p)"

definition mutateForOnDemand :: "pod \<Rightarrow> pod" where
  "mutateForOnDemand p =
     requireNodeSelectorTerms [term_of_exprs [spotDoesNotExist]]
       (removeSpotToleration (p\<lparr>pod_node_selector := (pod_node_selector p)(SpotLabelKey := None)\<rparr>))"

definition family_terms :: "string list \<Rightarrow> node_term list" where
  "family_terms families =
     [term_of_exprs [spotIn],
      term_of_exprs [spotDoesNotExist,
        \<lparr>nr_key = MachineFamilyLabelKey, nr_operator = NodeSelectorOpIn, nr_values = families\<rparr>]]"

definition mutateForSpot :: "string \<Rightarrow> spot_policy option \<Rightarrow> pod \<Rightarrow> pod" where
  "mutateForSpot fallback_action policy p =
     (let ccc = (case policy of None \<Rightarrow> '''' | Some sp \<Rightarrow> ps_compute_class (sp_spec sp));
          families = (case policy of None \<Rightarrow> [] | Some sp \<Rightarrow> ps_families (sp_spec sp));
          p1 = ensureSpotToleration p;
          p2 = (if ccc \<noteq> '''' \<and> pod_node_selector p1 ComputeClassLabelKey = None
                then setNodeSelector ComputeClassLabelKey ccc p1 else p1)
      in if fallback_action = FallbackActionFail then setNodeSelector SpotLabelKey SpotLabelValue p2
         else let p3 = addPreferredSchedulingTerm \<lparr>pt_weight = 100, pt_preference = term_of_exprs [spotIn]\<rparr> p2
              in if length families > 0 then requireNodeSelectorTerms (family_terms families) p3 else p3)"

subsection \<open>Counting the workload's Pods\<close>

record pod_counts =
  ct_total :: int
  ct_spot :: int
  ct_fallback :: int

definition no_counts :: pod_counts where
  "no_counts = \<lparr>ct_total = 0, ct_spot = 0, ct_fallback = 0\<rparr>"

definition isNodeSpot :: "'s client \<Rightarrow> 's \<Rightarrow> string \<Rightarrow> bool \<times> bool" where
  "isNodeSpot C s nm =
     (if nm = '''' then (False, False)
      else case get_node C s nm of Inl err \<Rightarrow> (False, False) | Inr n \<Rightarrow> (IsSpotNode (Some n), True))"

text \<open>The loop over the listed Pods that keeps those the WorkloadClass is the best match of.\<close>

fun keep_best_match ::
  "env \<Rightarrow> 's client \<Rightarrow> 's \<Rightarrow> pod \<Rightarrow> workload_class \<Rightarrow> bool \<Rightarrow> pod list \<Rightarrow> api_error + pod list" where
  "keep_best_match E C s incoming wc check [] = Inr []"
| "keep_best_match E C s incoming wc check (x # xs) =
     (if \<not> IsPodActive (Some x) then keep_best_match E C s incoming wc check xs
      else if pod_name incoming \<noteq> '''' \<and> pod_name x = pod_name incoming
        then keep_best_match E C s incoming wc check xs
      else if check then
        (case FindBestMatchWorkloadClass E C s False (Some x) of
           Inl err \<Rightarrow> Inl (wrap_error (''failed to find best match WorkloadClass for Pod '' @ pod_name x @ '': '') err)
         | Inr (best, ev) \<Rightarrow>
             (case best of
                None \<Rightarrow> keep_best_match E C s incoming wc check xs
              | Some b \<Rightarrow>
                  if wc_name b \<noteq> wc_name wc then keep_best_match E C s incoming wc check xs
                  else bind_result (keep_best_match E C s incoming wc check xs) (\<lambda>rest. Inr (x # rest))))
      else bind_result (keep_best_match E C s incoming wc check xs) (\<lambda>rest. Inr (x # rest)))"

definition listWorkloadClassPods ::
  "env \<Rightarrow> 's client \<Rightarrow> 's \<Rightarrow> pod \<Rightarrow> workload_class \<Rightarrow> api_error + pod list" where
  "listWorkloadClassPods E C s incoming wc =
     bind_result (WorkloadClassPodSelector E C s wc) (\<lambda>selector.
     bind_result (list_pods C s (pod_namespace incoming) selector) (\<lambda>items.
     bind_result (list_wcs C s (pod_namespace incoming)) (\<lambda>wcs.
       keep_best_match E C s incoming wc (length wcs > 1) items)))"

text \<open>The node lookups are cached by name: \<open>lookup_node\<close> returns the cached or fetched answer
  and the new cache.\<close>

type_synonym node_cache = "string \<rightharpoonup> bool \<times> bool"

definition lookup_node :: "'s client \<Rightarrow> 's \<Rightarrow> string \<Rightarrow> node_cache \<Rightarrow> (bool \<times> bool) \<times> node_cache" where
  "lookup_node C s nm cache =
     (case cache nm of
        Some n \<Rightarrow> (n, cache)
      | None \<Rightarrow> let n = isNodeSpot C s nm in (n, cache(nm \<mapsto> n)))"

definition count_step :: "'s client \<Rightarrow> 's \<Rightarrow> pod \<Rightarrow> node_cache \<times> pod_counts \<Rightarrow> node_cache \<times> pod_counts" where
  "count_step C s existing st =
     (let cache = fst st;
          counts = (snd st)\<lparr>ct_total := ct_total (snd st) + 1\<rparr>;
          targeted = IsPodTargetedForSpot (Some existing)
      in if pod_node existing = '''' then
           (cache, if targeted then counts\<lparr>ct_spot := ct_spot counts + 1\<rparr> else counts)
         else let ((is_spot, known), cache') = lookup_node C s (pod_node existing) cache
              in (cache',
                  if known \<and> is_spot then counts\<lparr>ct_spot := ct_spot counts + 1\<rparr>
                  else if known \<and> \<not> is_spot then
                    (if targeted then counts\<lparr>ct_fallback := ct_fallback counts + 1\<rparr> else counts)
                  else if targeted then counts\<lparr>ct_spot := ct_spot counts + 1\<rparr>
                  else counts))"

definition countWorkloadClassPods ::
  "env \<Rightarrow> 's client \<Rightarrow> 's \<Rightarrow> pod \<Rightarrow> workload_class \<Rightarrow> api_error + pod_counts" where
  "countWorkloadClassPods E C s incoming wc =
     bind_result (listWorkloadClassPods E C s incoming wc) (\<lambda>pods.
       Inr (snd (fold (count_step C s) pods (Map.empty, no_counts))))"

definition isWorkloadInFallback :: "env \<Rightarrow> 's client \<Rightarrow> 's \<Rightarrow> pod \<Rightarrow> workload_class \<Rightarrow> bool" where
  "isWorkloadInFallback E C s incoming wc =
     (if is_status_condition_true E (wc_conditions wc) ConditionTypeInFallback then True
      else case countWorkloadClassPods E C s incoming wc of
          Inl err \<Rightarrow> False | Inr counts \<Rightarrow> ct_fallback counts > 0)"

definition countExistingWorkloadClassPods :: "env \<Rightarrow> 's client \<Rightarrow> 's \<Rightarrow> pod \<Rightarrow> workload_class \<Rightarrow> int \<times> int" where
  "countExistingWorkloadClassPods E C s incoming wc =
     (case countWorkloadClassPods E C s incoming wc of
        Inl err \<Rightarrow> (0, 0) | Inr counts \<Rightarrow> (ct_spot counts, ct_total counts))"

subsection \<open>The fallback budget\<close>

record fallback_budget =
  fb_guardrail :: string
  fb_ratio :: int_or_string

definition entry_budget :: "string \<Rightarrow> string + spot_params \<Rightarrow> fallback_budget list" where
  "entry_budget g_name entry =
     (case entry of
        Inl err \<Rightarrow> []
      | Inr params \<Rightarrow>
          (case sg_fallback params of
             None \<Rightarrow> []
           | Some f \<Rightarrow> (case fc_max_ratio f of None \<Rightarrow> [] | Some r \<Rightarrow> [\<lparr>fb_guardrail = g_name, fb_ratio = r\<rparr>])))"

definition guardrail_budgets :: "env \<Rightarrow> guardrail \<Rightarrow> fallback_budget list" where
  "guardrail_budgets E g =
     (case gs_plugin (gr_spec g) of
        None \<Rightarrow> [] | Some placement \<Rightarrow> concat (map (entry_budget (gr_name g)) (spot_entries E placement)))"

definition fallbackBudgets :: "env \<Rightarrow> 's client \<Rightarrow> 's \<Rightarrow> api_error + fallback_budget list" where
  "fallbackBudgets E C s =
     (case list_guardrails C s of
        Inl err \<Rightarrow> Inl (wrap_error ''failed to list WorkloadClassGuardrails: '' err)
      | Inr items \<Rightarrow> Inr (concat (map (guardrail_budgets E) items)))"

definition fallbackWithinBudget :: "env \<Rightarrow> int \<Rightarrow> int \<Rightarrow> int_or_string \<Rightarrow> string + bool" where
  "fallbackWithinBudget E fallback_pods total_pods ratio =
     (case ratio of
        StrVal v \<Rightarrow>
          (case ParsePercentage E v of
             Inl err \<Rightarrow> Inl (''invalid maxFallbackRatio '' @ quote E v @ '': '' @ err)
           | Inr pct \<Rightarrow> Inr (i64 (fallback_pods * 100) \<le> i64 (total_pods * pct)))
      | IntVal i \<Rightarrow>
          if i < 0 then Inl (''invalid maxFallbackRatio '' @ show_int i @ '': must be non-negative'')
          else Inr (fallback_pods \<le> i))"

text \<open>The loop over the budgets: an unparsable one is skipped, the first exceeded one decides.\<close>

fun some_budget_exceeded :: "env \<Rightarrow> pod_counts \<Rightarrow> fallback_budget list \<Rightarrow> bool" where
  "some_budget_exceeded E counts [] = False"
| "some_budget_exceeded E counts (b # bs) =
     (case fallbackWithinBudget E (ct_fallback counts + 1) (ct_total counts + 1) (fb_ratio b) of
        Inl err \<Rightarrow> some_budget_exceeded E counts bs
      | Inr within \<Rightarrow> if \<not> within then True else some_budget_exceeded E counts bs)"

definition fallbackBudgetExhausted ::
  "env \<Rightarrow> 's client \<Rightarrow> 's \<Rightarrow> workload_class \<Rightarrow> api_error + pod_counts \<Rightarrow> bool" where
  "fallbackBudgetExhausted E C s wc get_counts =
     (case fallbackBudgets E C s of
        Inl err \<Rightarrow> False
      | Inr budgets \<Rightarrow>
          if length budgets = 0 then False
          else (case get_counts of
              Inl err \<Rightarrow> False
            | Inr counts \<Rightarrow>
                let in_fallback = (ct_fallback counts > 0 \<or>
                      is_status_condition_true E (wc_conditions wc) ConditionTypeInFallback)
                in if \<not> in_fallback then False else some_budget_exceeded E counts budgets))"

subsection \<open>The placement decision\<close>

definition policy_reversion :: "spot_policy option \<Rightarrow> string" where
  "policy_reversion policy =
     (case policy of None \<Rightarrow> LazyReversionAction
      | Some sp \<Rightarrow> if rp_action (ps_reversion (sp_spec sp)) = '''' then NoneReversionAction
                   else rp_action (ps_reversion (sp_spec sp)))"

datatype placement = OnDemand | Spot string

text \<open>
  \<open>placement_decision\<close> is what \<open>mutatePodPlacement\<close> decides before it calls one of the two
  mutations. \<open>get_counts\<close> is the closure's (cached) result; on an error the ratio rule uses
  the zero counts.
\<close>

definition placement_decision ::
  "env \<Rightarrow> 's client \<Rightarrow> 's \<Rightarrow> pod \<Rightarrow> workload_class \<Rightarrow> capacity_strategy \<Rightarrow> spot_policy option \<Rightarrow> string + placement" where
  "placement_decision E C s p wlc cs policy =
     (let cs_ty = (if cs_type cs = '''' then SpotPlacementTypeSpot else cs_type cs)
      in if cs_ty = SpotPlacementTypeOnDemand then Inr OnDemand
         else bind_result (SpotRatioPercent E (cs_spot_ratio cs)) (\<lambda>spot_ratio.
           if spot_ratio = 0 then Inr OnDemand
           else let action = (if cs_fallback cs = '''' then FallbackActionFail else cs_fallback cs);
                    get_counts = countWorkloadClassPods E C s p wlc;
                    in_fallback = (is_status_condition_true E (wc_conditions wlc) ConditionTypeInFallback \<or>
                      (case get_counts of Inl err \<Rightarrow> False | Inr c \<Rightarrow> ct_fallback c > 0));
                    c = (case get_counts of Inl err \<Rightarrow> no_counts | Inr c \<Rightarrow> c)
                in if policy_reversion policy = NoneReversionAction \<and> action = FallbackActionFallbackToOnDemand
                      \<and> in_fallback then Inr OnDemand
                   else if spot_ratio < 100 \<and> \<not> ShouldUseSpot (ct_spot c) (ct_total c) spot_ratio then Inr OnDemand
                   else if action = FallbackActionFallbackToOnDemand \<and> fallbackBudgetExhausted E C s wlc get_counts
                     then Inr (Spot FallbackActionFail)
                   else Inr (Spot action)))"

definition apply_placement :: "spot_policy option \<Rightarrow> placement \<Rightarrow> pod \<Rightarrow> pod" where
  "apply_placement policy d p =
     (case d of OnDemand \<Rightarrow> mutateForOnDemand p | Spot action \<Rightarrow> mutateForSpot action policy p)"

definition mutatePodPlacement ::
  "env \<Rightarrow> 's client \<Rightarrow> 's \<Rightarrow> pod \<Rightarrow> workload_class \<Rightarrow> capacity_strategy \<Rightarrow> spot_policy option \<Rightarrow> string + pod" where
  "mutatePodPlacement E C s p wlc cs policy =
     bind_result (placement_decision E C s p wlc cs policy) (\<lambda>d. Inr (apply_placement policy d p))"

subsection \<open>The handler\<close>

text \<open>One iteration of the loop over the required conditions: whether it lets the Pod pass.\<close>

definition condition_ready :: "env \<Rightarrow> workload_class \<Rightarrow> string \<Rightarrow> bool" where
  "condition_ready E wlc c_ty =
     (case find_status_condition E (wc_conditions wlc) c_ty of
        None \<Rightarrow> False
      | Some c \<Rightarrow>
          if (c_ty = ConditionTypeValidated \<and> \<not> IsValidated (Some c)) \<or>
             (c_ty \<noteq> ConditionTypeValidated \<and> c_status c \<noteq> ConditionTrue) then False
          else if wc_generation wlc > 0 \<and> c_observed c \<noteq> wc_generation wlc then False
          else True)"

definition required_conditions :: "bool \<Rightarrow> string list" where
  "required_conditions uses_policy =
     ConditionTypeValidated # (if uses_policy then [ConditionTypePlacementPluginAttached] else [])"

definition fetchSpotPlacementPolicy :: "'s client \<Rightarrow> 's \<Rightarrow> infra_ref \<Rightarrow> api_error + spot_policy" where
  "fetchSpotPlacementPolicy C s ipr = get_policy C s (ir_name ipr)"

definition Default :: "env \<Rightarrow> 's client \<Rightarrow> 's \<Rightarrow> pod \<Rightarrow> pod" where
  "Default E C s p =
     (case FindBestMatchWorkloadClass E C s True (Some p) of
        Inl err \<Rightarrow> p
      | Inr (None, ev) \<Rightarrow> p
      | Inr (Some wlc, ev) \<Rightarrow>
          (case wc_capacity wlc of
             None \<Rightarrow> p
           | Some cs \<Rightarrow>
               let ipr = wc_infra wlc;
                   uses_policy = ReferencesGKESpotPlacementPolicy ipr
               in if ipr \<noteq> None \<and> \<not> uses_policy then p
                  else if \<not> list_all (condition_ready E wlc) (required_conditions uses_policy) then p
                  else (case (if uses_policy then
                           (case ipr of Some r \<Rightarrow> map_sum id Some (fetchSpotPlacementPolicy C s r) | None \<Rightarrow> Inr None)
                         else Inr None) of
                      Inl err \<Rightarrow> p
                    | Inr policy \<Rightarrow>
                        (case mutatePodPlacement E C s p wlc cs policy of Inl err \<Rightarrow> p | Inr p' \<Rightarrow> p'))))"

subsection \<open>Where a mutated Pod can be scheduled\<close>

text \<open>
  The scheduler's reading of a Pod's hard constraints on a node. The meaning of a single
  requirement is a parameter \<open>sem\<close> (the scheduler knows more operators than the webhook uses); of
  it \<open>sem_laws\<close> asks the documented meaning of \<open>In\<close> and \<open>DoesNotExist\<close> on node labels. A term
  without requirements matches no node, and a list of terms matches if one of them does.
\<close>

type_synonym node_sem = "node_requirement \<Rightarrow> node_obj \<Rightarrow> bool"

definition sem_laws :: "node_sem \<Rightarrow> bool" where
  "sem_laws sem =
     (\<forall>r n. nr_operator r \<in> {NodeSelectorOpIn, NodeSelectorOpDoesNotExist} \<longrightarrow>
        sem r n = req_holds (nr_operator r) (nr_values r) (node_labels n (nr_key r)))"

definition term_matches :: "node_sem \<Rightarrow> node_sem \<Rightarrow> node_obj \<Rightarrow> node_term \<Rightarrow> bool" where
  "term_matches sem fsem n t =
     ((nt_exprs t \<noteq> [] \<or> nt_fields t \<noteq> []) \<and> (\<forall>r \<in> set (nt_exprs t). sem r n) \<and> (\<forall>r \<in> set (nt_fields t). fsem r n))"

definition required_terms :: "pod \<Rightarrow> node_term list option" where
  "required_terms p = na_required (ensureNodeAffinity p)"

definition schedulable :: "node_sem \<Rightarrow> node_sem \<Rightarrow> pod \<Rightarrow> node_obj \<Rightarrow> bool" where
  "schedulable sem fsem p n =
     ((\<forall>k v. pod_node_selector p k = Some v \<longrightarrow> node_labels n k = Some v) \<and>
      (case required_terms p of None \<Rightarrow> True | Some ts \<Rightarrow> \<exists>t \<in> set ts. term_matches sem fsem n t))"

text \<open>A required affinity that could match: some term, and no term without requirements. The API server
  also admits terms without requirements, which match no node; the webhook's merge turns them into
  terms that match (\<open>empty_term_widens\<close> below), so what it promises is stated for proper Pods.\<close>

definition proper_terms :: "node_term list \<Rightarrow> bool" where
  "proper_terms ts = (ts \<noteq> [] \<and> (\<forall>t \<in> set ts. nt_exprs t \<noteq> [] \<or> nt_fields t \<noteq> []))"

definition proper_pod :: "pod \<Rightarrow> bool" where
  "proper_pod p = (case required_terms p of None \<Rightarrow> True | Some ts \<Rightarrow> proper_terms ts)"

definition without_selector :: "string \<Rightarrow> pod \<Rightarrow> pod" where
  "without_selector key p = p\<lparr>pod_node_selector := (pod_node_selector p)(key := None)\<rparr>"

lemma concatRequirements_append [simp]: "concatRequirements a b = a @ b"
  by (simp add: concatRequirements_def)

lemma merge_terms_matches:
  "nt_exprs e \<noteq> [] \<or> nt_fields e \<noteq> [] \<Longrightarrow> nt_exprs t \<noteq> [] \<or> nt_fields t \<noteq> [] \<Longrightarrow>
   term_matches sem fsem n (merge_terms e t) \<longleftrightarrow> term_matches sem fsem n e \<and> term_matches sem fsem n t"
  by (auto simp: term_matches_def merge_terms_def)

lemma ensureNodeAffinity_set [simp]: "ensureNodeAffinity (set_node_affinity na p) = na"
  by (simp add: ensureNodeAffinity_def set_node_affinity_def split: option.split)

lemma set_node_affinity_fields [simp]:
  "pod_node_selector (set_node_affinity na p) = pod_node_selector p"
  "pod_tolerations (set_node_affinity na p) = pod_tolerations p"
  "pod_name (set_node_affinity na p) = pod_name p" "pod_namespace (set_node_affinity na p) = pod_namespace p"
  "pod_uid (set_node_affinity na p) = pod_uid p" "pod_labels (set_node_affinity na p) = pod_labels p"
  by (simp_all add: set_node_affinity_def)

text \<open>Requiring terms restricts the Pod to the nodes that match one of them, on top of its own terms.\<close>

lemma requireNodeSelectorTerms_schedulable:
  assumes "proper_pod p" "proper_terms ts"
  shows "schedulable sem fsem (requireNodeSelectorTerms ts p) n \<longleftrightarrow>
    schedulable sem fsem p n \<and> (\<exists>t \<in> set ts. term_matches sem fsem n t)"
proof (cases "required_terms p")
  case None
  then show ?thesis
    by (auto simp: schedulable_def required_terms_def requireNodeSelectorTerms_def Let_def combine_terms_def)
next
  case (Some es)
  then have es: "proper_terms es" using assms(1) by (simp add: proper_pod_def)
  have "(\<exists>t \<in> set (combine_terms (Some es) ts). term_matches sem fsem n t) \<longleftrightarrow>
      (\<exists>e \<in> set es. \<exists>t \<in> set ts. term_matches sem fsem n (merge_terms e t))"
    using es by (auto simp: combine_terms_def proper_terms_def)
  also have "\<dots> \<longleftrightarrow> (\<exists>e \<in> set es. term_matches sem fsem n e) \<and> (\<exists>t \<in> set ts. term_matches sem fsem n t)"
    using es assms(2) merge_terms_matches unfolding proper_terms_def by metis
  finally show ?thesis
    using Some by (simp add: schedulable_def required_terms_def requireNodeSelectorTerms_def Let_def)
qed

lemma setNodeSelector_schedulable:
  "schedulable sem fsem (setNodeSelector key v p) n \<longleftrightarrow>
     schedulable sem fsem (without_selector key p) n \<and> node_labels n key = Some v"
  by (auto simp: schedulable_def setNodeSelector_def without_selector_def required_terms_def ensureNodeAffinity_def
      split: if_splits)

lemma spot_terms_match:
  assumes "sem_laws sem"
  shows "term_matches sem fsem n (term_of_exprs [spotDoesNotExist]) \<longleftrightarrow> node_labels n SpotLabelKey = None"
    "term_matches sem fsem n (term_of_exprs [spotIn]) \<longleftrightarrow> node_labels n SpotLabelKey = Some SpotLabelValue"
    "(\<exists>t \<in> set (family_terms families). term_matches sem fsem n t) \<longleftrightarrow>
       node_labels n SpotLabelKey = Some SpotLabelValue \<or>
       node_labels n SpotLabelKey = None \<and> (\<exists>f \<in> set families. node_labels n MachineFamilyLabelKey = Some f)"
  using assms by (auto simp: sem_laws_def term_matches_def term_of_exprs_def spotDoesNotExist_def spotIn_def
      family_terms_def req_holds_def split: option.splits)

lemma toleration_fields [simp]:
  "pod_node_selector (removeSpotToleration p) = pod_node_selector p" "pod_affinity (removeSpotToleration p) = pod_affinity p"
  "pod_node_selector (ensureSpotToleration p) = pod_node_selector p" "pod_affinity (ensureSpotToleration p) = pod_affinity p"
  by (simp_all add: removeSpotToleration_def ensureSpotToleration_def)

lemma schedulable_cong:
  "pod_node_selector p = pod_node_selector q \<Longrightarrow> required_terms p = required_terms q \<Longrightarrow>
   schedulable sem fsem p n = schedulable sem fsem q n"
  by (simp add: schedulable_def)

lemma required_terms_cong: "pod_affinity p = pod_affinity q \<Longrightarrow> required_terms p = required_terms q"
  by (simp add: required_terms_def ensureNodeAffinity_def)

lemma required_terms_simps [simp]:
  "required_terms (without_selector key p) = required_terms p"
  "required_terms (setNodeSelector key v p) = required_terms p"
  "required_terms (removeSpotToleration p) = required_terms p"
  "required_terms (ensureSpotToleration p) = required_terms p"
  "required_terms (addPreferredSchedulingTerm t p) = required_terms p"
  by (auto intro: required_terms_cong simp: without_selector_def setNodeSelector_def)
     (simp add: required_terms_def addPreferredSchedulingTerm_def Let_def)

lemma addPreferred_selector [simp]: "pod_node_selector (addPreferredSchedulingTerm t p) = pod_node_selector p"
  by (simp add: addPreferredSchedulingTerm_def Let_def)

lemma proper_family_terms: "proper_terms (family_terms families)" "proper_terms [term_of_exprs [spotDoesNotExist]]"
  by (simp_all add: proper_terms_def family_terms_def term_of_exprs_def)

text \<open>C21: A Pod placed on demand can only run off Spot: if its required node affinity, where it has one,
  is proper (no term without requirements), the nodes it can be scheduled on are exactly those without
  the Spot label that satisfied its other hard constraints before, and it neither selects nor
  tolerates Spot any more.\<close>

theorem mutateForOnDemand_schedules:
  assumes "sem_laws sem" "proper_pod p"
  shows "(schedulable sem fsem (mutateForOnDemand p) n \<longleftrightarrow>
      schedulable sem fsem (without_selector SpotLabelKey p) n \<and> node_labels n SpotLabelKey = None) \<and>
    \<not> IsPodTargetedForSpot (Some (mutateForOnDemand p))"
proof
  let ?q = "removeSpotToleration (without_selector SpotLabelKey p)"
  have mutate: "mutateForOnDemand p = requireNodeSelectorTerms [term_of_exprs [spotDoesNotExist]] ?q"
    by (simp add: mutateForOnDemand_def without_selector_def)
  have "proper_pod ?q" using assms(2) by (simp add: proper_pod_def)
  then show "schedulable sem fsem (mutateForOnDemand p) n \<longleftrightarrow>
      schedulable sem fsem (without_selector SpotLabelKey p) n \<and> node_labels n SpotLabelKey = None"
    using spot_terms_match(1) [OF assms(1)] proper_family_terms(2)
      schedulable_cong [of ?q "without_selector SpotLabelKey p" sem fsem n]
    unfolding mutate by (simp add: requireNodeSelectorTerms_schedulable)
  show "\<not> IsPodTargetedForSpot (Some (mutateForOnDemand p))"
    unfolding mutate by (simp add: IsPodTargetedForSpot_def requireNodeSelectorTerms_def Let_def map_get_def
        without_selector_def removeSpotToleration_def list_ex_iff)
qed

definition node_sem :: "node_requirement \<Rightarrow> node_obj \<Rightarrow> bool" where
  "node_sem r n = req_holds (nr_operator r) (nr_values r) (node_labels n (nr_key r))"

lemma sem_laws_node: "sem_laws node_sem"
  by (simp add: sem_laws_def node_sem_def)

definition sample_node :: node_obj where
  "sample_node = \<lparr>node_name = ''n1'', node_labels = Map.empty, node_unschedulable = False,
     node_conditions = [(''Ready'', ''True'')]\<rparr>"

definition spot_node :: node_obj where
  "spot_node = sample_node\<lparr>node_name := ''n2'', node_labels := [SpotLabelKey \<mapsto> SpotLabelValue]\<rparr>"

lemma sample_proper: "proper_pod sample_pod" "schedulable sem fsem sample_pod n"
  by (simp_all add: proper_pod_def required_terms_def ensureNodeAffinity_def empty_node_affinity_def sample_pod_def
      schedulable_def)

lemma sample_without [simp]: "without_selector key sample_pod = sample_pod"
  by (simp add: without_selector_def sample_pod_def)

lemma mutateForOnDemand_schedules_witness:
  "schedulable node_sem node_sem (mutateForOnDemand sample_pod) sample_node \<and>
   \<not> schedulable node_sem node_sem (mutateForOnDemand sample_pod) spot_node"
  using mutateForOnDemand_schedules [OF sem_laws_node sample_proper(1), of node_sem sample_node]
    mutateForOnDemand_schedules [OF sem_laws_node sample_proper(1), of node_sem spot_node]
  by (simp add: sample_proper sample_node_def spot_node_def)

text \<open>The compute class of the policy is required of a Pod that does not choose one itself.\<close>

definition compute_class_ok :: "spot_policy option \<Rightarrow> pod \<Rightarrow> node_obj \<Rightarrow> bool" where
  "compute_class_ok policy p n =
     (case policy of None \<Rightarrow> True
      | Some sp \<Rightarrow> ps_compute_class (sp_spec sp) \<noteq> '''' \<longrightarrow> pod_node_selector p ComputeClassLabelKey = None \<longrightarrow>
          node_labels n ComputeClassLabelKey = Some (ps_compute_class (sp_spec sp)))"

definition policy_families :: "spot_policy option \<Rightarrow> string list" where
  "policy_families policy = (case policy of None \<Rightarrow> [] | Some sp \<Rightarrow> ps_families (sp_spec sp))"

lemma targeted_toleration: "list_ex IsSpotToleration (pod_tolerations (ensureSpotToleration p))"
  by (auto simp: ensureSpotToleration_def IsSpotToleration_def spot_toleration_def)

lemma targetedI: "list_ex IsSpotToleration (pod_tolerations p) \<Longrightarrow> IsPodTargetedForSpot (Some p)"
  by (simp add: IsPodTargetedForSpot_def)

definition with_class :: "spot_policy option \<Rightarrow> pod \<Rightarrow> pod" where
  "with_class policy p =
     (let ccc = (case policy of None \<Rightarrow> '''' | Some sp \<Rightarrow> ps_compute_class (sp_spec sp))
      in if ccc \<noteq> '''' \<and> pod_node_selector p ComputeClassLabelKey = None then setNodeSelector ComputeClassLabelKey ccc p else p)"

lemma without_selector_absent: "pod_node_selector p key = None \<Longrightarrow> without_selector key p = p"
  by (simp add: without_selector_def fun_upd_idem)

lemma with_class_schedulable:
  "schedulable sem fsem (with_class policy p) n \<longleftrightarrow> schedulable sem fsem p n \<and> compute_class_ok policy p n"
  by (auto simp: with_class_def compute_class_ok_def setNodeSelector_schedulable without_selector_absent Let_def
      split: option.splits)

lemma with_class_without: "without_selector SpotLabelKey (with_class policy p) = with_class policy (without_selector SpotLabelKey p)"
  by (auto simp: with_class_def without_selector_def setNodeSelector_def Let_def fun_upd_twist)

lemma compute_class_ok_without [simp]:
  "compute_class_ok policy (without_selector SpotLabelKey p) n = compute_class_ok policy p n"
  by (simp add: compute_class_ok_def without_selector_def split: option.split)

lemma with_class_fields [simp]:
  "pod_tolerations (with_class policy p) = pod_tolerations p" "required_terms (with_class policy p) = required_terms p"
  by (simp_all add: with_class_def Let_def) (simp_all add: setNodeSelector_def)

lemma mutateForSpot_split:
  "mutateForSpot action policy p =
    (let p2 = with_class policy (ensureSpotToleration p);
         p3 = addPreferredSchedulingTerm \<lparr>pt_weight = 100, pt_preference = term_of_exprs [spotIn]\<rparr> p2
     in if action = FallbackActionFail then setNodeSelector SpotLabelKey SpotLabelValue p2
        else if policy_families policy = [] then p3
        else requireNodeSelectorTerms (family_terms (policy_families policy)) p3)"
  by (simp add: mutateForSpot_def with_class_def policy_families_def Let_def split: option.split)

lemma spot_base_schedulable:
  "schedulable sem fsem (with_class policy (ensureSpotToleration p)) n \<longleftrightarrow> schedulable sem fsem p n \<and> compute_class_ok policy p n"
  using schedulable_cong [of "ensureSpotToleration p" p sem fsem n]
  by (simp add: with_class_schedulable compute_class_ok_def split: option.split)

lemma spot_fail_schedulable:
  "schedulable sem fsem (mutateForSpot FallbackActionFail policy p) n \<longleftrightarrow>
    schedulable sem fsem (without_selector SpotLabelKey p) n \<and> compute_class_ok policy p n \<and>
    node_labels n SpotLabelKey = Some SpotLabelValue"
proof -
  have "without_selector SpotLabelKey (ensureSpotToleration p) = ensureSpotToleration (without_selector SpotLabelKey p)"
    by (simp add: without_selector_def ensureSpotToleration_def)
  then have "schedulable sem fsem (without_selector SpotLabelKey (with_class policy (ensureSpotToleration p))) n \<longleftrightarrow>
      schedulable sem fsem (without_selector SpotLabelKey p) n \<and> compute_class_ok policy p n"
    by (simp add: with_class_without spot_base_schedulable)
  then show ?thesis
    by (auto simp: mutateForSpot_split Let_def setNodeSelector_schedulable)
qed

lemma spot_fallback_schedulable:
  assumes "sem_laws sem" "proper_pod p" "action \<noteq> FallbackActionFail"
  shows "schedulable sem fsem (mutateForSpot action policy p) n \<longleftrightarrow>
    schedulable sem fsem p n \<and> compute_class_ok policy p n \<and>
    (policy_families policy = [] \<or> (\<exists>t \<in> set (family_terms (policy_families policy)). term_matches sem fsem n t))"
proof -
  let ?p2 = "with_class policy (ensureSpotToleration p)"
  let ?p3 = "addPreferredSchedulingTerm \<lparr>pt_weight = 100, pt_preference = term_of_exprs [spotIn]\<rparr> ?p2"
  have p3: "schedulable sem fsem ?p3 n \<longleftrightarrow> schedulable sem fsem p n \<and> compute_class_ok policy p n"
    using schedulable_cong [of ?p3 ?p2 sem fsem n] by (simp add: spot_base_schedulable)
  have "proper_pod ?p3" using assms(2) by (simp add: proper_pod_def)
  then show ?thesis
    using assms(3) p3 requireNodeSelectorTerms_schedulable [OF _ proper_family_terms(1), of ?p3 sem fsem _ n]
    by (auto simp: mutateForSpot_split Let_def)
qed

lemma mutateForSpot_tolerates: "list_ex IsSpotToleration (pod_tolerations (mutateForSpot action policy p))"
proof -
  have "pod_tolerations (mutateForSpot action policy p) = pod_tolerations (ensureSpotToleration p)"
    by (simp add: mutateForSpot_split Let_def setNodeSelector_def addPreferredSchedulingTerm_def requireNodeSelectorTerms_def)
  then show ?thesis using targeted_toleration by simp
qed

lemma mutateForSpot_targeted: "IsPodTargetedForSpot (Some (mutateForSpot action policy p))"
  by (rule targetedI [OF mutateForSpot_tolerates])

lemma mutateForSpot_keeps_class:
  "pod_node_selector p ComputeClassLabelKey = Some c \<Longrightarrow>
   pod_node_selector (mutateForSpot action policy p) ComputeClassLabelKey = Some c"
  by (simp add: mutateForSpot_def ensureSpotToleration_def setNodeSelector_def addPreferredSchedulingTerm_def
      requireNodeSelectorTerms_def Let_def)

text \<open>C22: A Pod placed for Spot tolerates Spot. If its required node affinity, where it has one, is
  proper (no term without requirements), then with the action \<open>Fail\<close> it can be scheduled exactly on
  the Spot nodes that satisfied its other hard constraints before; with fallback it may also run on
  other nodes, which the policy's machine families, if any, restrict to on-demand nodes of one of
  these families. In both cases a Pod that selects no compute class itself also requires the one of
  the policy, if it names one; a Pod that selects one keeps its own.\<close>

theorem mutateForSpot_schedules:
  assumes "sem_laws sem" "proper_pod p"
  shows "(schedulable sem fsem (mutateForSpot FallbackActionFail policy p) n \<longleftrightarrow>
      schedulable sem fsem (without_selector SpotLabelKey p) n \<and> compute_class_ok policy p n \<and>
      node_labels n SpotLabelKey = Some SpotLabelValue) \<and>
    (action \<noteq> FallbackActionFail \<longrightarrow>
      (schedulable sem fsem (mutateForSpot action policy p) n \<longleftrightarrow>
       schedulable sem fsem p n \<and> compute_class_ok policy p n \<and>
       (policy_families policy = [] \<or> node_labels n SpotLabelKey = Some SpotLabelValue \<or>
        node_labels n SpotLabelKey = None \<and>
          (\<exists>f \<in> set (policy_families policy). node_labels n MachineFamilyLabelKey = Some f)))) \<and>
    (\<exists>t \<in> set (pod_tolerations (mutateForSpot action policy p)). IsSpotToleration t) \<and>
    (\<forall>c. pod_node_selector p ComputeClassLabelKey = Some c \<longrightarrow>
       pod_node_selector (mutateForSpot action policy p) ComputeClassLabelKey = Some c)"
  using spot_fail_schedulable mutateForSpot_tolerates mutateForSpot_keeps_class
    spot_fallback_schedulable [OF assms] spot_terms_match(3) [OF assms(1)]
  by (simp add: list_ex_iff)

lemma mutateForSpot_schedules_witness:
  "schedulable node_sem node_sem (mutateForSpot FallbackActionFail None sample_pod) spot_node \<and>
   \<not> schedulable node_sem node_sem (mutateForSpot FallbackActionFail None sample_pod) sample_node \<and>
   schedulable node_sem node_sem (mutateForSpot FallbackActionFallbackToOnDemand None sample_pod) sample_node"
  using mutateForSpot_schedules [OF sem_laws_node sample_proper(1), of node_sem None spot_node FallbackActionFallbackToOnDemand]
    mutateForSpot_schedules [OF sem_laws_node sample_proper(1), of node_sem None sample_node FallbackActionFallbackToOnDemand]
  by (simp add: sample_proper compute_class_ok_def policy_families_def) (simp add: sample_node_def spot_node_def)

text \<open>With an improper affinity the merge widens the constraint: a term without requirements matches no
  node, but merged with the webhook's terms it matches every node off Spot.\<close>

lemma empty_term_widens:
  "let p = set_node_affinity \<lparr>na_required = Some [term_of_exprs []], na_preferred = []\<rparr> sample_pod
   in \<not> schedulable node_sem node_sem p sample_node \<and> schedulable node_sem node_sem (mutateForOnDemand p) sample_node"
proof -
  let ?p = "set_node_affinity \<lparr>na_required = Some [term_of_exprs []], na_preferred = []\<rparr> sample_pod"
  have "required_terms ?p = Some [term_of_exprs []]" by (simp add: required_terms_def)
  then have "\<not> schedulable node_sem node_sem ?p sample_node"
    by (simp add: schedulable_def term_matches_def term_of_exprs_def)
  moreover have "required_terms (mutateForOnDemand ?p) = Some [term_of_exprs [spotDoesNotExist]]"
    by (simp add: required_terms_def mutateForOnDemand_def requireNodeSelectorTerms_def Let_def combine_terms_def
        merge_terms_def term_of_exprs_def removeSpotToleration_def set_node_affinity_def ensureNodeAffinity_def
        sample_pod_def)
  moreover have "term_matches node_sem node_sem sample_node (term_of_exprs [spotDoesNotExist])"
    using spot_terms_match(1) [OF sem_laws_node] by (simp add: sample_node_def)
  moreover have "pod_node_selector (mutateForOnDemand ?p) = Map.empty"
    by (simp add: mutateForOnDemand_def requireNodeSelectorTerms_def Let_def sample_pod_def)
  ultimately show ?thesis by (simp add: schedulable_def Let_def)
qed

subsection \<open>Counting with a cache\<close>

definition uncached_spot :: "'s client \<Rightarrow> 's \<Rightarrow> pod \<Rightarrow> bool" where
  "uncached_spot C s p =
     (if pod_node p = '''' then IsPodTargetedForSpot (Some p)
      else let (is_spot, known) = isNodeSpot C s (pod_node p)
           in if known then is_spot else IsPodTargetedForSpot (Some p))"

definition uncached_fallback :: "'s client \<Rightarrow> 's \<Rightarrow> pod \<Rightarrow> bool" where
  "uncached_fallback C s p =
     (pod_node p \<noteq> '''' \<and> isNodeSpot C s (pod_node p) = (False, True) \<and> IsPodTargetedForSpot (Some p))"

definition cache_ok :: "'s client \<Rightarrow> 's \<Rightarrow> node_cache \<Rightarrow> bool" where
  "cache_ok C s cache = (\<forall>nm x. cache nm = Some x \<longrightarrow> x = isNodeSpot C s nm)"

lemma lookup_node_cached:
  assumes "cache_ok C s cache"
  shows "fst (lookup_node C s nm cache) = isNodeSpot C s nm" "cache_ok C s (snd (lookup_node C s nm cache))"
  using assms by (auto simp: lookup_node_def cache_ok_def Let_def split: option.split)

lemma count_step_uncached:
  assumes "cache_ok C s (fst st)"
  shows "cache_ok C s (fst (count_step C s p st))"
    "snd (count_step C s p st) =
      \<lparr>ct_total = ct_total (snd st) + 1,
       ct_spot = ct_spot (snd st) + (if uncached_spot C s p then 1 else 0),
       ct_fallback = ct_fallback (snd st) + (if uncached_fallback C s p then 1 else 0)\<rparr>"
  using assms lookup_node_cached [OF assms, of "pod_node p"]
  by (auto simp: count_step_def uncached_spot_def uncached_fallback_def Let_def split: prod.splits)

lemma count_fold_uncached:
  assumes "cache_ok C s (fst st)"
  shows "snd (fold (count_step C s) ps st) =
    \<lparr>ct_total = ct_total (snd st) + int (length ps),
     ct_spot = ct_spot (snd st) + int (length (filter (uncached_spot C s) ps)),
     ct_fallback = ct_fallback (snd st) + int (length (filter (uncached_fallback C s) ps))\<rparr>"
  using assms
proof (induction ps arbitrary: st)
  case (Cons p ps)
  then show ?case using count_step_uncached [OF Cons.prems, of p] by simp
qed simp

text \<open>The Pod counts are what the placement rules mean: all other active Pods the WorkloadClass
  governs; those on a Spot node, or targeted for Spot while their node is unset or unknown; and those
  targeted for Spot on a node known not to be Spot. The cache of node lookups does not change them.\<close>

theorem countWorkloadClassPods_counts:
  "countWorkloadClassPods E C s p wc =
    bind_result (listWorkloadClassPods E C s p wc) (\<lambda>ps.
      Inr \<lparr>ct_total = int (length ps), ct_spot = int (length (filter (uncached_spot C s) ps)),
           ct_fallback = int (length (filter (uncached_fallback C s) ps))\<rparr>)"
  by (simp add: countWorkloadClassPods_def count_fold_uncached cache_ok_def no_counts_def)

lemma counts_range:
  assumes "countWorkloadClassPods E C s p wc = Inr c"
  shows "0 \<le> ct_fallback c" "0 \<le> ct_spot c" "ct_spot c + ct_fallback c \<le> ct_total c"
proof -
  obtain ps where c: "c = \<lparr>ct_total = int (length ps), ct_spot = int (length (filter (uncached_spot C s) ps)),
      ct_fallback = int (length (filter (uncached_fallback C s) ps))\<rparr>"
    using assms by (auto simp: countWorkloadClassPods_def bind_result_Inr_iff count_fold_uncached cache_ok_def no_counts_def)
  have "\<not> (uncached_spot C s x \<and> uncached_fallback C s x)" for x
    by (auto simp: uncached_spot_def uncached_fallback_def)
  then have "length (filter (uncached_spot C s) ps) + length (filter (uncached_fallback C s) ps) \<le> length ps"
    by (induction ps) auto
  then show "0 \<le> ct_fallback c" "0 \<le> ct_spot c" "ct_spot c + ct_fallback c \<le> ct_total c"
    unfolding c by simp_all
qed

subsection \<open>The fallback budget holds\<close>

text \<open>What a budget allows, as a predicate on the counts after the admission.\<close>

definition budget_allows :: "env \<Rightarrow> int \<Rightarrow> int \<Rightarrow> int_or_string \<Rightarrow> bool" where
  "budget_allows E n_fallback n_all r =
     (case r of
        IntVal i \<Rightarrow> i < 0 \<or> n_fallback \<le> i
      | StrVal v \<Rightarrow> (case ParsePercentage E v of Inl err \<Rightarrow> True | Inr pct \<Rightarrow> n_fallback * 100 \<le> n_all * pct))"

lemma fallbackWithinBudget_allows:
  assumes "0 \<le> f" "f \<le> t" "t \<le> 2 ^ 50"
  shows "fallbackWithinBudget E f t r = Inr False \<longleftrightarrow> \<not> budget_allows E f t r"
proof (cases r)
  case (StrVal v)
  show ?thesis
  proof (cases "ParsePercentage E v")
    case (Inr pct)
    then have "i64 (t * pct) = t * pct"
      using ParsePercentage_range [OF Inr] assms by (intro ratio_product) auto
    moreover have "i64 (f * 100) = f * 100" using assms by (intro ratio_product) auto
    ultimately show ?thesis using StrVal Inr by (simp add: fallbackWithinBudget_def budget_allows_def)
  qed (simp add: StrVal fallbackWithinBudget_def budget_allows_def)
qed (auto simp: fallbackWithinBudget_def budget_allows_def)

lemma some_budget_exceeded_iff:
  "some_budget_exceeded E c bs \<longleftrightarrow>
     (\<exists>b \<in> set bs. fallbackWithinBudget E (ct_fallback c + 1) (ct_total c + 1) (fb_ratio b) = Inr False)"
proof (induction bs)
  case (Cons b bs)
  show ?case
  proof (cases "fallbackWithinBudget E (ct_fallback c + 1) (ct_total c + 1) (fb_ratio b)")
    case (Inr w)
    then show ?thesis using Cons by (cases w) auto
  qed (use Cons in auto)
qed simp

lemma fallbackBudgetExhausted_iff:
  assumes "fallbackBudgets E C s = Inr bs" "bs \<noteq> []"
    and "0 < ct_fallback c \<or> is_status_condition_true E (wc_conditions wc) ConditionTypeInFallback"
  shows "fallbackBudgetExhausted E C s wc (Inr c) = some_budget_exceeded E c bs"
  using assms by (simp add: fallbackBudgetExhausted_def Let_def)

text \<open>C13: No guardrail's fallback budget is exceeded by admission: while the workload is in fallback, a
  Pod is admitted with fallback only if one more fallback Pod respects every \<open>maxFallbackRatio\<close> of
  every guardrail that can be parsed (a share of the Pods including the new one, or a number).\<close>

theorem fallback_budget_respected:
  assumes "placement_decision E C s p wc cs policy = Inr (Spot FallbackActionFallbackToOnDemand)"
    and "countWorkloadClassPods E C s p wc = Inr c" "list_guardrails C s = Inr gs"
    and "0 < ct_fallback c \<or> is_status_condition_true E (wc_conditions wc) ConditionTypeInFallback"
    and "ct_total c < 2 ^ 50" "g \<in> set gs" "b \<in> set (guardrail_budgets E g)"
  shows "budget_allows E (ct_fallback c + 1) (ct_total c + 1) (fb_ratio b)"
proof -
  let ?bs = "concat (map (guardrail_budgets E) gs)"
  have "cs_type cs \<noteq> SpotPlacementTypeOnDemand"
    using assms(1) by (auto simp: placement_decision_def Let_def)
  then obtain ratio where ratio: "SpotRatioPercent E (cs_spot_ratio cs) = Inr ratio"
    using assms(1) by (auto simp: placement_decision_def Let_def bind_result_Inr_iff split: if_splits)
  have "\<not> fallbackBudgetExhausted E C s wc (countWorkloadClassPods E C s p wc)"
    using assms(1) ratio by (auto simp: placement_decision_def Let_def split: if_splits)
  moreover have "fallbackBudgets E C s = Inr ?bs"
    using assms(3) by (simp add: fallbackBudgets_def)
  moreover have "b \<in> set ?bs" using assms(6,7) by auto
  moreover from this have "?bs \<noteq> []" by (metis list.distinct(1) list.set_cases)
  ultimately have "\<not> some_budget_exceeded E c ?bs"
    using assms(2,4) fallbackBudgetExhausted_iff by metis
  then have "fallbackWithinBudget E (ct_fallback c + 1) (ct_total c + 1) (fb_ratio b) \<noteq> Inr False"
    using \<open>b \<in> set ?bs\<close> by (auto simp: some_budget_exceeded_iff)
  then show ?thesis
    using counts_range [OF assms(2)] assms(5) fallbackWithinBudget_allows [of "ct_fallback c + 1" "ct_total c + 1" E "fb_ratio b"]
    by simp
qed

definition budget_env :: env where
  "budget_env = ref_env\<lparr>decode_params := \<lambda>raw. Inr (default_params\<lparr>sg_fallback :=
     Some \<lparr>fc_allow = None, fc_max_ratio = Some (IntVal 2)\<rparr>\<rparr>)\<rparr>"

definition fallback_wc :: workload_class where
  "fallback_wc = spot_wc\<lparr>wc_status := \<lparr>st_readiness = '''', st_last_disruption = None, st_conditions =
     [\<lparr>c_type = ConditionTypeInFallback, c_status = ConditionTrue, c_reason = ReasonFallbackActive, c_message = '''',
       c_observed = 1, c_transition = 0\<rparr>]\<rparr>\<rparr>"

definition fallback_cluster :: cluster where
  "fallback_cluster = empty_cluster\<lparr>k_namespaces := [(''prod'', Map.empty)], k_wcs := [fallback_wc], k_guardrails := [spot_guardrail]\<rparr>"

lemma budget_env_simps [simp]:
  "as_selector budget_env = ref_selector" "is_status_condition_true budget_env = ref_is_true"
  "find_status_condition budget_env = ref_find"
  by (simp_all add: budget_env_def)

lemma fallback_counts: "countWorkloadClassPods budget_env ref_client fallback_cluster sample_pod fallback_wc = Inr no_counts"
proof -
  have "WorkloadClassPodSelector budget_env ref_client fallback_cluster fallback_wc = Inr (selector_matches sample_selector)"
    by (simp add: WorkloadClassPodSelector_def fallback_cluster_def fallback_wc_def spot_samples map_get_def
        ref_selector_def known_operators_def)
  then have "listWorkloadClassPods budget_env ref_client fallback_cluster sample_pod fallback_wc = Inr []"
    by (simp add: listWorkloadClassPods_def fallback_cluster_def empty_cluster_def)
  then show ?thesis by (simp add: countWorkloadClassPods_def no_counts_def)
qed

lemma fallback_budgets: "guardrail_budgets budget_env spot_guardrail = [\<lparr>fb_guardrail = ''weekdays'', fb_ratio = IntVal 2\<rparr>]"
  by (simp add: guardrail_budgets_def spot_entries_def entry_budget_def spot_samples ParseGKESpotGuardrailParameters_def
      budget_env_def)

lemma fallback_state: "is_status_condition_true budget_env (wc_conditions fallback_wc) ConditionTypeInFallback"
  by (simp add: fallback_wc_def ref_is_true_def ref_find_def)

lemma fallback_listed: "list_guardrails ref_client fallback_cluster = Inr [spot_guardrail]"
  by (simp add: fallback_cluster_def)

lemma fallback_decision:
  "placement_decision budget_env ref_client fallback_cluster sample_pod fallback_wc spot_strategy None =
     Inr (Spot FallbackActionFallbackToOnDemand)"
proof -
  have "fallbackBudgets budget_env ref_client fallback_cluster = Inr [\<lparr>fb_guardrail = ''weekdays'', fb_ratio = IntVal 2\<rparr>]"
    by (simp add: fallbackBudgets_def fallback_cluster_def fallback_budgets)
  then have "\<not> fallbackBudgetExhausted budget_env ref_client fallback_cluster fallback_wc (Inr no_counts)"
    using fallback_state fallbackBudgetExhausted_iff
    by (simp add: fallbackBudgetExhausted_def fallbackWithinBudget_def no_counts_def)
  then show ?thesis
    by (simp add: placement_decision_def fallback_counts SpotRatioPercent_def policy_reversion_def) (simp add: spot_strategy_def SpotRatioPercent_def)
qed

lemma fallback_budget_respected_witness: "budget_allows budget_env 1 1 (IntVal 2)"
  using fallback_budget_respected [OF fallback_decision fallback_counts fallback_listed, of spot_guardrail
      "\<lparr>fb_guardrail = ''weekdays'', fb_ratio = IntVal 2\<rparr>"] fallback_state fallback_budgets
  by (simp add: no_counts_def)

subsection \<open>The webhook fails open\<close>

text \<open>A condition of the WorkloadClass that describes its current spec.\<close>

definition current_condition :: "env \<Rightarrow> workload_class \<Rightarrow> string \<Rightarrow> (condition \<Rightarrow> bool) \<Rightarrow> bool" where
  "current_condition E wc c_ty P =
     (\<exists>c. find_status_condition E (wc_conditions wc) c_ty = Some c \<and> P c \<and>
        (0 < wc_generation wc \<longrightarrow> c_observed c = wc_generation wc))"

lemma condition_ready_current:
  "condition_ready E wc ConditionTypeValidated \<longleftrightarrow> current_condition E wc ConditionTypeValidated (\<lambda>c. IsValidated (Some c))"
  "condition_ready E wc ConditionTypePlacementPluginAttached \<longleftrightarrow>
     current_condition E wc ConditionTypePlacementPluginAttached (\<lambda>c. c_status c = ConditionTrue)"
  by (auto simp: condition_ready_def current_condition_def split: option.split)

lemma required_conditions_ready:
  "list_all (condition_ready E wc) (required_conditions uses) \<longleftrightarrow>
     condition_ready E wc ConditionTypeValidated \<and> (uses \<longrightarrow> condition_ready E wc ConditionTypePlacementPluginAttached)"
  by (simp add: required_conditions_def)

lemma apply_placement_identity:
  "pod_name (apply_placement policy d p) = pod_name p \<and> pod_namespace (apply_placement policy d p) = pod_namespace p \<and>
   pod_uid (apply_placement policy d p) = pod_uid p \<and> pod_labels (apply_placement policy d p) = pod_labels p"
  by (simp add: apply_placement_def mutateForOnDemand_def mutateForSpot_def requireNodeSelectorTerms_def Let_def
      removeSpotToleration_def ensureSpotToleration_def setNodeSelector_def addPreferredSchedulingTerm_def split: placement.split)

text \<open>What is decided when the workload's Pods cannot be counted: the ratio and the fallback budget are
  taken as met, so a Pod that is to use Spot at all is placed on Spot with the fallback action of its
  strategy. Only a fallback that the status already reports keeps it on demand.\<close>

lemma placement_uncounted:
  assumes "countWorkloadClassPods E C s p wc = Inl err" "placement_decision E C s p wc cs policy = Inr d"
  shows "d = (if cs_type cs = SpotPlacementTypeOnDemand \<or> SpotRatioPercent E (cs_spot_ratio cs) = Inr 0 \<or>
        policy_reversion policy = NoneReversionAction \<and> cs_fallback cs = FallbackActionFallbackToOnDemand \<and>
        is_status_condition_true E (wc_conditions wc) ConditionTypeInFallback
      then OnDemand else Spot (if cs_fallback cs = '''' then FallbackActionFail else cs_fallback cs))"
proof (cases "cs_type cs = SpotPlacementTypeOnDemand")
  case True
  then show ?thesis using assms by (simp add: placement_decision_def)
next
  case False
  then obtain ratio where ratio: "SpotRatioPercent E (cs_spot_ratio cs) = Inr ratio"
    using assms(2) by (auto simp: placement_decision_def Let_def bind_result_Inr_iff split: if_splits)
  have "ShouldUseSpot 0 0 ratio" if "ratio \<noteq> 0"
    using SpotRatioPercent_range [OF ratio] that by (simp add: ShouldUseSpot_def i64_id)
  moreover have "\<not> fallbackBudgetExhausted E C s wc (Inl err)"
    by (simp add: fallbackBudgetExhausted_def split: sum.split)
  ultimately show ?thesis
    using assms False ratio by (auto simp: placement_decision_def Let_def no_counts_def split: if_splits)
qed

text \<open>C30: The placement webhook fails open. It changes a Pod only if a WorkloadClass with a capacity
  strategy governs it whose spec, as it is now, is validated and, if it references an infrastructure
  profile, whose GKESpotPlacementPolicy is attached and readable, and the strategy's Spot ratio, unless
  it is on demand, is a percentage; a failure at any of these admits the Pod as it came. Then it
  applies exactly the placement decided. Failing to count the workload's Pods does not stop it: it
  then goes by the strategy and the fallback that the status reports, and holds no Pod back from Spot
  or from fallback for a ratio between 0 and 100 percent or for a budget. In no case does it change
  the Pod's identity or labels.\<close>

theorem Default_fails_open:
  "(Default E C s p \<noteq> p \<longrightarrow>
     (\<exists>wc event cs policy d. FindBestMatchWorkloadClass E C s True (Some p) = Inr (Some wc, event) \<and>
        wc_capacity wc = Some cs \<and>
        current_condition E wc ConditionTypeValidated (\<lambda>c. IsValidated (Some c)) \<and>
        (case wc_infra wc of
           None \<Rightarrow> policy = None
         | Some ref \<Rightarrow> ReferencesGKESpotPlacementPolicy (Some ref) \<and>
             current_condition E wc ConditionTypePlacementPluginAttached (\<lambda>c. c_status c = ConditionTrue) \<and>
             (\<exists>sp. get_policy C s (ir_name ref) = Inr sp \<and> policy = Some sp)) \<and>
        (cs_type cs = SpotPlacementTypeOnDemand \<or> (\<exists>ratio. SpotRatioPercent E (cs_spot_ratio cs) = Inr ratio)) \<and>
        placement_decision E C s p wc cs policy = Inr d \<and> Default E C s p = apply_placement policy d p \<and>
        (\<forall>err. countWorkloadClassPods E C s p wc = Inl err \<longrightarrow>
           d = (if cs_type cs = SpotPlacementTypeOnDemand \<or> SpotRatioPercent E (cs_spot_ratio cs) = Inr 0 \<or>
                 policy_reversion policy = NoneReversionAction \<and> cs_fallback cs = FallbackActionFallbackToOnDemand \<and>
                 is_status_condition_true E (wc_conditions wc) ConditionTypeInFallback
               then OnDemand else Spot (if cs_fallback cs = '''' then FallbackActionFail else cs_fallback cs))))) \<and>
   pod_name (Default E C s p) = pod_name p \<and> pod_namespace (Default E C s p) = pod_namespace p \<and>
   pod_uid (Default E C s p) = pod_uid p \<and> pod_labels (Default E C s p) = pod_labels p"
proof (cases "Default E C s p = p")
  case True
  then show ?thesis by simp
next
  case False
  then obtain wc event cs where found: "FindBestMatchWorkloadClass E C s True (Some p) = Inr (Some wc, event)"
    "wc_capacity wc = Some cs"
    by (auto simp: Default_def split: sum.splits option.splits)
  let ?uses = "ReferencesGKESpotPlacementPolicy (wc_infra wc)"
  have gate: "wc_infra wc = None \<or> ?uses" "list_all (condition_ready E wc) (required_conditions ?uses)"
    using False found by (auto simp: Default_def Let_def split: if_splits)
  have no_ref: "\<not> ReferencesGKESpotPlacementPolicy None" by (simp add: ReferencesGKESpotPlacementPolicy_def)
  obtain policy where policy: "(if ?uses then (case wc_infra wc of Some r \<Rightarrow> map_sum id Some (fetchSpotPlacementPolicy C s r) | None \<Rightarrow> Inr None)
      else Inr None) = Inr policy"
    "Default E C s p = (case mutatePodPlacement E C s p wc cs policy of Inl err \<Rightarrow> p | Inr p' \<Rightarrow> p')"
    using False found gate by (auto simp: Default_def Let_def split: sum.splits if_splits)
  then obtain d where d: "placement_decision E C s p wc cs policy = Inr d" "Default E C s p = apply_placement policy d p"
    using False by (auto simp: mutatePodPlacement_def bind_result_def split: sum.splits)
  have infra: "case wc_infra wc of
           None \<Rightarrow> policy = None
         | Some ref \<Rightarrow> ReferencesGKESpotPlacementPolicy (Some ref) \<and>
             current_condition E wc ConditionTypePlacementPluginAttached (\<lambda>c. c_status c = ConditionTrue) \<and>
             (\<exists>sp. get_policy C s (ir_name ref) = Inr sp \<and> policy = Some sp)"
  proof (cases "wc_infra wc")
    case None
    then show ?thesis using policy(1) no_ref by simp
  next
    case (Some ref)
    then have "map_sum id Some (fetchSpotPlacementPolicy C s ref) = Inr policy"
      using policy(1) gate(1) by simp
    then show ?thesis
      using Some gate by (cases "fetchSpotPlacementPolicy C s ref")
        (auto simp: fetchSpotPlacementPolicy_def required_conditions_ready condition_ready_current)
  qed
  have "current_condition E wc ConditionTypeValidated (\<lambda>c. IsValidated (Some c))"
    using gate(2) by (simp add: required_conditions_ready condition_ready_current)
  moreover have "cs_type cs = SpotPlacementTypeOnDemand \<or> (\<exists>ratio. SpotRatioPercent E (cs_spot_ratio cs) = Inr ratio)"
    using d(1) by (auto simp: placement_decision_def Let_def bind_result_Inr_iff split: if_splits)
  moreover have "\<forall>err. countWorkloadClassPods E C s p wc = Inl err \<longrightarrow>
           d = (if cs_type cs = SpotPlacementTypeOnDemand \<or> SpotRatioPercent E (cs_spot_ratio cs) = Inr 0 \<or>
                 policy_reversion policy = NoneReversionAction \<and> cs_fallback cs = FallbackActionFallbackToOnDemand \<and>
                 is_status_condition_true E (wc_conditions wc) ConditionTypeInFallback
               then OnDemand else Spot (if cs_fallback cs = '''' then FallbackActionFail else cs_fallback cs))"
    using placement_uncounted [OF _ d(1)] by blast
  ultimately show ?thesis
    using found infra d apply_placement_identity [of policy d p] by (intro conjI impI) (blast, simp_all)
qed

definition ready_wc :: workload_class where
  "ready_wc = spot_wc\<lparr>wc_status := \<lparr>st_readiness = '''', st_last_disruption = None, st_conditions =
     [\<lparr>c_type = ConditionTypeValidated, c_status = ConditionTrue, c_reason = ReasonValidationPassed, c_message = '''',
       c_observed = 1, c_transition = 0\<rparr>]\<rparr>\<rparr>"

definition ready_cluster :: cluster where
  "ready_cluster = empty_cluster\<lparr>k_namespaces := [(''prod'', Map.empty)], k_wcs := [ready_wc]\<rparr>"

lemma ready_governs:
  "FindBestMatchWorkloadClass ref_env ref_client ready_cluster recorder (Some sample_pod) = Inr (Some ready_wc, None)"
proof (rule sole_wc_governs)
  show "eligible ref_env sample_pod ready_wc"
    using sample_eligible by (simp add: eligible_def ready_wc_def spot_wc_def) (simp add: sample_wc_def)
qed (simp_all add: ready_cluster_def empty_cluster_def)

lemma ready_decision:
  "placement_decision ref_env ref_client ready_cluster sample_pod ready_wc spot_strategy None =
     Inr (Spot FallbackActionFallbackToOnDemand)"
  by (simp add: placement_decision_def SpotRatioPercent_def policy_reversion_def spot_strategy_def
      fallbackBudgetExhausted_def fallbackBudgets_def ready_cluster_def empty_cluster_def)

lemma Default_fails_open_witness:
  "\<exists>policy d. Default ref_env ref_client ready_cluster sample_pod = apply_placement policy d sample_pod \<and>
     Default ref_env ref_client ready_cluster sample_pod \<noteq> sample_pod \<and>
     pod_labels (Default ref_env ref_client ready_cluster sample_pod) = pod_labels sample_pod"
proof -
  have ready: "wc_capacity ready_wc = Some spot_strategy" "wc_infra ready_wc = None"
    "condition_ready ref_env ready_wc ConditionTypeValidated"
    by (simp_all add: ready_wc_def spot_samples condition_ready_def ref_find_def IsValidated_def)
  then have "Default ref_env ref_client ready_cluster sample_pod =
      apply_placement None (Spot FallbackActionFallbackToOnDemand) sample_pod"
    using ready_governs [of True] ready_decision
    by (simp add: Default_def Let_def ReferencesGKESpotPlacementPolicy_def required_conditions_def mutatePodPlacement_def)
  moreover have "IsPodTargetedForSpot (Some (apply_placement None (Spot FallbackActionFallbackToOnDemand) sample_pod))"
    by (simp add: apply_placement_def mutateForSpot_targeted)
  moreover have "\<not> IsPodTargetedForSpot (Some sample_pod)"
    by (simp add: IsPodTargetedForSpot_def sample_pod_def map_get_def)
  ultimately have "Default ref_env ref_client ready_cluster sample_pod \<noteq> sample_pod" by metis
  then show ?thesis using Default_fails_open [of ref_env ref_client ready_cluster sample_pod] by blast
qed

end
