(* ===== verification/Guardrail.thy ===== *)
theory Guardrail
  imports Utils_Basic
begin

text \<open>
  \<open>internal/utils/guardrail.go\<close> and the weekday check of \<open>temporal.go\<close>: the disruption
  constraints of a WorkloadClassGuardrail that a WorkloadClass violates. Each check returns
  its message, the empty string when the WorkloadClass complies.
\<close>

definition AllWeekdays :: "string list" where
  "AllWeekdays = [''Sunday'', ''Monday'', ''Tuesday'', ''Wednesday'', ''Thursday'', ''Friday'', ''Saturday'']"

definition window_days_violation :: "string list \<Rightarrow> disruption_window \<Rightarrow> string list" where
  "window_days_violation days dw =
     (if length (dw_days dw) = 0 then
        (if \<not> IsSubset AllWeekdays days then
           [''`daysOfWeek` of disruption window '' @ [CHR 0x27] @ dw_name dw @ [CHR 0x27] @
            '' must be specified and contain only '' @ QuotedList days @
            '' (guardrail limit); an empty `daysOfWeek` allows disruption on every day'']
         else [])
      else if \<not> IsSubset (dw_days dw) days then
        [''`daysOfWeek` of disruption window '' @ [CHR 0x27] @ dw_name dw @ [CHR 0x27] @
         '' must contain only '' @ QuotedList days @ '' (guardrail limit), got '' @ QuotedList (dw_days dw)]
      else [])"

definition daysOfWeekViolation :: "string list \<Rightarrow> disruption_window list \<Rightarrow> string" where
  "daysOfWeekViolation days windows =
     (if length days = 0 then ''''
      else if length windows = 0 then
        (if IsSubset AllWeekdays days then ''''
         else ''`allowedDisruptionWindows` must be specified, with `daysOfWeek` containing only '' @
           QuotedList days @ '' (guardrail limit); omitting it allows disruption on every day'')
      else str_join (concat (map (window_days_violation days) windows)) ''; '')"

definition allowedWindowsViolation :: "int \<Rightarrow> int \<Rightarrow> string" where
  "allowedWindowsViolation max_allowed_windows wlc_windows =
     (if max_allowed_windows > 0 \<and> wlc_windows > max_allowed_windows then
        ''`allowedDisruptionWindows` must have at most '' @ show_int max_allowed_windows @
        '' items (guardrail limit), got '' @ show_int wlc_windows
      else '''')"

definition disruptionDurationDaysViolation :: "int \<Rightarrow> int \<Rightarrow> string" where
  "disruptionDurationDaysViolation wlc_max_days guardrail_max_days =
     (if guardrail_max_days > 0 \<and> (wlc_max_days \<le> 0 \<or> wlc_max_days > guardrail_max_days) then
        ''`maxNonDisruptionDurationDays` must be between 1 and '' @ show_int guardrail_max_days @
        '', inclusive (guardrail limit), got '' @ show_int wlc_max_days @ '' (0 means no limit)''
      else '''')"

definition append_message :: "string \<Rightarrow> string list \<Rightarrow> string list" where
  "append_message v violations = (if v \<noteq> '''' then violations @ [v] else violations)"

definition GuardrailViolations :: "workload_class \<Rightarrow> guardrail \<Rightarrow> string list" where
  "GuardrailViolations wlc g =
     (let d = gs_disruption (gr_spec g);
          windows = dp_windows (wc_policy wlc);
          v1 = append_message (daysOfWeekViolation (dl_days d) windows) [];
          v2 = append_message (allowedWindowsViolation (dl_max_windows d) (int (length windows))) v1
      in append_message
           (disruptionDurationDaysViolation (dp_max_days (wc_policy wlc)) (dl_max_days d)) v2)"

text \<open>\<open>WeekdaysValid\<close> of temporal.go: \<open>None\<close> is the nil error.\<close>

definition WeekdaysValid :: "string list \<Rightarrow> string option" where
  "WeekdaysValid days =
     (let invalid = filter (\<lambda>d. d \<notin> set AllWeekdays) days
      in if length invalid > 0
         then Some (''`daysOfWeek` must only contain '' @ QuotedList AllWeekdays @ '', got '' @ QuotedList invalid)
         else None)"

subsection \<open>When the checks are silent\<close>

lemma subset_loop_iff: "subset_loop ds A \<longleftrightarrow> set ds \<subseteq> A"
  by (induction ds A rule: subset_loop.induct) auto

lemma IsSubset_iff: "IsSubset sub super \<longleftrightarrow> set sub \<subseteq> set super"
proof -
  have "fold insert super {} = set super"
    using union_set_fold [of super "{}"] by simp
  then show ?thesis by (auto simp: IsSubset_def subset_loop_iff)
qed

lemma append_message_Nil [simp]: "append_message v vs = [] \<longleftrightarrow> v = '''' \<and> vs = []"
  by (simp add: append_message_def)

text \<open>The days one window may use: those it names, all of them when it names none.\<close>

definition window_days :: "disruption_window \<Rightarrow> string set" where
  "window_days dw = (if dw_days dw = [] then set AllWeekdays else set (dw_days dw))"

text \<open>The days on which a list of windows allows disruption; no window allows every day.\<close>

definition allowed_days :: "disruption_window list \<Rightarrow> string set" where
  "allowed_days windows = (if windows = [] then set AllWeekdays else (\<Union>dw \<in> set windows. window_days dw))"

lemma window_days_violation_Nil: "window_days_violation days dw = [] \<longleftrightarrow> window_days dw \<subseteq> set days"
  by (simp add: window_days_violation_def window_days_def IsSubset_iff)

lemma window_days_violation_nonempty: "m \<in> set (window_days_violation days dw) \<Longrightarrow> m \<noteq> ''''"
  by (auto simp: window_days_violation_def split: if_splits)

lemma str_join_messages:
  assumes "\<And>m. m \<in> set ms \<Longrightarrow> m \<noteq> ''''"
  shows "str_join ms sep = '''' \<longleftrightarrow> ms = []"
  using assms by (cases ms) (auto simp: str_join_eq_Nil)

lemma daysOfWeekViolation_Nil:
  "daysOfWeekViolation days windows = '''' \<longleftrightarrow> days = [] \<or> allowed_days windows \<subseteq> set days"
proof (cases "windows = []")
  case True
  then show ?thesis by (simp add: daysOfWeekViolation_def allowed_days_def IsSubset_iff)
next
  case False
  have "str_join (concat (map (window_days_violation days) windows)) ''; '' = '''' \<longleftrightarrow>
      concat (map (window_days_violation days) windows) = []"
    by (rule str_join_messages) (auto dest: window_days_violation_nonempty)
  then show ?thesis
    using False by (auto simp: daysOfWeekViolation_def allowed_days_def window_days_violation_Nil)
qed

lemma allowedWindowsViolation_Nil: "allowedWindowsViolation m n = '''' \<longleftrightarrow> (m > 0 \<longrightarrow> n \<le> m)"
  by (auto simp: allowedWindowsViolation_def)

lemma disruptionDurationDaysViolation_Nil:
  "disruptionDurationDaysViolation n m = '''' \<longleftrightarrow> (m > 0 \<longrightarrow> 0 < n \<and> n \<le> m)"
  by (auto simp: disruptionDurationDaysViolation_def)

text \<open>What a guardrail asks of a WorkloadClass, as a predicate.\<close>

definition complies :: "workload_class \<Rightarrow> disruption_limits \<Rightarrow> bool" where
  "complies wc d =
     ((dl_days d \<noteq> [] \<longrightarrow> allowed_days (dp_windows (wc_policy wc)) \<subseteq> set (dl_days d)) \<and>
      (dl_max_windows d > 0 \<longrightarrow> int (length (dp_windows (wc_policy wc))) \<le> dl_max_windows d) \<and>
      (dl_max_days d > 0 \<longrightarrow> 0 < dp_max_days (wc_policy wc) \<and> dp_max_days (wc_policy wc) \<le> dl_max_days d))"

lemma GuardrailViolations_Nil: "GuardrailViolations wc g = [] \<longleftrightarrow> complies wc (gs_disruption (gr_spec g))"
  by (auto simp: GuardrailViolations_def Let_def complies_def daysOfWeekViolation_Nil allowedWindowsViolation_Nil
      disruptionDurationDaysViolation_Nil)

lemma WeekdaysValid_None: "WeekdaysValid days = None \<longleftrightarrow> set days \<subseteq> set AllWeekdays"
  by (auto simp: WeekdaysValid_def Let_def filter_empty_conv)

end
