(* ===== verification/Temporal.thy ===== *)
theory Temporal
  imports Guardrail
begin

text \<open>
  \<open>internal/utils/temporal.go\<close>: disruption windows. The calendar arithmetic of the Go
  \<open>time\<close> package that the file uses is written out: local days, weekdays, \<open>time.Date\<close>
  (with its two zone lookups) and the layout \<open>15:04\<close> of \<open>time.Parse\<close>; the zone database
  is the parameter \<open>load_location\<close>.
\<close>

subsection \<open>Calendar\<close>

definition local_seconds :: "location \<Rightarrow> go_time \<Rightarrow> int" where
  "local_seconds loc t = (let s = t div second in s + fst (loc s))"

definition local_day :: "location \<Rightarrow> go_time \<Rightarrow> int" where
  "local_day loc t = local_seconds loc t div 86400"

text \<open>Day 0 of the calendar, January 1 of year 1, is a Monday.\<close>

definition weekday_name :: "int \<Rightarrow> string" where
  "weekday_name day = AllWeekdays ! nat ((day + 1) mod 7)"

definition local_weekday :: "location \<Rightarrow> go_time \<Rightarrow> string" where
  "local_weekday loc t = weekday_name (local_day loc t)"

text \<open>
  \<open>time.Date\<close>: \<open>unix\<close> are the seconds of the wall clock read as UTC. The offset looked up
  there is used if it is in effect at the resulting instant, else the one in effect there.
\<close>

definition go_date :: "location \<Rightarrow> int \<Rightarrow> int \<Rightarrow> go_time" where
  "go_date loc unix nsec =
     (let (off, start, stop) = loc unix
      in if off \<noteq> 0 then
           let utc = unix - off;
               off' = (if utc < start \<or> stop \<le> utc then fst (loc utc) else off)
           in (unix - off') * second + nsec
         else unix * second + nsec)"

text \<open>\<open>t.AddDate(0, 0, -1)\<close>.\<close>

definition add_date_days :: "location \<Rightarrow> go_time \<Rightarrow> int \<Rightarrow> go_time" where
  "add_date_days loc t days = go_date loc (local_seconds loc t + days * 86400) (t mod second)"

text \<open>
  \<open>time.Parse("15:04", s)\<close>: one or two hour digits below 24, a colon, exactly two minute
  digits below 60, nothing after them.
\<close>

definition parse_hour :: "string \<Rightarrow> (int \<times> string) option" where
  "parse_hour s = (case s of [] \<Rightarrow> None
     | c # rest \<Rightarrow>
         if \<not> is_digit c then None
         else (case rest of
             d # rest' \<Rightarrow> if is_digit d then Some (digit_val c * 10 + digit_val d, rest') else Some (digit_val c, rest)
           | [] \<Rightarrow> Some (digit_val c, rest)))"

definition parse_minute :: "string \<Rightarrow> (int \<times> string) option" where
  "parse_minute s = (case s of
       c # d # rest \<Rightarrow> if is_digit c \<and> is_digit d then Some (digit_val c * 10 + digit_val d, rest) else None
     | _ \<Rightarrow> None)"

definition parse_hh_mm :: "string \<Rightarrow> (int \<times> int) option" where
  "parse_hh_mm s = (case parse_hour s of None \<Rightarrow> None
     | Some (h, rest) \<Rightarrow>
         if h < 0 \<or> 24 \<le> h then None
         else if \<not> has_prefix rest '':'' then None
         else (case parse_minute (drop 1 rest) of None \<Rightarrow> None
           | Some (m, extra) \<Rightarrow> if m < 0 \<or> 60 \<le> m then None else if extra \<noteq> [] then None else Some (h, m)))"

subsection \<open>Time zones\<close>

definition isLocalTimeZone :: "string \<Rightarrow> bool" where
  "isLocalTimeZone tz = (tz = ''Local'' \<or> tz = ''local'')"

definition TimeZoneValid :: "env \<Rightarrow> string \<Rightarrow> bool" where
  "TimeZoneValid E tz =
     (if isLocalTimeZone tz then False
      else case load_location E tz of Inl err \<Rightarrow> False | Inr loc \<Rightarrow> True)"

subsection \<open>Windows\<close>

datatype window_error = LocalZone string | ZoneError string | BadStart string | BadEnd string

definition window_errors :: "env \<Rightarrow> string \<Rightarrow> disruption_window \<Rightarrow> window_error list" where
  "window_errors E location w =
     (if isLocalTimeZone location then [LocalZone (dw_time_zone w)] else []) @
     (case load_location E location of Inl err \<Rightarrow> [ZoneError err] | Inr loc \<Rightarrow> []) @
     (case parse_hh_mm (dw_start w) of None \<Rightarrow> [BadStart (dw_start w)] | Some hm \<Rightarrow> []) @
     (case parse_hh_mm (dw_end w) of None \<Rightarrow> [BadEnd (dw_end w)] | Some hm \<Rightarrow> [])"

definition local_clock :: "location \<Rightarrow> go_time \<Rightarrow> int \<times> int \<Rightarrow> go_time" where
  "local_clock loc now hm = go_date loc (local_day loc now * 86400 + fst hm * 3600 + snd hm * 60) 0"

definition windowInfo :: "env \<Rightarrow> go_time \<Rightarrow> disruption_window \<Rightarrow> window_error list + (go_time \<times> go_time \<times> location)" where
  "windowInfo E now w =
     (let location = (if dw_time_zone w \<noteq> '''' then dw_time_zone w else ''Etc/UTC'');
          errs = window_errors E location w
      in if errs \<noteq> [] then Inl errs
         else case (load_location E location, parse_hh_mm (dw_start w), parse_hh_mm (dw_end w)) of
             (Inr loc, Some start, Some stop) \<Rightarrow> Inr (local_clock loc now start, local_clock loc now stop, loc)
           | _ \<Rightarrow> Inl errs)"

definition evaluateCrossMidnightWindow :: "go_time \<Rightarrow> go_time \<Rightarrow> go_time \<Rightarrow> bool \<Rightarrow> bool \<Rightarrow> bool \<times> duration" where
  "evaluateCrossMidnightWindow start stop now today yesterday =
     (if today \<and> now > start then (True, time_sub (stop + 24 * hour) now)
      else if yesterday \<and> now < stop then (True, time_sub stop now)
      else if today \<and> now < start then (False, time_sub start now)
      else (False, week))"

definition evaluateSameDayWindow :: "go_time \<Rightarrow> go_time \<Rightarrow> go_time \<Rightarrow> bool \<times> duration" where
  "evaluateSameDayWindow start stop now =
     (let strictly_between = (now > start \<and> now < stop);
          start_equals_end = (start = stop)
      in if strictly_between \<or> start_equals_end then (True, time_sub stop now)
         else if now < start then (False, min week (time_sub start now))
         else (False, week))"

definition evaluateWindow :: "go_time \<Rightarrow> go_time \<Rightarrow> go_time \<Rightarrow> bool \<Rightarrow> bool \<Rightarrow> bool \<times> duration" where
  "evaluateWindow start stop now today yesterday =
     (if stop < start then evaluateCrossMidnightWindow start stop now today yesterday
      else if \<not> today then (False, week)
      else evaluateSameDayWindow start stop now)"

definition window_active_on :: "disruption_window \<Rightarrow> string \<Rightarrow> bool" where
  "window_active_on w day = (length (dw_days w) = 0 \<or> day \<in> set (dw_days w))"

text \<open>One iteration of the loop over the windows.\<close>

definition window_step :: "env \<Rightarrow> go_time \<Rightarrow> disruption_window \<Rightarrow> bool \<times> duration \<Rightarrow> bool \<times> duration" where
  "window_step E now w acc =
     (case windowInfo E now w of
        Inl errs \<Rightarrow> acc
      | Inr (start, stop, loc) \<Rightarrow>
          let today = window_active_on w (local_weekday loc now);
              yesterday = window_active_on w (local_weekday loc (add_date_days loc now (-1)))
          in if \<not> today \<and> \<not> yesterday then acc
             else let (in_current, wait) = evaluateWindow start stop now today yesterday
                  in (fst acc \<or> in_current, min (snd acc) wait))"

definition IsTimeInWindows :: "env \<Rightarrow> go_time \<Rightarrow> disruption_window list \<Rightarrow> bool \<times> duration" where
  "IsTimeInWindows E now windows =
     (if length windows = 0 then (True, 0)
      else fold (window_step E now) windows (False, week))"

subsection \<open>Windows as sets of instants\<close>

text \<open>A zone with a fixed offset from UTC, as \<open>Etc/UTC\<close>.\<close>

definition fixed_offset :: "location \<Rightarrow> int \<Rightarrow> bool" where
  "fixed_offset loc off = (\<forall>t. fst (loc t) = off)"

lemma fixed_offset_utc: "fixed_offset utc 0"
  by (simp add: fixed_offset_def utc_def)

text \<open>The instant of second \<open>s\<close> of a local day.\<close>

definition local_instant :: "int \<Rightarrow> int \<Rightarrow> int \<Rightarrow> go_time" where
  "local_instant off day s = (day * 86400 + s - off) * second"

text \<open>The instance of a window that begins on a local day: it runs into the next day when
  it ends before it starts, and is the whole day when both are the same. The code leaves both ends out.\<close>

definition instance_covers :: "int \<Rightarrow> int \<Rightarrow> int \<Rightarrow> int \<Rightarrow> go_time \<Rightarrow> bool" where
  "instance_covers off day s e t =
     (if s = e then local_instant off day 0 \<le> t \<and> t < local_instant off (day + 1) 0
      else local_instant off day s < t \<and> t < local_instant off (if e < s then day + 1 else day) e)"

definition seconds_of :: "int \<times> int \<Rightarrow> int" where
  "seconds_of hm = fst hm * 3600 + snd hm * 60"

definition active_day :: "disruption_window \<Rightarrow> int \<Rightarrow> bool" where
  "active_day w day = window_active_on w (weekday_name day)"

lemma go_date_fixed: "fixed_offset loc off \<Longrightarrow> go_date loc unix nsec = (unix - off) * second + nsec"
  by (auto simp: go_date_def fixed_offset_def Let_def split: prod.split) (metis fst_conv)+

lemma local_clock_fixed:
  "fixed_offset loc off \<Longrightarrow> local_clock loc now hm = local_instant off (local_day loc now) (seconds_of hm)"
  by (simp add: local_clock_def go_date_fixed local_instant_def seconds_of_def add.assoc)

lemma local_seconds_fixed: "fixed_offset loc off \<Longrightarrow> local_seconds loc t = t div second + off"
  by (simp add: local_seconds_def fixed_offset_def Let_def)

lemma yesterday_fixed:
  assumes "fixed_offset loc off"
  shows "local_day loc (add_date_days loc now (-1)) = local_day loc now - 1"
proof -
  have "add_date_days loc now (-1) = (now div second - 86400) * second + now mod second"
    using assms by (simp add: add_date_days_def go_date_fixed local_seconds_fixed)
  then have "add_date_days loc now (-1) div second = now div second - 86400"
    by (simp add: second_def)
  then show ?thesis
    using assms by (simp add: local_day_def local_seconds_fixed)
qed

lemma local_day_bounds:
  assumes "fixed_offset loc off"
  shows "local_instant off (local_day loc t) 0 \<le> t" "t < local_instant off (local_day loc t + 1) 0"
  using assms by (simp_all add: local_day_def local_seconds_fixed local_instant_def second_def; linarith)+

lemma instance_days:
  assumes "local_instant off day 0 \<le> t" "t < local_instant off (day + 1) 0"
    and "0 \<le> s" "s < 86400" "0 \<le> e" "e < 86400" "instance_covers off d s e t"
  shows "d = day \<or> e < s \<and> d = day - 1"
  using assms by (auto simp: instance_covers_def local_instant_def second_def split: if_splits)

lemma parse_hh_mm_range: "parse_hh_mm s = Some hm \<Longrightarrow> 0 \<le> seconds_of hm \<and> seconds_of hm < 86400"
  by (auto simp: parse_hh_mm_def seconds_of_def split: option.splits if_splits prod.splits)

definition window_zone :: "disruption_window \<Rightarrow> string" where
  "window_zone w = (if dw_time_zone w \<noteq> '''' then dw_time_zone w else ''Etc/UTC'')"

text \<open>What the code takes for inside a window: it is well-formed and some instance of it, beginning on one of its days,
  covers the instant.\<close>

definition window_covers :: "env \<Rightarrow> disruption_window \<Rightarrow> go_time \<Rightarrow> bool" where
  "window_covers E w t =
     (\<not> isLocalTimeZone (window_zone w) \<and>
      (\<exists>loc off start stop day. load_location E (window_zone w) = Inr loc \<and> fixed_offset loc off \<and>
         parse_hh_mm (dw_start w) = Some start \<and> parse_hh_mm (dw_end w) = Some stop \<and>
         active_day w day \<and> instance_covers off day (seconds_of start) (seconds_of stop) t))"

lemma windowInfo_Inr:
  "windowInfo E now w = Inr (start, stop, loc) \<longleftrightarrow>
     \<not> isLocalTimeZone (window_zone w) \<and> load_location E (window_zone w) = Inr loc \<and>
     (\<exists>a b. parse_hh_mm (dw_start w) = Some a \<and> parse_hh_mm (dw_end w) = Some b \<and>
        start = local_clock loc now a \<and> stop = local_clock loc now b)"
  by (auto simp: windowInfo_def window_errors_def window_zone_def Let_def split: sum.splits option.splits if_splits)

lemma window_step_fst:
  "fst (window_step E now w acc) \<longleftrightarrow> fst acc \<or> fst (window_step E now w (False, week))"
  by (auto simp: window_step_def Let_def split: sum.split prod.split)

lemma fold_window_fst:
  "fst (fold (window_step E now) ws acc) \<longleftrightarrow> fst acc \<or> (\<exists>w \<in> set ws. fst (window_step E now w (False, week)))"
proof (induction ws arbitrary: acc)
  case (Cons w ws)
  then show ?case using window_step_fst [of E now w acc] by auto
qed simp

lemma fixed_offset_unique: "fixed_offset loc a \<Longrightarrow> fixed_offset loc b \<Longrightarrow> a = b"
  by (simp add: fixed_offset_def)

text \<open>What the two evaluation functions decide, for a day that contains the instant.\<close>

lemma evaluateWindow_fst:
  assumes "local_instant off day 0 \<le> t" "t < local_instant off (day + 1) 0"
    and "0 \<le> s" "s < 86400" "0 \<le> e" "e < 86400"
  shows "fst (evaluateWindow (local_instant off day s) (local_instant off day e) t today yesterday) \<longleftrightarrow>
    today \<and> instance_covers off day s e t \<or> yesterday \<and> e < s \<and> instance_covers off (day - 1) s e t"
  using assms
  by (auto simp: evaluateWindow_def evaluateCrossMidnightWindow_def evaluateSameDayWindow_def instance_covers_def
      local_instant_def second_def)

lemma window_step_covers:
  assumes "load_location E (window_zone w) = Inr loc" "fixed_offset loc off"
  shows "fst (window_step E now w (False, week)) \<longleftrightarrow> window_covers E w now"
proof (cases "\<not> isLocalTimeZone (window_zone w) \<and> (\<exists>a b. parse_hh_mm (dw_start w) = Some a \<and> parse_hh_mm (dw_end w) = Some b)")
  case False
  have "\<exists>errs. windowInfo E now w = Inl errs"
  proof (cases "windowInfo E now w")
    case (Inr r)
    obtain a b c where "r = (a, b, c)" by (cases r)
    then have False using Inr \<open>\<not> (\<not> isLocalTimeZone (window_zone w) \<and> _)\<close> by (auto simp: windowInfo_Inr)
    then show ?thesis ..
  qed blast
  then show ?thesis using False by (auto simp: window_step_def window_covers_def)
next
  case True
  then obtain a b where parsed: "parse_hh_mm (dw_start w) = Some a" "parse_hh_mm (dw_end w) = Some b"
    "\<not> isLocalTimeZone (window_zone w)" by blast
  let ?s = "seconds_of a" and ?e = "seconds_of b" and ?day = "local_day loc now"
  have range: "0 \<le> ?s" "?s < 86400" "0 \<le> ?e" "?e < 86400"
    using parse_hh_mm_range parsed(1,2) by blast+
  have day: "local_instant off ?day 0 \<le> now" "now < local_instant off (?day + 1) 0"
    using local_day_bounds [OF assms(2)] by blast+
  have "windowInfo E now w = Inr (local_instant off ?day ?s, local_instant off ?day ?e, loc)"
    using parsed assms by (simp add: windowInfo_Inr local_clock_fixed)
  then have "fst (window_step E now w (False, week)) \<longleftrightarrow>
      (active_day w ?day \<or> active_day w (?day - 1)) \<and>
      fst (evaluateWindow (local_instant off ?day ?s) (local_instant off ?day ?e) now (active_day w ?day) (active_day w (?day - 1)))"
    using yesterday_fixed [OF assms(2)]
    by (simp add: window_step_def Let_def active_day_def local_weekday_def split: prod.split)
  also have "\<dots> \<longleftrightarrow> active_day w ?day \<and> instance_covers off ?day ?s ?e now \<or>
      active_day w (?day - 1) \<and> ?e < ?s \<and> instance_covers off (?day - 1) ?s ?e now"
    unfolding evaluateWindow_fst [OF day range] by blast
  also have "\<dots> \<longleftrightarrow> (\<exists>d. active_day w d \<and> instance_covers off d ?s ?e now)"
    using instance_days [OF day range] by metis
  also have "\<dots> \<longleftrightarrow> window_covers E w now"
    using parsed assms by (auto simp: window_covers_def dest: fixed_offset_unique)
  finally show ?thesis .
qed

text \<open>Every window's zone, where it loads at all, has a fixed offset.\<close>

definition fixed_zones :: "env \<Rightarrow> disruption_window list \<Rightarrow> bool" where
  "fixed_zones E windows =
     (\<forall>w loc. w \<in> set windows \<longrightarrow> load_location E (window_zone w) = Inr loc \<longrightarrow> (\<exists>off. fixed_offset loc off))"

lemma fixed_zones_ref: "fixed_zones ref_env windows"
  using fixed_offset_utc by (auto simp: fixed_zones_def split: if_splits)

lemma in_windows_covers:
  assumes "windows \<noteq> []" "fixed_zones E windows"
  shows "fst (IsTimeInWindows E now windows) \<longleftrightarrow> (\<exists>w \<in> set windows. window_covers E w now)"
proof -
  have "fst (window_step E now w (False, week)) \<longleftrightarrow> window_covers E w now" if "w \<in> set windows" for w
  proof (cases "load_location E (window_zone w)")
    case (Inl err)
    then have "\<exists>errs. windowInfo E now w = Inl errs"
      by (auto simp: windowInfo_def window_errors_def window_zone_def Let_def)
    then show ?thesis using Inl by (auto simp: window_step_def window_covers_def)
  next
    case (Inr loc)
    then show ?thesis using window_step_covers assms(2) that unfolding fixed_zones_def by blast
  qed
  then show ?thesis
    using assms(1) by (simp add: IsTimeInWindows_def fold_window_fst)
qed

text \<open>The documented meaning includes the instant at which an instance starts: \<open>[start, 24:00)\<close> in the comment of
  \<open>evaluateCrossMidnightWindow\<close>.\<close>

definition instance_includes :: "int \<Rightarrow> int \<Rightarrow> int \<Rightarrow> int \<Rightarrow> go_time \<Rightarrow> bool" where
  "instance_includes off day s e t =
     (if s = e then local_instant off day 0 \<le> t \<and> t < local_instant off (day + 1) 0
      else local_instant off day s \<le> t \<and> t < local_instant off (if e < s then day + 1 else day) e)"

definition window_includes :: "env \<Rightarrow> disruption_window \<Rightarrow> go_time \<Rightarrow> bool" where
  "window_includes E w t =
     (\<not> isLocalTimeZone (window_zone w) \<and>
      (\<exists>loc off start stop day. load_location E (window_zone w) = Inr loc \<and> fixed_offset loc off \<and>
         parse_hh_mm (dw_start w) = Some start \<and> parse_hh_mm (dw_end w) = Some stop \<and>
         active_day w day \<and> instance_includes off day (seconds_of start) (seconds_of stop) t))"

text \<open>The instant at which an instance of the window starts.\<close>

definition window_starts :: "env \<Rightarrow> disruption_window \<Rightarrow> go_time \<Rightarrow> bool" where
  "window_starts E w t =
     (\<exists>loc off start day. load_location E (window_zone w) = Inr loc \<and> fixed_offset loc off \<and>
        parse_hh_mm (dw_start w) = Some start \<and> active_day w day \<and> t = local_instant off day (seconds_of start))"

lemma instance_includes_covers:
  "t \<noteq> local_instant off day s \<Longrightarrow> instance_includes off day s e t \<longleftrightarrow> instance_covers off day s e t"
  by (auto simp: instance_includes_def instance_covers_def)

lemma window_includes_covers:
  assumes "\<not> window_starts E w t"
  shows "window_includes E w t \<longleftrightarrow> window_covers E w t"
proof -
  have "instance_includes off day (seconds_of start) e t \<longleftrightarrow> instance_covers off day (seconds_of start) e t"
    if "load_location E (window_zone w) = Inr loc" "fixed_offset loc off" "parse_hh_mm (dw_start w) = Some start" "active_day w day"
    for loc off start day e
    using instance_includes_covers assms that unfolding window_starts_def by blast
  then show ?thesis unfolding window_includes_def window_covers_def by blast
qed

text \<open>C12: Being inside the disruption windows means what the API says: no window allows every instant;
  otherwise the instant lies at or after the start and before the end of an instance of a well-formed
  window that begins on one of its days in its time zone, also when the instance runs past midnight,
  and a window that ends when it starts covers its whole days. This is for zones of a fixed offset,
  and for every instant that is not itself the start of a window: what the code does there is recorded
  by \<open>window_start_missed\<close>.\<close>

theorem IsTimeInWindows_meaning:
  assumes "fixed_zones E windows" "\<forall>w \<in> set windows. \<not> window_starts E w now"
  shows "fst (IsTimeInWindows E now windows) \<longleftrightarrow> windows = [] \<or> (\<exists>w \<in> set windows. window_includes E w now)"
  using in_windows_covers [OF _ assms(1)] window_includes_covers assms(2)
  by (cases "windows = []") (auto simp: IsTimeInWindows_def)

lemma parse_samples:
  "parse_hh_mm ''01:00'' = Some (1, 0)" "parse_hh_mm ''05:00'' = Some (5, 0)"
  by (simp_all add: parse_hh_mm_def parse_hour_def parse_minute_def is_digit_def digit_val_def has_prefix_def)

lemma sample_window_covers_iff:
  "window_covers ref_env sample_window t \<longleftrightarrow> (\<exists>day. active_day sample_window day \<and> instance_covers 0 day 3600 18000 t)"
  using parse_samples fixed_offset_utc fixed_offset_unique [OF fixed_offset_utc]
  by (auto simp: window_covers_def window_zone_def isLocalTimeZone_def seconds_of_def sample_window_def)

lemma sample_window_active: "active_day sample_window 0" "active_day sample_window 1"
  by (simp_all add: active_day_def window_active_on_def weekday_name_def sample_window_def AllWeekdays_def)

lemma sample_window_covers:
  "window_covers ref_env sample_window (2 * hour)" "\<not> window_covers ref_env sample_window 0"
  "window_covers ref_env sample_window (26 * hour)"
proof -
  have "instance_covers 0 0 3600 18000 (2 * hour)" "instance_covers 0 1 3600 18000 (26 * hour)"
    by (simp_all add: instance_covers_def local_instant_def duration_defs)
  then show "window_covers ref_env sample_window (2 * hour)" "window_covers ref_env sample_window (26 * hour)"
    unfolding sample_window_covers_iff using sample_window_active by blast+
  have "\<not> instance_covers 0 day 3600 18000 0" for day
    by (cases "day \<le> -1") (simp_all add: instance_covers_def local_instant_def second_def)
  then show "\<not> window_covers ref_env sample_window 0"
    unfolding sample_window_covers_iff by blast
qed

lemma sample_window_starts:
  assumes "window_starts ref_env sample_window t"
  shows "t mod 86400000000000 = 3600000000000"
proof -
  have "load_location ref_env (window_zone sample_window) = Inr utc" "parse_hh_mm (dw_start sample_window) = Some (1, 0)"
    by (simp_all add: window_zone_def sample_window_def parse_samples)
  then obtain off day where "fixed_offset utc off" "t = local_instant off day (seconds_of (1, 0))"
    using assms unfolding window_starts_def by (metis option.inject sum.inject(2))
  then have "t = day * 86400000000000 + 3600000000000"
    using fixed_offset_unique [OF fixed_offset_utc] by (fastforce simp: local_instant_def seconds_of_def second_def)
  then show ?thesis by simp
qed

lemma IsTimeInWindows_meaning_witness:
  "fst (IsTimeInWindows ref_env (2 * hour) [sample_window]) \<and> \<not> fst (IsTimeInWindows ref_env 0 [sample_window])"
proof -
  have off_start: "\<not> window_starts ref_env sample_window (2 * hour)" "\<not> window_starts ref_env sample_window 0"
    by (auto dest!: sample_window_starts simp: duration_defs)
  then have "window_includes ref_env sample_window (2 * hour)" "\<not> window_includes ref_env sample_window 0"
    using window_includes_covers sample_window_covers by blast+
  then show ?thesis
    using IsTimeInWindows_meaning [OF fixed_zones_ref, of "[sample_window]" "2 * hour"]
      IsTimeInWindows_meaning [OF fixed_zones_ref, of "[sample_window]" 0] off_start by simp
qed

subsection \<open>How long to wait\<close>

lemma window_step_snd: "snd (window_step E now w acc) \<le> snd acc"
  by (auto simp: window_step_def Let_def split: sum.split prod.split)

lemma fold_window_snd: "snd (fold (window_step E now) ws acc) \<le> snd acc"
proof (induction ws arbitrary: acc)
  case (Cons w ws)
  have "snd (fold (window_step E now) (w # ws) acc) \<le> snd (window_step E now w acc)"
    using Cons by simp
  then show ?case using window_step_snd [of E now w acc] by (rule order_trans)
qed simp

lemma evaluateWindow_wait:
  "\<not> fst (evaluateWindow start stop now today yesterday) \<Longrightarrow>
   0 < snd (evaluateWindow start stop now today yesterday) \<and>
   snd (evaluateWindow start stop now today yesterday) \<le> (if today \<and> now < start then max week (time_sub start now) else week)"
  by (auto simp: evaluateWindow_def evaluateCrossMidnightWindow_def evaluateSameDayWindow_def duration_defs time_sub_pos
      split: if_splits)

lemma window_step_wait_pos:
  assumes "\<not> fst (window_step E now w acc)" "0 < snd acc"
  shows "0 < snd (window_step E now w acc)"
proof (cases "windowInfo E now w")
  case (Inl errs)
  then show ?thesis using assms(2) by (simp add: window_step_def)
next
  case (Inr r)
  obtain start stop loc where r: "r = (start, stop, loc)" by (cases r)
  let ?today = "window_active_on w (local_weekday loc now)"
    and ?yesterday = "window_active_on w (local_weekday loc (add_date_days loc now (-1)))"
  show ?thesis
  proof (cases "?today \<or> ?yesterday")
    case True
    then have "window_step E now w acc =
        (fst acc \<or> fst (evaluateWindow start stop now ?today ?yesterday),
         min (snd acc) (snd (evaluateWindow start stop now ?today ?yesterday)))"
      using Inr r by (auto simp: window_step_def Let_def split: prod.split)
    then show ?thesis using assms evaluateWindow_wait [of start stop now ?today ?yesterday] by auto
  next
    case False
    then show ?thesis using Inr r assms(2) by (simp add: window_step_def Let_def)
  qed
qed

lemma fold_window_wait_pos:
  "\<not> fst (fold (window_step E now) ws acc) \<Longrightarrow> 0 < snd acc \<Longrightarrow> 0 < snd (fold (window_step E now) ws acc)"
proof (induction ws arbitrary: acc)
  case (Cons w ws)
  let ?acc = "window_step E now w acc"
  have "\<not> fst ?acc" using Cons.prems(1) by (simp add: fold_window_fst)
  then have "0 < snd ?acc" using Cons.prems(2) by (rule window_step_wait_pos)
  then show ?case using Cons by simp
qed simp

lemma fold_window_snd_mem:
  "w \<in> set ws \<Longrightarrow> (\<And>acc. snd (window_step E now w acc) \<le> x) \<Longrightarrow> snd (fold (window_step E now) ws acc) \<le> x"
proof (induction ws arbitrary: acc)
  case (Cons v ws)
  show ?case
  proof (cases "w \<in> set ws")
    case True
    then show ?thesis using Cons by simp
  next
    case False
    then have "snd (window_step E now v acc) \<le> x" using Cons.prems by simp
    then show ?thesis using fold_window_snd [of E now ws "window_step E now v acc"] order_trans by simp
  qed
qed simp

lemma time_sub_le: "u \<le> t \<Longrightarrow> time_sub t u \<le> t - u"
  by (simp add: time_sub_def min_i64_def)

lemma window_opens_later:
  assumes "windowInfo E now w = Inr (start, stop, loc)" "window_active_on w (local_weekday loc now)" "now < start"
    and "\<not> fst (window_step E now w (False, week))"
  shows "snd (window_step E now w acc) \<le> start - now"
proof -
  let ?today = "window_active_on w (local_weekday loc now)"
    and ?yesterday = "window_active_on w (local_weekday loc (add_date_days loc now (-1)))"
  have step: "window_step E now w a = (fst a \<or> fst (evaluateWindow start stop now ?today ?yesterday),
      min (snd a) (snd (evaluateWindow start stop now ?today ?yesterday)))" for a
    using assms(1,2) by (simp add: window_step_def Let_def split: prod.split)
  have "\<not> fst (evaluateWindow start stop now ?today ?yesterday)" using assms(4) unfolding step by simp
  then have "snd (evaluateWindow start stop now ?today ?yesterday) \<le> time_sub start now"
    using assms(2,3)
    by (auto simp: evaluateWindow_def evaluateCrossMidnightWindow_def evaluateSameDayWindow_def split: if_splits)
  then show ?thesis
    using time_sub_le [of now start] assms(3) unfolding step by simp
qed

lemma wait_positive:
  assumes "\<not> fst (IsTimeInWindows E now windows)"
  shows "0 < snd (IsTimeInWindows E now windows)"
proof -
  have "IsTimeInWindows E now windows = fold (window_step E now) windows (False, week)"
    using assms by (auto simp: IsTimeInWindows_def split: if_splits)
  then show ?thesis
    using assms fold_window_wait_pos [of E now windows "(False, week)"] by (simp add: duration_defs)
qed

text \<open>C32: Outside the windows the caller is told to come back: after a positive delay, after a week at
  the latest, and never after the start of a window that opens later on the same local day.\<close>

theorem IsTimeInWindows_wait:
  assumes "\<not> fst (IsTimeInWindows E now windows)"
  shows "0 < snd (IsTimeInWindows E now windows) \<and> snd (IsTimeInWindows E now windows) \<le> week \<and>
    (\<forall>w \<in> set windows. \<forall>start stop loc.
       windowInfo E now w = Inr (start, stop, loc) \<longrightarrow> window_active_on w (local_weekday loc now) \<longrightarrow> now < start \<longrightarrow>
       snd (IsTimeInWindows E now windows) \<le> start - now)"
proof -
  have result: "IsTimeInWindows E now windows = fold (window_step E now) windows (False, week)"
    using assms by (auto simp: IsTimeInWindows_def split: if_splits)
  have outside: "\<not> fst (window_step E now w (False, week))" if "w \<in> set windows" for w
    using assms that unfolding result by (simp add: fold_window_fst)
  have "0 < snd (IsTimeInWindows E now windows)" using assms by (rule wait_positive)
  moreover have "snd (IsTimeInWindows E now windows) \<le> week"
    unfolding result using fold_window_snd [of E now windows "(False, week)"] by simp
  moreover have "snd (IsTimeInWindows E now windows) \<le> start - now"
    if "w \<in> set windows" "windowInfo E now w = Inr (start, stop, loc)" "window_active_on w (local_weekday loc now)" "now < start"
    for w start stop loc
    unfolding result using that(1) window_opens_later [OF that(2-4) outside [OF that(1)]] by (rule fold_window_snd_mem)
  ultimately show ?thesis by blast
qed

lemma sample_window_info:
  "windowInfo ref_env (6 * hour) sample_window = Inr (hour, 5 * hour, utc)"
  "windowInfo ref_env 0 sample_window = Inr (hour, 5 * hour, utc)"
  using local_clock_fixed [OF fixed_offset_utc]
  by (simp_all add: windowInfo_Inr window_zone_def isLocalTimeZone_def sample_window_def parse_samples local_instant_def
      seconds_of_def duration_defs local_day_def local_seconds_def utc_def)

lemma IsTimeInWindows_wait_witness: "snd (IsTimeInWindows ref_env 0 [sample_window]) \<le> hour"
proof -
  have "\<not> fst (IsTimeInWindows ref_env 0 [sample_window])"
    using in_windows_covers [OF _ fixed_zones_ref, of "[sample_window]" 0] sample_window_covers by simp
  moreover have "window_active_on sample_window (local_weekday utc 0)"
    by (simp add: window_active_on_def local_weekday_def weekday_name_def AllWeekdays_def sample_window_def local_day_def
        local_seconds_def utc_def)
  ultimately show ?thesis
    using IsTimeInWindows_wait [of ref_env 0 "[sample_window]"] sample_window_info(2) by (simp add: duration_defs)
qed

text \<open>The delay is not the time to the next opening: on Monday at 06:00, after the day's window, it is a
  week, although the same window opens again on Tuesday at 01:00.\<close>

lemma wait_misses_next_day:
  "IsTimeInWindows ref_env (6 * hour) [sample_window] = (False, week) \<and>
   window_covers ref_env sample_window (26 * hour)"
proof
  show "IsTimeInWindows ref_env (6 * hour) [sample_window] = (False, week)"
    by (simp add: IsTimeInWindows_def window_step_def sample_window_info Let_def evaluateWindow_def evaluateSameDayWindow_def)
       (simp add: duration_defs)
qed (rule sample_window_covers)

text \<open>At the very instant a window opens the code is not yet inside it, and asks for a week: on Monday at
  01:00, the start of the sample window, which the documented meaning includes.\<close>

lemma window_start_missed:
  "window_includes ref_env sample_window hour \<and> IsTimeInWindows ref_env hour [sample_window] = (False, week)"
proof
  have "instance_includes 0 0 3600 18000 hour"
    by (simp add: instance_includes_def local_instant_def duration_defs)
  moreover have "parse_hh_mm (dw_start sample_window) = Some (1, 0)" "parse_hh_mm (dw_end sample_window) = Some (5, 0)"
    by (simp_all add: parse_samples sample_window_def)
  moreover have "load_location ref_env (window_zone sample_window) = Inr utc" "\<not> isLocalTimeZone (window_zone sample_window)"
    by (simp_all add: window_zone_def isLocalTimeZone_def sample_window_def)
  moreover have "seconds_of (1, 0) = 3600" "seconds_of (5, 0) = 18000" by (simp_all add: seconds_of_def)
  ultimately show "window_includes ref_env sample_window hour"
    using fixed_offset_utc sample_window_active(1) unfolding window_includes_def by metis
next
  have "windowInfo ref_env hour sample_window = Inr (hour, 5 * hour, utc)"
    using local_clock_fixed [OF fixed_offset_utc]
    by (simp add: windowInfo_Inr window_zone_def isLocalTimeZone_def sample_window_def parse_samples local_instant_def
        seconds_of_def duration_defs local_day_def local_seconds_def utc_def)
  then show "IsTimeInWindows ref_env hour [sample_window] = (False, week)"
    by (simp add: IsTimeInWindows_def window_step_def Let_def evaluateWindow_def evaluateSameDayWindow_def)
       (simp add: duration_defs)
qed

end
