(* ===== verification/Controller_Common.thy ===== *)
theory Controller_Common
  imports Temporal Best_Match
begin

text \<open>
  What the reconcilers of \<open>internal/controller\<close> share: the combination of requeue delays, and
  the two ways a status condition of a WorkloadClass is written. A reconciler returns an error
  or the delay after which it is requeued, 0 meaning none. The laws of the client that several
  reconcilers rely on are stated here too.
\<close>

type_synonym requeue_result = "api_error + duration"

definition minPositiveDuration :: "duration \<Rightarrow> duration \<Rightarrow> duration" where
  "minPositiveDuration a b = (if a \<le> 0 then b else if b \<le> 0 then a else min a b)"

definition with_conditions :: "workload_class \<Rightarrow> condition list \<Rightarrow> workload_class" where
  "with_conditions w cs = w\<lparr>wc_status := (wc_status w)\<lparr>st_conditions := cs\<rparr>\<rparr>"

definition with_readiness :: "workload_class \<Rightarrow> string \<Rightarrow> workload_class" where
  "with_readiness w r = w\<lparr>wc_status := (wc_status w)\<lparr>st_readiness := r\<rparr>\<rparr>"

definition wc_key :: "workload_class \<Rightarrow> namespaced_name" where
  "wc_key w = (wc_namespace w, wc_name w)"

text \<open>\<open>client.IgnoreNotFound\<close>.\<close>

definition ignore_not_found :: "api_error \<Rightarrow> api_error option" where
  "ignore_not_found e = (if is_not_found e then None else Some e)"

lemma minPositiveDuration_pos:
  "0 < minPositiveDuration a b \<longleftrightarrow> 0 < a \<or> 0 < b"
  by (auto simp: minPositiveDuration_def)

lemma minPositiveDuration_le:
  "0 < a \<Longrightarrow> minPositiveDuration a b \<le> a" "0 < b \<Longrightarrow> minPositiveDuration a b \<le> b"
  by (auto simp: minPositiveDuration_def)

lemma minPositiveDuration_zero [simp]:
  "minPositiveDuration 0 b = b" "minPositiveDuration a 0 = (if 0 < a then a else 0)"
  by (auto simp: minPositiveDuration_def)

subsection \<open>Conditions and keys\<close>

lemma condition_lawsD:
  assumes "condition_laws E"
  shows "find_status_condition E cs ty = Some c \<Longrightarrow> c_type c = ty"
    "\<exists>x. find_status_condition E (fst (set_status_condition E now cs c)) (c_type c) = Some x \<and> same_content x c"
    "ty \<noteq> c_type c \<Longrightarrow>
      find_status_condition E (fst (set_status_condition E now cs c)) ty = find_status_condition E cs ty"
    "find_status_condition E (fst (remove_status_condition E cs ty)) ty = None"
    "find_status_condition E cs (c_type c) = Some x \<Longrightarrow> same_content x c \<Longrightarrow>
      set_status_condition E now cs c = (cs, False)"
    "find_status_condition E cs ty = None \<Longrightarrow> remove_status_condition E cs ty = (cs, False)"
  using assms by (simp_all add: condition_laws_def)

lemma condition_unchanged:
  assumes "condition_laws E"
  shows "set_status_condition E now cs c = (cs', False) \<Longrightarrow> cs' = cs"
    "remove_status_condition E cs ty = (cs', False) \<Longrightarrow> cs' = cs"
proof -
  have "\<not> snd (set_status_condition E now cs c) \<longrightarrow> fst (set_status_condition E now cs c) = cs"
      "\<not> snd (remove_status_condition E cs ty) \<longrightarrow> fst (remove_status_condition E cs ty) = cs"
    using assms by (simp_all add: condition_laws_def)
  then show "set_status_condition E now cs c = (cs', False) \<Longrightarrow> cs' = cs"
    "remove_status_condition E cs ty = (cs', False) \<Longrightarrow> cs' = cs" by simp_all
qed

lemma same_content_refl [simp]: "same_content c c"
  by (simp add: same_content_def)

lemma same_content_trans: "same_content a b \<Longrightarrow> same_content b c \<Longrightarrow> same_content a c"
  by (simp add: same_content_def)

lemma same_content_sym: "same_content a b \<Longrightarrow> same_content b a"
  by (simp add: same_content_def)

lemma with_conditions_fields [simp]:
  "wc_spec (with_conditions wc cs) = wc_spec wc" "wc_generation (with_conditions wc cs) = wc_generation wc"
  "wc_conditions (with_conditions wc cs) = cs" "wc_key (with_conditions wc cs) = wc_key wc"
  "wc_deletion (with_conditions wc cs) = wc_deletion wc" "with_conditions (with_conditions wc cs) cs' = with_conditions wc cs'"
  by (simp_all add: with_conditions_def wc_key_def)

lemma with_readiness_key [simp]: "wc_key (with_readiness wc r) = wc_key wc"
  by (simp add: with_readiness_def wc_key_def)

subsection \<open>The store of WorkloadClasses\<close>

lemma find_SomeD: "find P xs = Some x \<Longrightarrow> P x \<and> x \<in> set xs"
  by (induction xs) (auto split: if_splits)

lemma find_replace_by:
  "same b b \<Longrightarrow> find (same b) xs = Some y \<Longrightarrow> find (same b) (replace_by same b xs) = Some b"
  unfolding replace_by_def by (induction xs) (auto split: if_splits)

text \<open>What is relied on of \<open>Get\<close>: the object returned has the key asked for.\<close>

definition get_key_law :: "'s client \<Rightarrow> bool" where
  "get_key_law C = (\<forall>s ns nm w. get_wc C s ns nm = Inr w \<longrightarrow> wc_key w = (ns, nm))"

lemma get_key_law_ref: "get_key_law ref_client"
  by (auto simp: get_key_law_def wc_key_def fetch_def dest!: find_SomeD split: option.splits)

text \<open>What is relied on of status updates and of \<open>RetryOnConflict\<close>: a successful update stores the
  status of the object and leaves every other one alone, a failed one changes nothing; updates of
  a policy's status touch no WorkloadClass; a retried operation ends with the outcome of one of its
  attempts, made in a state that the earlier attempts lead to.\<close>

definition status_store_laws :: "'s client \<Rightarrow> bool" where
  "status_store_laws C =
     (get_key_law C \<and>
      (\<forall>w w0 s s'. get_wc C s (wc_namespace w) (wc_name w) = Inr w0 \<longrightarrow> wc_generation w = wc_generation w0 \<longrightarrow>
         update_wc_status C w s = (None, s') \<longrightarrow>
         (\<exists>w'. get_wc C s' (wc_namespace w) (wc_name w) = Inr w' \<and> wc_status w' = wc_status w \<and>
            wc_generation w' = wc_generation w0)) \<and>
      (\<forall>w s ns nm. (ns, nm) \<noteq> wc_key w \<longrightarrow>
         get_wc C (snd (update_wc_status C w s)) ns nm = get_wc C s ns nm) \<and>
      (\<forall>w s s' e ns nm. update_wc_status C w s = (Some e, s') \<longrightarrow> get_wc C s' ns nm = get_wc C s ns nm) \<and>
      (\<forall>s nm p. get_policy C s nm = Inr p \<longrightarrow> sp_name p = nm) \<and>
      (\<forall>s p. list_all_wcs C (snd (update_policy_status C p s)) = list_all_wcs C s))"

definition retry_law :: "'s client \<Rightarrow> bool" where
  "retry_law C =
     (\<forall>f s P. P s \<longrightarrow> (\<forall>s0. P s0 \<longrightarrow> P (snd (f s0))) \<longrightarrow> (\<exists>s1. P s1 \<and> retry_on_conflict C f s = f s1))"

lemma retry_lawE:
  assumes "retry_law C" "P s" "\<And>s0. P s0 \<Longrightarrow> P (snd (f s0))"
  obtains s1 where "P s1" "retry_on_conflict C f s = f s1"
proof -
  have "\<exists>s1. P s1 \<and> retry_on_conflict C f s = f s1"
    using assms(1) [unfolded retry_law_def, THEN spec, THEN spec, THEN spec, of P s f] assms(2,3) by simp
  then show thesis using that by blast
qed

lemma retry_law_ref: "retry_law ref_client"
  by (auto simp: retry_law_def)

lemma find_wc_replace_other:
  "(ns, nm) \<noteq> wc_key w \<Longrightarrow>
   find (\<lambda>x. wc_namespace x = ns \<and> wc_name x = nm) (replace_by same_wc w xs) =
   find (\<lambda>x. wc_namespace x = ns \<and> wc_name x = nm) xs"
  unfolding replace_by_def by (induction xs) (auto simp: same_wc_def wc_key_def)

lemma find_wc_replace_same:
  "find (\<lambda>x. wc_namespace x = wc_namespace w \<and> wc_name x = wc_name w) xs = Some w0 \<Longrightarrow>
   find (\<lambda>x. wc_namespace x = wc_namespace w \<and> wc_name x = wc_name w) (replace_by same_wc w xs) = Some w"
  unfolding replace_by_def by (induction xs) (auto simp: same_wc_def split: if_splits)

lemma status_store_laws_ref: "status_store_laws ref_client"
proof -
  have stored: "\<exists>w'. get_wc ref_client s' (wc_namespace w) (wc_name w) = Inr w' \<and> wc_status w' = wc_status w \<and>
      wc_generation w' = wc_generation w0"
    if "get_wc ref_client s (wc_namespace w) (wc_name w) = Inr w0" "wc_generation w = wc_generation w0"
      "update_wc_status ref_client w s = (None, s')" for w w0 s s'
    using that by (auto simp: fetch_def find_wc_replace_same split: option.splits)
  have other: "get_wc ref_client (snd (update_wc_status ref_client w s)) ns nm = get_wc ref_client s ns nm"
    if "(ns, nm) \<noteq> wc_key w" for w s ns nm
    using find_wc_replace_other [OF that] by simp
  have named: "sp_name p = nm" if "get_policy ref_client s nm = Inr p" for s nm p
    using that by (auto simp: fetch_def dest!: find_SomeD split: option.splits)
  have listed: "list_all_wcs ref_client (snd (update_policy_status ref_client p s)) = list_all_wcs ref_client s" for p s
    by (simp add: ref_client_def)
  have failed: "get_wc ref_client s' ns nm = get_wc ref_client s ns nm"
    if "update_wc_status ref_client w s = (Some e, s')" for w s s' e ns nm
    using that by simp
  show ?thesis
    unfolding status_store_laws_def
    by (intro conjI get_key_law_ref allI impI)
       (rule stored, assumption+, erule other, erule failed, erule named, rule listed)
qed

lemma status_store_lawsD:
  assumes "status_store_laws C"
  shows "get_wc C s ns nm = Inr w \<Longrightarrow> wc_namespace w = ns \<and> wc_name w = nm"
    "get_wc C s (wc_namespace w) (wc_name w) = Inr w0 \<Longrightarrow> wc_generation w = wc_generation w0 \<Longrightarrow>
       update_wc_status C w s = (None, s') \<Longrightarrow>
       \<exists>w'. get_wc C s' (wc_namespace w) (wc_name w) = Inr w' \<and> wc_conditions w' = wc_conditions w \<and>
          wc_generation w' = wc_generation w0"
    "(ns, nm) \<noteq> wc_key w \<Longrightarrow> get_wc C (snd (update_wc_status C w s)) ns nm = get_wc C s ns nm"
    "update_wc_status C w s = (Some e, s') \<Longrightarrow> get_wc C s' ns nm = get_wc C s ns nm"
    "get_policy C s nm = Inr p \<Longrightarrow> sp_name p = nm"
    "list_all_wcs C (snd (update_policy_status C p s)) = list_all_wcs C s"
    "get_wc C s (wc_namespace w) (wc_name w) = Inr w0 \<Longrightarrow> wc_generation w = wc_generation w0 \<Longrightarrow>
       update_wc_status C w s = (None, s') \<Longrightarrow>
       \<exists>w'. get_wc C s' (wc_namespace w) (wc_name w) = Inr w' \<and> wc_status w' = wc_status w \<and>
          wc_generation w' = wc_generation w0"
proof -
  note laws = assms [unfolded status_store_laws_def get_key_law_def wc_key_def]
  note l1 = laws [THEN conjunct1] and l = laws [THEN conjunct2]
  show "get_wc C s ns nm = Inr w \<Longrightarrow> wc_namespace w = ns \<and> wc_name w = nm" using l1 by auto
  show stored: "get_wc C s (wc_namespace w) (wc_name w) = Inr w0 \<Longrightarrow> wc_generation w = wc_generation w0 \<Longrightarrow>
       update_wc_status C w s = (None, s') \<Longrightarrow>
       \<exists>w'. get_wc C s' (wc_namespace w) (wc_name w) = Inr w' \<and> wc_status w' = wc_status w \<and>
          wc_generation w' = wc_generation w0" using l [THEN conjunct1] by blast
  show "get_wc C s (wc_namespace w) (wc_name w) = Inr w0 \<Longrightarrow> wc_generation w = wc_generation w0 \<Longrightarrow>
       update_wc_status C w s = (None, s') \<Longrightarrow>
       \<exists>w'. get_wc C s' (wc_namespace w) (wc_name w) = Inr w' \<and> wc_conditions w' = wc_conditions w \<and>
          wc_generation w' = wc_generation w0" using stored by metis
  show "(ns, nm) \<noteq> wc_key w \<Longrightarrow> get_wc C (snd (update_wc_status C w s)) ns nm = get_wc C s ns nm"
    using l [THEN conjunct2, THEN conjunct1] unfolding wc_key_def by blast
  show "update_wc_status C w s = (Some e, s') \<Longrightarrow> get_wc C s' ns nm = get_wc C s ns nm"
    using l [THEN conjunct2, THEN conjunct2, THEN conjunct1] by blast
  show "get_policy C s nm = Inr p \<Longrightarrow> sp_name p = nm"
    using l [THEN conjunct2, THEN conjunct2, THEN conjunct2, THEN conjunct1] by blast
  show "list_all_wcs C (snd (update_policy_status C p s)) = list_all_wcs C s"
    using l [THEN conjunct2, THEN conjunct2, THEN conjunct2, THEN conjunct2] by blast
qed

end
