(* ===== verification/Status_Writer.thy ===== *)
theory Status_Writer
  imports Controller_Common
begin

text \<open>
  The contract of an operation that edits the conditions of a stored WorkloadClass under
  \<open>RetryOnConflict\<close>, which \<open>spot_fallback.go\<close> and \<open>gkespotplacementpolicy_controller.go\<close> both have: an
  attempt reads the latest WorkloadClass, edits its conditions and updates the status if the edit
  changed anything; a WorkloadClass that is gone is no error. The lemmas of the locale say what holds
  after an attempt and after all of them; the two operations are interpreted where they are defined.
\<close>

text \<open>The WorkloadClass of the key is gone or has the property.\<close>

definition settled :: "(workload_class \<Rightarrow> bool) \<Rightarrow> 's client \<Rightarrow> 's \<Rightarrow> namespaced_name \<Rightarrow> bool" where
  "settled P C s k = (case get_wc C s (fst k) (snd k) of Inl e \<Rightarrow> is_not_found e | Inr w \<Rightarrow> P w)"

locale status_writer =
  fixes attempt :: "env \<Rightarrow> 's client \<Rightarrow> go_time \<Rightarrow> workload_class \<Rightarrow> 'd \<Rightarrow> 's \<Rightarrow> (api_error option \<times> workload_class) \<times> 's"
    and edit :: "env \<Rightarrow> go_time \<Rightarrow> 'd \<Rightarrow> workload_class \<Rightarrow> condition list \<times> bool"
    and established :: "env \<Rightarrow> 'd \<Rightarrow> workload_class \<Rightarrow> bool"
    and fit :: "'d \<Rightarrow> bool"
  assumes attempt_missing: "get_wc C s (wc_namespace wc) (wc_name wc) = Inl e \<Longrightarrow>
      attempt E C now wc d s = ((ignore_not_found e, wc), s)"
    and attempt_found: "get_wc C s (wc_namespace wc) (wc_name wc) = Inr latest \<Longrightarrow> edit E now d latest = (cs, changed) \<Longrightarrow>
      fst (fst (attempt E C now wc d s)) = (if changed then fst (update_wc_status C (with_conditions latest cs) s) else None) \<and>
      snd (attempt E C now wc d s) = (if changed then snd (update_wc_status C (with_conditions latest cs) s) else s)"
    and edit_establishes: "condition_laws E \<Longrightarrow> fit d \<Longrightarrow> edit E now d latest = (cs, changed) \<Longrightarrow>
      wc_conditions w = cs \<Longrightarrow> wc_generation w = wc_generation latest \<Longrightarrow> established E d w"
    and edit_unchanged: "condition_laws E \<Longrightarrow> edit E now d latest = (cs, False) \<Longrightarrow> cs = wc_conditions latest"
begin

text \<open>What no status update changes, no attempt changes.\<close>

lemma attempt_frame:
  assumes "\<And>w. v (snd (update_wc_status C w s)) = v s"
  shows "v (snd (attempt E C now wc d s)) = v s"
proof (cases "get_wc C s (wc_namespace wc) (wc_name wc)")
  case (Inl e)
  then show ?thesis by (simp add: attempt_missing)
next
  case (Inr latest)
  obtain cs changed where "edit E now d latest = (cs, changed)" by (cases "edit E now d latest")
  from attempt_found [OF Inr this] show ?thesis using assms by simp
qed

lemma attempt_other:
  assumes "status_store_laws C" "(ns, nm) \<noteq> wc_key wc"
  shows "get_wc C (snd (attempt E C now wc d s)) ns nm = get_wc C s ns nm"
proof (cases "get_wc C s (wc_namespace wc) (wc_name wc)")
  case (Inl e)
  then show ?thesis by (simp add: attempt_missing)
next
  case (Inr latest)
  obtain cs changed where edit: "edit E now d latest = (cs, changed)" by (cases "edit E now d latest")
  have "wc_key latest = wc_key wc" using status_store_lawsD(1) [OF assms(1) Inr] by (simp add: wc_key_def)
  then have "get_wc C (snd (update_wc_status C (with_conditions latest cs) s)) ns nm = get_wc C s ns nm"
    using assms(2) by (intro status_store_lawsD(3) [OF assms(1)]) simp
  then show ?thesis using attempt_found [OF Inr edit] by simp
qed

lemma attempt_failed:
  assumes "status_store_laws C" "fst (fst (attempt E C now wc d s)) = Some e"
  shows "get_wc C (snd (attempt E C now wc d s)) ns nm = get_wc C s ns nm"
proof (cases "get_wc C s (wc_namespace wc) (wc_name wc)")
  case (Inl e)
  then show ?thesis by (simp add: attempt_missing)
next
  case (Inr latest)
  obtain cs changed where edit: "edit E now d latest = (cs, changed)" by (cases "edit E now d latest")
  note found = attempt_found [OF Inr edit]
  then have "changed" "fst (update_wc_status C (with_conditions latest cs) s) = Some e"
    using assms(2) by (auto split: if_splits)
  then have "update_wc_status C (with_conditions latest cs) s = (Some e, snd (update_wc_status C (with_conditions latest cs) s))"
    by (metis surjective_pairing)
  from status_store_lawsD(4) [OF assms(1) this] show ?thesis using found \<open>changed\<close> by simp
qed

text \<open>An attempt on a stored WorkloadClass that succeeds stores the edited conditions.\<close>

lemma attempt_stores:
  assumes "status_store_laws C" "condition_laws E" "fit d"
    and "get_wc C s (wc_namespace wc) (wc_name wc) = Inr latest" "fst (fst (attempt E C now wc d s)) = None"
  shows "\<exists>w. get_wc C (snd (attempt E C now wc d s)) (wc_namespace wc) (wc_name wc) = Inr w \<and>
    wc_conditions w = fst (edit E now d latest) \<and> established E d w"
proof -
  obtain cs changed where edit: "edit E now d latest = (cs, changed)" by (cases "edit E now d latest")
  note found = attempt_found [OF assms(4) edit] and establishes = edit_establishes [OF assms(2,3) edit]
  have key: "wc_namespace latest = wc_namespace wc" "wc_name latest = wc_name wc"
    using status_store_lawsD(1) [OF assms(1,4)] by simp_all
  show ?thesis
  proof (cases changed)
    case False
    then have "wc_conditions latest = cs" using edit_unchanged [OF assms(2)] edit by simp
    then show ?thesis using found False assms(4) edit establishes [of latest] by simp
  next
    case True
    obtain s' where up: "update_wc_status C (with_conditions latest cs) s = (None, s')"
      using found True assms(5) by (metis surjective_pairing)
    have "\<exists>w. get_wc C s' (wc_namespace wc) (wc_name wc) = Inr w \<and> wc_conditions w = cs \<and> wc_generation w = wc_generation latest"
      using status_store_lawsD(2) [OF assms(1), of s "with_conditions latest cs" latest s'] up assms(4) key
      by (simp add: with_conditions_def)
    then show ?thesis using found True up edit establishes by auto
  qed
qed

lemma attempt_done:
  assumes "status_store_laws C" "condition_laws E" "fit d" "fst (fst (attempt E C now wc d s)) = None"
  shows "settled (established E d) C (snd (attempt E C now wc d s)) (wc_key wc)"
proof (cases "get_wc C s (wc_namespace wc) (wc_name wc)")
  case (Inl e)
  then show ?thesis
    using assms(4) by (simp add: attempt_missing settled_def wc_key_def ignore_not_found_def split: if_splits)
next
  case (Inr latest)
  then show ?thesis using attempt_stores [OF assms(1-3) Inr assms(4)] by (auto simp: settled_def wc_key_def)
qed

text \<open>What was settled stays so, whatever WorkloadClass is written.\<close>

lemma attempt_keeps:
  assumes "status_store_laws C" "condition_laws E" "fit d" "settled (established E d) C s k"
  shows "settled (established E d) C (snd (attempt E C now wc d s)) k"
proof (cases "k = wc_key wc \<and> fst (fst (attempt E C now wc d s)) = None")
  case True
  then show ?thesis using attempt_done [OF assms(1-3)] by simp
next
  case False
  then have "get_wc C (snd (attempt E C now wc d s)) (fst k) (snd k) = get_wc C s (fst k) (snd k)"
    using attempt_other [OF assms(1), of "fst k" "snd k" wc] attempt_failed [OF assms(1)]
    by (cases "fst (fst (attempt E C now wc d s))") auto
  then show ?thesis using assms(4) by (simp add: settled_def)
qed

text \<open>An attempt never makes a stored WorkloadClass unreadable.\<close>

lemma attempt_exists:
  assumes "status_store_laws C" "condition_laws E" "fit d" "\<exists>w. get_wc C s (wc_namespace wc) (wc_name wc) = Inr w"
  shows "\<exists>w. get_wc C (snd (attempt E C now wc d s)) (wc_namespace wc) (wc_name wc) = Inr w"
proof (cases "fst (fst (attempt E C now wc d s))")
  case None
  then show ?thesis using attempt_stores [OF assms(1-3)] assms(4) by blast
next
  case (Some e)
  then show ?thesis using attempt_failed [OF assms(1)] assms(4) by simp
qed

text \<open>With the retries around it.\<close>

lemma retried_done:
  assumes "status_store_laws C" "condition_laws E" "retry_law C" "fit d"
    and "fst (fst (retry_on_conflict C (attempt E C now wc d) s)) = None"
  shows "settled (established E d) C (snd (retry_on_conflict C (attempt E C now wc d) s)) (wc_key wc)"
proof -
  obtain s1 where "retry_on_conflict C (attempt E C now wc d) s = attempt E C now wc d s1"
    by (rule retry_lawE [OF assms(3), of "\<lambda>_. True"]) simp_all
  then show ?thesis using assms(5) attempt_done [OF assms(1,2,4)] by simp
qed

lemma retried_keeps:
  assumes "status_store_laws C" "condition_laws E" "retry_law C" "fit d" "settled (established E d) C s k"
  shows "settled (established E d) C (snd (retry_on_conflict C (attempt E C now wc d) s)) k"
proof -
  obtain s1 where "settled (established E d) C s1 k" "retry_on_conflict C (attempt E C now wc d) s = attempt E C now wc d s1"
    by (rule retry_lawE [OF assms(3), of "\<lambda>s. settled (established E d) C s k", OF assms(5) attempt_keeps [OF assms(1,2,4)]])
  then show ?thesis using attempt_keeps [OF assms(1,2,4)] by simp
qed

lemma retried_stores:
  assumes "status_store_laws C" "condition_laws E" "retry_law C" "fit d"
    and "\<exists>w. get_wc C s (wc_namespace wc) (wc_name wc) = Inr w" "retry_on_conflict C (attempt E C now wc d) s = ((None, wc'), s')"
  obtains s1 latest w where "get_wc C s1 (wc_namespace wc) (wc_name wc) = Inr latest" "attempt E C now wc d s1 = ((None, wc'), s')"
    "get_wc C s' (wc_namespace wc) (wc_name wc) = Inr w" "wc_conditions w = fst (edit E now d latest)" "established E d w"
proof -
  obtain s1 where s1: "\<exists>w. get_wc C s1 (wc_namespace wc) (wc_name wc) = Inr w"
      "retry_on_conflict C (attempt E C now wc d) s = attempt E C now wc d s1"
    by (rule retry_lawE [OF assms(3), of "\<lambda>s. \<exists>w. get_wc C s (wc_namespace wc) (wc_name wc) = Inr w", OF assms(5)
          attempt_exists [OF assms(1,2,4)]])
  then obtain latest where "get_wc C s1 (wc_namespace wc) (wc_name wc) = Inr latest" by blast
  moreover have run: "attempt E C now wc d s1 = ((None, wc'), s')" using s1(2) assms(6) by simp
  ultimately show thesis
    using attempt_stores [OF assms(1,2,4), of s1 wc latest now] that by auto
qed

lemma retried_frame:
  assumes "retry_law C" "\<And>w s. v (snd (update_wc_status C w s)) = v s"
  shows "v (snd (retry_on_conflict C (attempt E C now wc d) s)) = v s"
proof -
  obtain s1 where "v s1 = v s" "retry_on_conflict C (attempt E C now wc d) s = attempt E C now wc d s1"
    by (rule retry_lawE [OF assms(1), of "\<lambda>s1. v s1 = v s" s "attempt E C now wc d"])
       (simp_all add: attempt_frame [of v, OF assms(2)])
  then show ?thesis using attempt_frame [of v, OF assms(2)] by simp
qed

end

end
