(* ===== verification/Spot_Fallback.thy ===== *)
theory Spot_Fallback
  imports Status_Writer "HOL-Library.Product_Lexorder"
begin

text \<open>
  \<open>internal/controller/spot_fallback.go\<close>: the InFallback condition of a WorkloadClass, computed
  from the placement of its Pods and persisted with a retry on conflicts; then what the stored
  condition means.
\<close>

abbreviation fallbackActiveMsg :: string where
  "fallbackActiveMsg \<equiv> ''One or more Spot-targeted Pods are running on On-Demand fallback nodes''"
abbreviation spotTargetMetMsg :: string where
  "spotTargetMetMsg \<equiv> ''No Spot-targeted Pods are running on On-Demand fallback nodes''"
abbreviation scaledToZeroMsg :: string where
  "scaledToZeroMsg \<equiv> ''The workload has no active Pods''"

definition tracksFallback :: "env \<Rightarrow> workload_class \<Rightarrow> bool" where
  "tracksFallback E wc =
     (TargetsSpot E (Some wc) \<and>
      (case wc_capacity wc of None \<Rightarrow> False | Some cs \<Rightarrow> cs_fallback cs = FallbackActionFallbackToOnDemand))"

subsection \<open>Classification of the workload's Pods\<close>

record workload_pods =
  wp_active :: int
  wp_spot :: int
  wp_pending_spot :: int
  wp_fallback :: "pod list"

definition no_pods :: workload_pods where
  "no_pods = \<lparr>wp_active = 0, wp_spot = 0, wp_pending_spot = 0, wp_fallback = []\<rparr>"

definition effectiveSpot :: "workload_pods \<Rightarrow> int" where
  "effectiveSpot pods = i64 (wp_spot pods + wp_pending_spot pods)"

text \<open>\<open>podFallbackStartTime\<close> of spot_reversion.go.\<close>

definition scheduled_condition :: "pod_condition \<Rightarrow> bool" where
  "scheduled_condition c =
     (pcd_type c = ''PodScheduled'' \<and> pcd_status c = ConditionTrue \<and> pcd_transition c \<noteq> 0)"

definition podFallbackStartTime :: "pod \<Rightarrow> go_time" where
  "podFallbackStartTime p =
     (case pod_start p of
        Some t \<Rightarrow> if t \<noteq> 0 then t
          else (case find scheduled_condition (pod_conditions p) of
              Some c \<Rightarrow> pcd_transition c | None \<Rightarrow> pod_created p)
      | None \<Rightarrow> (case find scheduled_condition (pod_conditions p) of
              Some c \<Rightarrow> pcd_transition c | None \<Rightarrow> pod_created p))"

definition listSpotNodeNames :: "'s client \<Rightarrow> 's \<Rightarrow> api_error + string set" where
  "listSpotNodeNames C s =
     (case list_nodes C s SpotLabelKey SpotLabelValue of
        Inl err \<Rightarrow> Inl (wrap_error ''failed to list Spot nodes: '' err)
      | Inr items \<Rightarrow> Inr (set (map node_name items)))"

text \<open>The switch of the loop, for a Pod that counts.\<close>

definition classify_pod :: "string set \<Rightarrow> pod \<Rightarrow> workload_pods \<Rightarrow> workload_pods" where
  "classify_pod spot_nodes p acc =
     (let acc1 = acc\<lparr>wp_active := wp_active acc + 1\<rparr>;
          targeted = IsPodTargetedForSpot (Some p)
      in if pod_node p = '''' then
           (if targeted then acc1\<lparr>wp_pending_spot := wp_pending_spot acc1 + 1\<rparr> else acc1)
         else if pod_node p \<in> spot_nodes then acc1\<lparr>wp_spot := wp_spot acc1 + 1\<rparr>
         else if targeted then acc1\<lparr>wp_fallback := wp_fallback acc1 @ [p]\<rparr>
         else acc1)"

fun classify_loop ::
  "env \<Rightarrow> 's client \<Rightarrow> 's \<Rightarrow> workload_class \<Rightarrow> bool \<Rightarrow> string set \<Rightarrow> pod list \<Rightarrow> workload_pods
    \<Rightarrow> api_error + workload_pods" where
  "classify_loop E C s wc check spot_nodes [] acc = Inr acc"
| "classify_loop E C s wc check spot_nodes (p # ps) acc =
     (if \<not> IsPodActive (Some p) then classify_loop E C s wc check spot_nodes ps acc
      else if check then
        (case FindBestMatchWorkloadClass E C s False (Some p) of
           Inl err \<Rightarrow> Inl (wrap_error (''failed to find best match WorkloadClass for Pod '' @ pod_name p @ '': '') err)
         | Inr (None, ev) \<Rightarrow> classify_loop E C s wc check spot_nodes ps acc
         | Inr (Some b, ev) \<Rightarrow>
             if wc_name b \<noteq> wc_name wc then classify_loop E C s wc check spot_nodes ps acc
             else classify_loop E C s wc check spot_nodes ps (classify_pod spot_nodes p acc))
      else classify_loop E C s wc check spot_nodes ps (classify_pod spot_nodes p acc))"

definition sort_fallback :: "pod list \<Rightarrow> pod list" where
  "sort_fallback ps = sort_key (\<lambda>p. (podFallbackStartTime p, pod_name p)) ps"

definition classifyWorkloadPods ::
  "env \<Rightarrow> 's client \<Rightarrow> 's \<Rightarrow> workload_class \<Rightarrow> string set \<Rightarrow> api_error + workload_pods" where
  "classifyWorkloadPods E C s wc spot_nodes =
     bind_result (WorkloadClassPodSelector E C s wc) (\<lambda>selector.
     case list_pods C s (wc_namespace wc) selector of
       Inl err \<Rightarrow> Inl (wrap_error ''failed to list Pods: '' err)
     | Inr pods \<Rightarrow>
         (case list_wcs C s (wc_namespace wc) of
            Inl err \<Rightarrow> Inl (wrap_error ''failed to list WorkloadClasses: '' err)
          | Inr wcs \<Rightarrow>
              bind_result (classify_loop E C s wc (length wcs > 1) spot_nodes pods no_pods) (\<lambda>r.
                Inr (r\<lparr>wp_fallback := sort_fallback (wp_fallback r)\<rparr>))))"

subsection \<open>The InFallback condition\<close>

definition reversionActionFor :: "spot_policy option \<Rightarrow> string" where
  "reversionActionFor policy =
     (case policy of None \<Rightarrow> LazyReversionAction
      | Some p \<Rightarrow> if rp_action (ps_reversion (sp_spec p)) = '''' then NoneReversionAction
                  else rp_action (ps_reversion (sp_spec p)))"

definition fallback_condition :: "workload_class \<Rightarrow> string \<Rightarrow> string \<Rightarrow> string \<Rightarrow> condition" where
  "fallback_condition wc status reason msg =
     \<lparr>c_type = ConditionTypeInFallback, c_status = status, c_reason = reason, c_message = msg,
      c_observed = wc_generation wc, c_transition = 0\<rparr>"

definition desiredFallbackCondition ::
  "env \<Rightarrow> workload_class \<Rightarrow> workload_pods \<Rightarrow> string \<Rightarrow> condition option \<times> bool" where
  "desiredFallbackCondition E wc pods reversion =
     (if \<not> tracksFallback E wc then (None, False)
      else let latched = is_status_condition_true E (wc_conditions wc) ConditionTypeInFallback
           in if length (wp_fallback pods) > 0 then
                (Some (fallback_condition wc ConditionTrue ReasonFallbackActive fallbackActiveMsg), False)
              else if latched \<and> reversion = NoneReversionAction \<and> wp_active pods > 0 then (None, True)
              else if wp_active pods = 0 then
                (Some (fallback_condition wc ConditionFalse ReasonSpotTargetMet scaledToZeroMsg), False)
              else (Some (fallback_condition wc ConditionFalse ReasonSpotTargetMet spotTargetMetMsg), False))"

text \<open>One attempt of \<open>setFallbackCondition\<close>: the error and the WorkloadClass updated in place.\<close>

definition fallback_attempt ::
  "env \<Rightarrow> 's client \<Rightarrow> go_time \<Rightarrow> workload_class \<Rightarrow> condition option \<Rightarrow> 's
    \<Rightarrow> (api_error option \<times> workload_class) \<times> 's" where
  "fallback_attempt E C now wc desired s =
     (case get_wc C s (wc_namespace wc) (wc_name wc) of
        Inl err \<Rightarrow> ((ignore_not_found err, wc), s)
      | Inr latest \<Rightarrow>
          let (cs, changed) = (case desired of
                None \<Rightarrow> remove_status_condition E (wc_conditions latest) ConditionTypeInFallback
              | Some c \<Rightarrow> set_status_condition E now (wc_conditions latest) c)
          in if \<not> changed then ((None, with_conditions wc cs), s)
             else case update_wc_status C (with_conditions latest cs) s of
                 (Some err, s') \<Rightarrow> ((Some err, wc), s')
               | (None, s') \<Rightarrow> ((None, with_conditions wc cs), s'))"

definition setFallbackCondition ::
  "env \<Rightarrow> 's client \<Rightarrow> go_time \<Rightarrow> workload_class \<Rightarrow> condition option \<Rightarrow> 's
    \<Rightarrow> (api_error option \<times> workload_class) \<times> 's" where
  "setFallbackCondition E C now wc desired s =
     retry_on_conflict C (fallback_attempt E C now wc desired) s"

definition clearFallbackState ::
  "env \<Rightarrow> 's client \<Rightarrow> go_time \<Rightarrow> workload_class \<Rightarrow> 's \<Rightarrow> (api_error option \<times> workload_class) \<times> 's" where
  "clearFallbackState E C now wc s = setFallbackCondition E C now wc None s"

definition tracked_pods :: "env \<Rightarrow> 's client \<Rightarrow> 's \<Rightarrow> workload_class \<Rightarrow> api_error + workload_pods" where
  "tracked_pods E C s wc =
     (if tracksFallback E wc then
        bind_result (listSpotNodeNames C s) (\<lambda>spot_nodes. classifyWorkloadPods E C s wc spot_nodes)
      else Inr no_pods)"

definition reconcileFallbackState ::
  "env \<Rightarrow> 's client \<Rightarrow> go_time \<Rightarrow> workload_class \<Rightarrow> spot_policy option \<Rightarrow> 's
    \<Rightarrow> (api_error + workload_pods \<times> workload_class) \<times> 's" where
  "reconcileFallbackState E C now wc policy s =
     (case tracked_pods E C s wc of
        Inl err \<Rightarrow> (Inl err, s)
      | Inr pods \<Rightarrow>
          let (desired, keep) = desiredFallbackCondition E wc pods (reversionActionFor policy)
          in if keep then (Inr (pods, wc), s)
             else case setFallbackCondition E C now wc desired s of
                 ((Some err, wc'), s') \<Rightarrow> (Inl err, s')
               | ((None, wc'), s') \<Rightarrow> (Inr (pods, wc'), s'))"

definition attachedPolicy ::
  "env \<Rightarrow> 's client \<Rightarrow> 's \<Rightarrow> workload_class \<Rightarrow> api_error + spot_policy option" where
  "attachedPolicy E C s wc =
     (case wc_infra wc of
        None \<Rightarrow> Inr None
      | Some ref \<Rightarrow>
          if \<not> ReferencesGKESpotPlacementPolicy (Some ref) \<or>
             \<not> is_status_condition_true E (wc_conditions wc) ConditionTypePlacementPluginAttached then Inr None
          else (case get_policy C s (ir_name ref) of
              Inl err \<Rightarrow> if is_not_found err then Inr None
                else Inl (wrap_error (''failed to get GKESpotPlacementPolicy '' @ ir_name ref @ '': '') err)
            | Inr policy \<Rightarrow> Inr (Some policy)))"

subsection \<open>Watches\<close>

definition pod_placement_created :: "pod \<Rightarrow> bool" where
  "pod_placement_created p = (pod_node p \<noteq> '''')"

definition pod_placement_updated :: "pod \<Rightarrow> pod \<Rightarrow> bool" where
  "pod_placement_updated old_pod new_pod =
     (pod_node old_pod \<noteq> pod_node new_pod \<or> IsPodActive (Some old_pod) \<noteq> IsPodActive (Some new_pod))"

definition findWorkloadClassForPod :: "env \<Rightarrow> 's client \<Rightarrow> 's \<Rightarrow> pod \<Rightarrow> namespaced_name list" where
  "findWorkloadClassForPod E C s p =
     (case list_wcs C s (pod_namespace p) of
        Inl err \<Rightarrow> []
      | Inr items \<Rightarrow>
          if length items = 0 then []
          else (case FindBestMatchWorkloadClass E C s False (Some p) of
              Inl err \<Rightarrow> []
            | Inr (None, ev) \<Rightarrow> []
            | Inr (Some wc, ev) \<Rightarrow>
                if \<not> IsGKESpotManaged (Some wc) \<or> \<not> tracksFallback E wc then [] else [wc_key wc]))"

definition findWorkloadClassesForPolicy :: "env \<Rightarrow> 's client \<Rightarrow> 's \<Rightarrow> spot_policy \<Rightarrow> namespaced_name list" where
  "findWorkloadClassesForPolicy E C s policy =
     (case list_all_wcs C s of
        Inl err \<Rightarrow> []
      | Inr items \<Rightarrow>
          map wc_key (filter (\<lambda>wc. case wc_infra wc of None \<Rightarrow> False
            | Some ref \<Rightarrow> ReferencesGKESpotPlacementPolicy (Some ref) \<and> ir_name ref = sp_name policy \<and>
                tracksFallback E wc) items))"

subsection \<open>What the classification counts\<close>

text \<open>The Pods that count for the WorkloadClass: active ones, and where several WorkloadClasses share the
  namespace, only those it is the best match of.\<close>

definition counted_pod :: "env \<Rightarrow> 's client \<Rightarrow> 's \<Rightarrow> workload_class \<Rightarrow> bool \<Rightarrow> pod \<Rightarrow> bool" where
  "counted_pod E C s wc check p =
     (IsPodActive (Some p) \<and>
      (check \<longrightarrow> (\<exists>b ev. FindBestMatchWorkloadClass E C s False (Some p) = Inr (Some b, ev) \<and> wc_name b = wc_name wc)))"

definition fallen_back :: "string set \<Rightarrow> pod \<Rightarrow> bool" where
  "fallen_back spot_nodes p \<longleftrightarrow>
     IsPodTargetedForSpot (Some p) \<and> pod_node p \<noteq> '''' \<and> pod_node p \<notin> spot_nodes"

lemma classify_loop_counted:
  "classify_loop E C s wc check spot_nodes ps acc = Inr r \<Longrightarrow>
   r = fold (classify_pod spot_nodes) (filter (counted_pod E C s wc check) ps) acc"
  by (induction ps arbitrary: acc)
     (auto simp: counted_pod_def split: if_splits sum.splits prod.splits option.splits)

lemma classify_fold:
  "wp_active (fold (classify_pod spot_nodes) ps acc) = wp_active acc + int (length ps)"
  "wp_fallback (fold (classify_pod spot_nodes) ps acc) = wp_fallback acc @ filter (fallen_back spot_nodes) ps"
  by (induction ps arbitrary: acc) (simp_all add: classify_pod_def Let_def fallen_back_def)

lemma sort_fallback_Nil [simp]: "sort_fallback ps = [] \<longleftrightarrow> ps = []"
  by (simp add: sort_fallback_def flip: length_0_conv)

lemma classifyWorkloadPods_counts:
  assumes "classifyWorkloadPods E C s wc spot_nodes = Inr r"
    and "WorkloadClassPodSelector E C s wc = Inr selector" "list_pods C s (wc_namespace wc) selector = Inr ps"
    and "list_wcs C s (wc_namespace wc) = Inr wcs"
    and "counted = filter (counted_pod E C s wc (1 < length wcs)) ps"
  shows "wp_active r = int (length counted)" "wp_fallback r = sort_fallback (filter (fallen_back spot_nodes) counted)"
proof -
  obtain r0 where "classify_loop E C s wc (1 < length wcs) spot_nodes ps no_pods = Inr r0"
      "r = r0\<lparr>wp_fallback := sort_fallback (wp_fallback r0)\<rparr>"
    using assms(1-4) by (auto simp: classifyWorkloadPods_def bind_result_Inr_iff)
  then show "wp_active r = int (length counted)" "wp_fallback r = sort_fallback (filter (fallen_back spot_nodes) counted)"
    using classify_loop_counted [of E C s wc "1 < length wcs" spot_nodes ps no_pods r0] assms(5)
    by (simp_all add: classify_fold no_pods_def)
qed

subsection \<open>The stored condition\<close>

definition fallback_stored :: "env \<Rightarrow> condition option \<Rightarrow> workload_class \<Rightarrow> bool" where
  "fallback_stored E desired w =
     (case desired of
        None \<Rightarrow> find_status_condition E (wc_conditions w) ConditionTypeInFallback = None
      | Some c \<Rightarrow> \<exists>x. find_status_condition E (wc_conditions w) ConditionTypeInFallback = Some x \<and> same_content x c)"

text \<open>\<open>setFallbackCondition\<close> is a status writer: its edit sets or removes the condition.\<close>

definition fallback_edit :: "env \<Rightarrow> go_time \<Rightarrow> condition option \<Rightarrow> workload_class \<Rightarrow> condition list \<times> bool" where
  "fallback_edit E now desired latest =
     (case desired of
        None \<Rightarrow> remove_status_condition E (wc_conditions latest) ConditionTypeInFallback
      | Some c \<Rightarrow> set_status_condition E now (wc_conditions latest) c)"

definition fallback_fit :: "condition option \<Rightarrow> bool" where
  "fallback_fit desired = (\<forall>c. desired = Some c \<longrightarrow> c_type c = ConditionTypeInFallback)"

lemma fallback_attempt_edit:
  "get_wc C s (wc_namespace wc) (wc_name wc) = Inr latest \<Longrightarrow>
   fallback_attempt E C now wc desired s =
     (let (cs, changed) = fallback_edit E now desired latest
      in if \<not> changed then ((None, with_conditions wc cs), s)
         else case update_wc_status C (with_conditions latest cs) s of
             (Some err, s') \<Rightarrow> ((Some err, wc), s') | (None, s') \<Rightarrow> ((None, with_conditions wc cs), s'))"
  by (simp add: fallback_attempt_def fallback_edit_def)

lemma fallback_stored_edit:
  assumes "condition_laws E" "fallback_fit desired" "fallback_edit E now desired latest = (cs, changed)" "wc_conditions w = cs"
  shows "fallback_stored E desired w"
proof (cases desired)
  case None
  then show ?thesis
    using assms(3,4) condition_lawsD(4) [OF assms(1), of "wc_conditions latest" ConditionTypeInFallback]
    by (simp add: fallback_stored_def fallback_edit_def)
next
  case (Some c)
  then show ?thesis
    using assms(2-4) condition_lawsD(2) [OF assms(1), of now "wc_conditions latest" c]
    by (simp add: fallback_stored_def fallback_edit_def fallback_fit_def)
qed

interpretation in_fallback: status_writer fallback_attempt fallback_edit fallback_stored fallback_fit
proof (unfold_locales, goal_cases)
  case (1 C s wc e E now d)
  then show ?case by (simp add: fallback_attempt_def)
next
  case (2 C s wc latest E now d cs changed)
  then show ?case by (simp add: fallback_attempt_edit split: prod.split option.split)
next
  case (3 E d now latest cs changed w)
  then show ?case using fallback_stored_edit by blast
next
  case (4 E now d latest cs)
  then show ?case using condition_unchanged by (auto simp: fallback_edit_def split: option.splits)
qed

lemma fallback_attempt_in_place:
  "get_wc C s (wc_namespace wc) (wc_name wc) = Inr latest \<Longrightarrow> fallback_attempt E C now wc desired s = ((None, wc'), s') \<Longrightarrow>
   wc_conditions wc' = fst (fallback_edit E now desired latest)"
  by (auto simp: fallback_attempt_edit split: prod.splits option.splits if_splits)

lemma condition_true_iff:
  "condition_laws E \<Longrightarrow> is_status_condition_true E cs ty \<longleftrightarrow>
     (\<exists>c. find_status_condition E cs ty = Some c \<and> c_status c = ConditionTrue)"
  by (simp add: condition_laws_def split: option.split)

lemma desiredFallbackCondition_spec:
  assumes "desiredFallbackCondition E wc pods act = (desired, keep)"
  shows "keep \<Longrightarrow> tracksFallback E wc \<and> wp_fallback pods = [] \<and> act = NoneReversionAction \<and> 0 < wp_active pods \<and>
      is_status_condition_true E (wc_conditions wc) ConditionTypeInFallback"
    "fallback_fit desired"
    "\<not> keep \<Longrightarrow> condition_laws E \<Longrightarrow> 0 \<le> wp_active pods \<Longrightarrow> fallback_stored E desired w \<Longrightarrow>
      (if tracksFallback E wc then
         is_status_condition_true E (wc_conditions w) ConditionTypeInFallback \<longleftrightarrow>
           wp_fallback pods \<noteq> [] \<or>
           is_status_condition_true E (wc_conditions wc) ConditionTypeInFallback \<and> act = NoneReversionAction \<and> 0 < wp_active pods
       else find_status_condition E (wc_conditions w) ConditionTypeInFallback = None)"
  using assms
  by (auto simp: desiredFallbackCondition_def Let_def fallback_condition_def fallback_stored_def fallback_fit_def same_content_def
      condition_true_iff split: if_splits)

text \<open>C23: The InFallback condition says what it stands for. After the condition was reconciled, the stored
  WorkloadClass of one that tracks fallback has it true exactly when some Pod of it that is active and
  targeted for Spot runs on a node that is not a Spot node; or, under the reversion action None, when
  it was true before and the workload still has active Pods: then it stays latched. A WorkloadClass
  that does not track fallback has no such condition. (Of the Pods selected, those governed by another
  WorkloadClass of the namespace do not count.)\<close>

theorem InFallback_meaning:
  assumes "status_store_laws C" "condition_laws E" "retry_law C"
    and "get_wc C s (wc_namespace wc) (wc_name wc) = Inr wc"
    and "reconcileFallbackState E C now wc policy s = (Inr (pods, wc'), s')"
    and "WorkloadClassPodSelector E C s wc = Inr selector" "list_pods C s (wc_namespace wc) selector = Inr ps"
    and "list_wcs C s (wc_namespace wc) = Inr wcs" "listSpotNodeNames C s = Inr spot_nodes"
    and "counted = filter (counted_pod E C s wc (1 < length wcs)) ps"
  shows "\<exists>w. get_wc C s' (wc_namespace wc) (wc_name wc) = Inr w \<and> wc_conditions w = wc_conditions wc' \<and>
    (if tracksFallback E wc then
       is_status_condition_true E (wc_conditions w) ConditionTypeInFallback \<longleftrightarrow>
         (\<exists>p \<in> set counted. fallen_back spot_nodes p) \<or>
         is_status_condition_true E (wc_conditions wc) ConditionTypeInFallback \<and>
           reversionActionFor policy = NoneReversionAction \<and> counted \<noteq> []
     else find_status_condition E (wc_conditions w) ConditionTypeInFallback = None)"
proof -
  obtain desired keep where d: "desiredFallbackCondition E wc pods (reversionActionFor policy) = (desired, keep)"
    by (cases "desiredFallbackCondition E wc pods (reversionActionFor policy)")
  have pods: "tracked_pods E C s wc = Inr pods"
    using assms(5) by (auto simp: reconcileFallbackState_def Let_def split: sum.splits prod.splits if_splits option.splits)
  have counts: "wp_active pods = int (length counted)" "wp_fallback pods = sort_fallback (filter (fallen_back spot_nodes) counted)"
    if "tracksFallback E wc"
    using classifyWorkloadPods_counts [of E C s wc spot_nodes pods, OF _ assms(6-8,10)] pods that assms(9)
    by (simp_all add: tracked_pods_def)
  have active: "0 \<le> wp_active pods" using counts pods by (cases "tracksFallback E wc") (auto simp: tracked_pods_def no_pods_def)
  have fell: "tracksFallback E wc \<Longrightarrow> wp_fallback pods \<noteq> [] \<longleftrightarrow> (\<exists>p \<in> set counted. fallen_back spot_nodes p)"
    by (simp add: counts filter_empty_conv)
  show ?thesis
  proof (cases keep)
    case True
    then have "s' = s" "wc' = wc" using assms(5) pods d by (simp_all add: reconcileFallbackState_def)
    then show ?thesis
      using desiredFallbackCondition_spec(1) [OF d True] assms(4) counts fell by simp
  next
    case False
    then have run: "retry_on_conflict C (fallback_attempt E C now wc desired) s = ((None, wc'), s')"
      using assms(5) pods d
      by (auto simp: reconcileFallbackState_def setFallbackCondition_def split: prod.splits option.splits)
    obtain s1 latest w where w: "get_wc C s1 (wc_namespace wc) (wc_name wc) = Inr latest"
        "fallback_attempt E C now wc desired s1 = ((None, wc'), s')" "get_wc C s' (wc_namespace wc) (wc_name wc) = Inr w"
        "wc_conditions w = fst (fallback_edit E now desired latest)" "fallback_stored E desired w"
      by (rule in_fallback.retried_stores [OF assms(1-3) desiredFallbackCondition_spec(2) [OF d] _ run]) (use assms(4) in auto)
    then have "wc_conditions w = wc_conditions wc'" using fallback_attempt_in_place [OF w(1,2)] by simp
    then show ?thesis
      using desiredFallbackCondition_spec(3) [OF d False assms(2) active w(5)] counts fell w(3) by (auto split: if_splits)
  qed
qed

text \<open>A Spot-targeted Pod on an on-demand node.\<close>

definition spot_pod :: pod where
  "spot_pod = sample_pod\<lparr>pod_node := ''n1'', pod_node_selector := [SpotLabelKey \<mapsto> SpotLabelValue]\<rparr>"

definition spot_cluster :: "pod \<Rightarrow> cluster" where
  "spot_cluster p = empty_cluster\<lparr>k_namespaces := [(''prod'', Map.empty)], k_wcs := [spot_wc], k_pods := [p]\<rparr>"

lemma spot_wc_tracks: "tracksFallback ref_env spot_wc"
  by (simp add: tracksFallback_def TargetsSpot_def spot_wc_def spot_strategy_def SpotRatioPercent_def)

lemma InFallback_meaning_witness:
  "\<exists>pods wc' s' w. reconcileFallbackState ref_env ref_client 5 spot_wc None (spot_cluster spot_pod) = (Inr (pods, wc'), s') \<and>
     get_wc ref_client s' ''prod'' ''web'' = Inr w \<and>
     is_status_condition_true ref_env (wc_conditions w) ConditionTypeInFallback"
proof -
  let ?s = "spot_cluster spot_pod" and ?sel = "selector_matches sample_selector"
  let ?counted = "filter (counted_pod ref_env ref_client ?s spot_wc (1 < length [spot_wc])) [spot_pod]"
  have wc: "wc_namespace spot_wc = ''prod''" "wc_name spot_wc = ''web''" "wc_selector spot_wc = Some sample_selector"
      "wc_conditions spot_wc = []"
    by (simp_all add: spot_wc_def sample_wc_def sample_spec_def)
  have k: "k_wcs ?s = [spot_wc]" "k_pods ?s = [spot_pod]" "k_nodes ?s = []" "k_namespaces ?s = [(''prod'', Map.empty)]"
    by (simp_all add: spot_cluster_def empty_cluster_def)
  have pod: "pod_namespace spot_pod = ''prod''" "pod_labels spot_pod = pod_labels sample_pod"
    by (simp_all add: spot_pod_def sample_pod_def)
  have selector: "WorkloadClassPodSelector ref_env ref_client ?s spot_wc = Inr ?sel"
    using sample_selects by (simp add: WorkloadClassPodSelector_def wc k map_get_def sample_wc_def sample_spec_def)
  have listed: "list_pods ref_client ?s (wc_namespace spot_wc) ?sel = Inr [spot_pod]"
      "list_wcs ref_client ?s (wc_namespace spot_wc) = Inr [spot_wc]"
      "listSpotNodeNames ref_client ?s = Inr {}"
      "get_wc ref_client ?s (wc_namespace spot_wc) (wc_name spot_wc) = Inr spot_wc"
    using sample_selected pod by (simp_all add: wc k listSpotNodeNames_def)
  have fell: "fallen_back {} spot_pod" "?counted = [spot_pod]"
    by (simp_all add: fallen_back_def spot_pod_def sample_pod_def IsPodTargetedForSpot_def map_get_def counted_pod_def
        IsPodActive_def)
  have active: "IsPodActive (Some spot_pod)" by (simp add: spot_pod_def sample_pod_def IsPodActive_def)
  obtain pods where pods: "tracked_pods ref_env ref_client ?s spot_wc = Inr pods"
    using listed selector active pod sample_selected
    by (simp add: tracked_pods_def spot_wc_tracks classifyWorkloadPods_def k wc)
  obtain desired keep where d: "desiredFallbackCondition ref_env spot_wc pods (reversionActionFor None) = (desired, keep)"
    by (cases "desiredFallbackCondition ref_env spot_wc pods (reversionActionFor None)")
  have "\<exists>wc' s'. reconcileFallbackState ref_env ref_client 5 spot_wc None ?s = (Inr (pods, wc'), s')"
    using pods d listed(4)
    by (simp add: reconcileFallbackState_def setFallbackCondition_def fallback_attempt_def split: prod.split)
  then obtain wc' s' where run: "reconcileFallbackState ref_env ref_client 5 spot_wc None ?s = (Inr (pods, wc'), s')"
    by blast
  from InFallback_meaning [OF status_store_laws_ref condition_laws_ref_env retry_law_ref listed(4) run selector listed(1-3) refl]
  show ?thesis
    unfolding fell(2) using run spot_wc_tracks fell(1) wc(1,2) by auto
qed

end
