(* ===== verification/Spot_Reversion.thy ===== *)
theory Spot_Reversion
  imports Spot_Fallback Gke_Guardrail
begin

text \<open>
  The runtime half of the gke-spot-placement plugin: \<open>spot_capacity.go\<close> (is Spot capacity
  available), \<open>spot_reversion.go\<close> (which fallback Pods are evicted, and when to look again) and
  the reconciler of \<open>gkespotplacement_controller.go\<close>. The lemmas bound what is evicted.
\<close>

subsection \<open>Spot capacity\<close>

abbreviation ClusterAutoscalerStatusNamespace :: string where
  "ClusterAutoscalerStatusNamespace \<equiv> ''kube-system''"
abbreviation ClusterAutoscalerStatusName :: string where
  "ClusterAutoscalerStatusName \<equiv> ''cluster-autoscaler-status''"

definition isSpotNodeGroupAvailable :: "node_group \<Rightarrow> bool" where
  "isSpotNodeGroupAvailable ng =
     (if \<not> equal_fold (ng_health ng) ''Healthy'' then False
      else if equal_fold (ng_scale_up ng) ''Backoff'' then False
      else (case ng_backoff ng of None \<Rightarrow> True | Some b \<Rightarrow> bo_code b = ''''))"

text \<open>No code point outside ASCII has one of the letters of \<open>spot\<close> as its lower case, so lowering
  the ASCII letters decides the containment.\<close>

definition is_spot_group :: "node_group \<Rightarrow> bool" where
  "is_spot_group ng = str_contains (map lower_char (ng_name ng)) ''spot''"

fun node_groups_loop :: "node_group list \<Rightarrow> bool \<Rightarrow> bool \<times> bool" where
  "node_groups_loop [] found = (False, found)"
| "node_groups_loop (ng # ngs) found =
     (if \<not> is_spot_group ng then node_groups_loop ngs found
      else if isSpotNodeGroupAvailable ng then (True, True)
      else node_groups_loop ngs True)"

text \<open>The result is \<open>(available, found)\<close>.\<close>

definition spotCapacityFromAutoscalerStatus :: "env \<Rightarrow> string \<Rightarrow> string + (bool \<times> bool)" where
  "spotCapacityFromAutoscalerStatus E raw =
     (if trim_space raw = '''' then Inr (False, False)
      else case yaml_status E raw of Inl err \<Rightarrow> Inl err | Inr groups \<Rightarrow> Inr (node_groups_loop groups False))"

definition isReadySpotNode :: "node_obj \<Rightarrow> bool" where
  "isReadySpotNode n =
     (if \<not> IsSpotNode (Some n) \<or> node_unschedulable n then False
      else list_ex (\<lambda>(ty, status). ty = ''Ready'' \<and> status = ConditionTrue) (node_conditions n))"

definition hasReadySpotNodes :: "'s client \<Rightarrow> 's \<Rightarrow> api_error + bool" where
  "hasReadySpotNodes C s =
     (case list_nodes C s SpotLabelKey SpotLabelValue of
        Inl err \<Rightarrow> Inl (wrap_error ''failed to list Spot nodes: '' err)
      | Inr items \<Rightarrow> Inr (list_ex isReadySpotNode items))"

definition checkSpotCapacity :: "env \<Rightarrow> 's client \<Rightarrow> 's \<Rightarrow> api_error + bool" where
  "checkSpotCapacity E C s =
     (case get_config_map C s ClusterAutoscalerStatusNamespace ClusterAutoscalerStatusName of
        Inl err \<Rightarrow>
          if \<not> is_not_found err then
            Inl (wrap_error (''failed to get '' @ ClusterAutoscalerStatusNamespace @ ''/'' @
              ClusterAutoscalerStatusName @ '' ConfigMap: '') err)
          else hasReadySpotNodes C s
      | Inr cm_data \<Rightarrow>
          (case spotCapacityFromAutoscalerStatus E (map_get cm_data ''status'') of
             Inl err \<Rightarrow> hasReadySpotNodes C s
           | Inr (available, found) \<Rightarrow> if found then Inr available else hasReadySpotNodes C s))"

subsection \<open>Watches of the capacity signals\<close>

definition isClusterAutoscalerStatus :: "namespaced_name \<Rightarrow> bool" where
  "isClusterAutoscalerStatus k =
     (fst k = ClusterAutoscalerStatusNamespace \<and> snd k = ClusterAutoscalerStatusName)"

definition availability :: "env \<Rightarrow> str_map \<Rightarrow> (bool \<times> bool) \<times> bool" where
  "availability E cm_data =
     (case spotCapacityFromAutoscalerStatus E (map_get cm_data ''status'') of
        Inl err \<Rightarrow> ((False, False), False) | Inr r \<Rightarrow> (r, True))"

definition spotAvailabilityChanged :: "env \<Rightarrow> str_map \<Rightarrow> str_map \<Rightarrow> bool" where
  "spotAvailabilityChanged E old_cm new_cm =
     (let ((old_available, old_found), old_ok) = availability E old_cm;
          ((new_available, new_found), new_ok) = availability E new_cm
      in old_available \<noteq> new_available \<or> old_found \<noteq> new_found \<or> old_ok \<noteq> new_ok)"

definition autoscaler_status_updated :: "env \<Rightarrow> namespaced_name \<Rightarrow> str_map \<Rightarrow> str_map \<Rightarrow> bool" where
  "autoscaler_status_updated E k old_cm new_cm =
     (if \<not> isClusterAutoscalerStatus k then False else spotAvailabilityChanged E old_cm new_cm)"

definition spot_node_updated :: "node_obj \<Rightarrow> node_obj \<Rightarrow> bool" where
  "spot_node_updated old_node new_node = (isReadySpotNode old_node \<noteq> isReadySpotNode new_node)"

definition enqueueSpotTargetingWorkloadClasses :: "env \<Rightarrow> 's client \<Rightarrow> 's \<Rightarrow> namespaced_name list" where
  "enqueueSpotTargetingWorkloadClasses E C s =
     (case list_all_wcs C s of
        Inl err \<Rightarrow> []
      | Inr items \<Rightarrow> map wc_key (filter (\<lambda>wc. \<not> (\<not> IsGKESpotManaged (Some wc) \<or> \<not> tracksFallback E wc)) items))"

definition findWorkloadClassesForClusterAutoscalerStatus ::
  "env \<Rightarrow> 's client \<Rightarrow> 's \<Rightarrow> namespaced_name \<Rightarrow> namespaced_name list" where
  "findWorkloadClassesForClusterAutoscalerStatus E C s k =
     (if \<not> isClusterAutoscalerStatus k then [] else enqueueSpotTargetingWorkloadClasses E C s)"

definition findWorkloadClassesForSpotNode :: "env \<Rightarrow> 's client \<Rightarrow> 's \<Rightarrow> node_obj \<Rightarrow> namespaced_name list" where
  "findWorkloadClassesForSpotNode E C s n =
     (if \<not> IsSpotNode (Some n) then [] else enqueueSpotTargetingWorkloadClasses E C s)"

definition findWorkloadClassesForGuardrail :: "env \<Rightarrow> 's client \<Rightarrow> 's \<Rightarrow> guardrail \<Rightarrow> namespaced_name list" where
  "findWorkloadClassesForGuardrail E C s g = enqueueSpotTargetingWorkloadClasses E C s"

subsection \<open>Reversion\<close>

definition defaultMinDurationOnFallback :: duration where "defaultMinDurationOnFallback = 5 * minute"
definition evictionRetryDelay :: duration where "evictionRetryDelay = 10 * second"
definition tooNewRetryDelay :: duration where "tooNewRetryDelay = 30 * minute"

text \<open>The strictest \<open>maxFallbackDuration\<close>: one entry, and the loop over the guardrails.\<close>

definition max_duration_step :: "string + spot_params \<Rightarrow> duration option \<Rightarrow> duration option" where
  "max_duration_step entry strictest_d =
     (case entry of
        Inl err \<Rightarrow> strictest_d
      | Inr params \<Rightarrow>
          (case sg_reversion params of
             None \<Rightarrow> strictest_d
           | Some r \<Rightarrow>
               (case rc_max_duration r of
                  None \<Rightarrow> strictest_d
                | Some d \<Rightarrow>
                    if d < 0 then strictest_d
                    else (case strictest_d of None \<Rightarrow> Some d | Some x \<Rightarrow> if d < x then Some d else strictest_d))))"

definition strictest_max_duration :: "env \<Rightarrow> guardrail list \<Rightarrow> duration option" where
  "strictest_max_duration E guardrails =
     fold (\<lambda>g acc. case gs_plugin (gr_spec g) of
         None \<Rightarrow> acc | Some placement \<Rightarrow> fold max_duration_step (spot_entries E placement) acc)
       guardrails None"

definition guardrailMaxFallbackDuration :: "env \<Rightarrow> 's client \<Rightarrow> 's \<Rightarrow> api_error + duration option" where
  "guardrailMaxFallbackDuration E C s =
     (case list_guardrails C s of
        Inl err \<Rightarrow> Inl (wrap_error ''failed to list WorkloadClassGuardrails: '' err)
      | Inr items \<Rightarrow> Inr (strictest_max_duration E items))"

definition disruptionWindowEnforced :: "workload_class \<Rightarrow> bool" where
  "disruptionWindowEnforced wc = (\<not> dp_emergency (wc_policy wc) \<and> wc_readiness wc \<noteq> ReadinessOverdue)"

definition isTooNewDenial :: "api_error \<Rightarrow> bool" where
  "isTooNewDenial err = (case err of Forbidden m \<Rightarrow> str_contains m ''pod is too new'' | _ \<Rightarrow> False)"

text \<open>The result is \<open>(evicted, delay)\<close>; a negative delay is the time until the next window.\<close>

definition evictForReversion ::
  "env \<Rightarrow> 's client \<Rightarrow> workload_class \<Rightarrow> pod \<Rightarrow> go_time \<Rightarrow> 's \<Rightarrow> (api_error + bool \<times> duration) \<times> 's" where
  "evictForReversion E C wc p now s =
     (case evict_pod C p s of
        (None, s') \<Rightarrow> (Inr (True, 0), s')
      | (Some err, s') \<Rightarrow>
          (if is_not_found err then Inr (False, 0)
           else case err of
               TooManyRequests m \<Rightarrow>
                 (if disruptionWindowEnforced wc \<and> \<not> fst (IsTimeInWindows E now (dp_windows (wc_policy wc)))
                  then Inr (False, i64 (- snd (IsTimeInWindows E now (dp_windows (wc_policy wc)))))
                  else Inr (False, if isTooNewDenial err then tooNewRetryDelay else evictionRetryDelay))
             | Forbidden m \<Rightarrow>
                 (if disruptionWindowEnforced wc \<and> \<not> fst (IsTimeInWindows E now (dp_windows (wc_policy wc)))
                  then Inr (False, i64 (- snd (IsTimeInWindows E now (dp_windows (wc_policy wc)))))
                  else Inr (False, if isTooNewDenial err then tooNewRetryDelay else evictionRetryDelay))
             | _ \<Rightarrow> Inl (wrap_error (''failed to evict Pod '' @ pod_namespace p @ ''/'' @ pod_name p @
                     '' for Spot reversion: '') err), s'))"

text \<open>What the switch of the loop decides for one fallback Pod: evict it, or leave it and come
  back after the smallest positive of some delays.\<close>

datatype reversion_choice = Evict | Wait "duration list"

definition choose_reversion ::
  "duration option \<Rightarrow> bool \<Rightarrow> duration \<Rightarrow> int \<Rightarrow> int \<Rightarrow> int \<Rightarrow> duration \<Rightarrow> reversion_choice" where
  "choose_reversion max_duration active min_duration spot_ratio spot_pods total_pods elapsed =
     (let until_max = (case max_duration of None \<Rightarrow> [] | Some m \<Rightarrow> [i64 (m - elapsed)])
      in if (case max_duration of None \<Rightarrow> False | Some m \<Rightarrow> elapsed \<ge> m) then Evict
         else if \<not> active then Wait until_max
         else if spot_ratio \<le> 0 \<or> SpotShareMet spot_pods total_pods spot_ratio then Wait until_max
         else if elapsed < min_duration then Wait (i64 (min_duration - elapsed) # until_max)
         else Evict)"

text \<open>The parameters of the loop that no iteration changes.\<close>

record reversion_plan =
  pn_max :: "duration option"
  pn_active :: bool
  pn_min :: duration
  pn_ratio :: int
  pn_total :: int

fun reversion_loop ::
  "env \<Rightarrow> 's client \<Rightarrow> workload_class \<Rightarrow> go_time \<Rightarrow> reversion_plan \<Rightarrow> pod list \<Rightarrow> int \<Rightarrow> duration \<Rightarrow> 's
    \<Rightarrow> requeue_result \<times> 's" where
  "reversion_loop E C wc now pn [] spot_pods requeue s = (Inr requeue, s)"
| "reversion_loop E C wc now pn (p # ps) spot_pods requeue s =
     (if get_controller_of E (pod_owners p) = None then reversion_loop E C wc now pn ps spot_pods requeue s
      else case choose_reversion (pn_max pn) (pn_active pn) (pn_min pn) (pn_ratio pn) spot_pods (pn_total pn)
                 (time_sub now (podFallbackStartTime p)) of
          Wait delays \<Rightarrow>
            reversion_loop E C wc now pn ps spot_pods (fold (\<lambda>d r. minPositiveDuration r d) delays requeue) s
        | Evict \<Rightarrow>
            (case evictForReversion E C wc p now s of
               (Inl err, s') \<Rightarrow> (Inl err, s')
             | (Inr (evicted, delay), s') \<Rightarrow>
                 if evicted then reversion_loop E C wc now pn ps (i64 (spot_pods + 1)) requeue s'
                 else if delay < 0 then (Inr (minPositiveDuration requeue (i64 (- delay))), s')
                 else reversion_loop E C wc now pn ps spot_pods (minPositiveDuration requeue delay) s'))"

definition min_fallback_duration :: "spot_policy option \<Rightarrow> duration" where
  "min_fallback_duration policy =
     (case policy of None \<Rightarrow> defaultMinDurationOnFallback
      | Some p \<Rightarrow> (case rp_min_duration (ps_reversion (sp_spec p)) of
            None \<Rightarrow> defaultMinDurationOnFallback | Some d \<Rightarrow> d))"

definition reconcileSpotReversion ::
  "env \<Rightarrow> 's client \<Rightarrow> workload_class \<Rightarrow> spot_policy option \<Rightarrow> workload_pods \<Rightarrow> go_time \<Rightarrow> 's
    \<Rightarrow> requeue_result \<times> 's" where
  "reconcileSpotReversion E C wc policy pods now s =
     (if \<not> tracksFallback E wc \<or> length (wp_fallback pods) = 0 then (Inr 0, s)
      else case guardrailMaxFallbackDuration E C s of
        Inl err \<Rightarrow> (Inl err, s)
      | Inr max_duration \<Rightarrow>
          let active = (reversionActionFor policy = ActiveReversionAction)
          in if \<not> active \<and> max_duration = None then (Inr 0, s)
             else case SpotRatioPercent E (case wc_capacity wc of Some cs \<Rightarrow> cs_spot_ratio cs | None \<Rightarrow> '''') of
                 Inl err \<Rightarrow> (Inl (OtherError err), s)
               | Inr spot_ratio \<Rightarrow>
                   (case checkSpotCapacity E C s of
                      Inl err \<Rightarrow> (Inr 0, s)
                    | Inr available \<Rightarrow>
                        if \<not> available then (Inr 0, s)
                        else reversion_loop E C wc now
                          \<lparr>pn_max = max_duration, pn_active = active, pn_min = min_fallback_duration policy,
                           pn_ratio = spot_ratio, pn_total = wp_active pods\<rparr>
                          (wp_fallback pods) (effectiveSpot pods) 0 s))"

subsection \<open>The reconciler\<close>

definition isReady :: "env \<Rightarrow> workload_class \<Rightarrow> bool" where
  "isReady E wc =
     (if \<not> IsValidated (find_status_condition E (wc_conditions wc) ConditionTypeValidated) then False
      else \<not> ReferencesGKESpotPlacementPolicy (wc_infra wc) \<or>
        is_status_condition_true E (wc_conditions wc) ConditionTypePlacementPluginAttached)"

definition isPlacementPluginPending :: "env \<Rightarrow> workload_class \<Rightarrow> bool" where
  "isPlacementPluginPending E wc =
     (case find_status_condition E (wc_conditions wc) ConditionTypePlacementPluginAttached of
        None \<Rightarrow> False
      | Some cond \<Rightarrow> c_status cond = ConditionFalse \<and> c_reason cond = ReasonPluginPending)"

definition gke_spot_managed_updated :: "workload_class \<Rightarrow> workload_class \<Rightarrow> bool" where
  "gke_spot_managed_updated old_wc new_wc = (IsGKESpotManaged (Some old_wc) \<or> IsGKESpotManaged (Some new_wc))"

definition cleared :: "(api_error option \<times> workload_class) \<times> 's \<Rightarrow> requeue_result \<times> 's" where
  "cleared r = (case fst (fst r) of None \<Rightarrow> (Inr 0, snd r) | Some err \<Rightarrow> (Inl err, snd r))"

definition Reconcile_SpotPlacement ::
  "env \<Rightarrow> 's client \<Rightarrow> go_time \<Rightarrow> namespaced_name \<Rightarrow> 's \<Rightarrow> requeue_result \<times> 's" where
  "Reconcile_SpotPlacement E C now req s =
     (case get_wc C s (fst req) (snd req) of
        Inl err \<Rightarrow> (case ignore_not_found err of None \<Rightarrow> (Inr 0, s) | Some e \<Rightarrow> (Inl e, s))
      | Inr wc \<Rightarrow>
          if \<not> IsGKESpotManaged (Some wc) then cleared (clearFallbackState E C now wc s)
          else if \<not> isReady E wc then
            (if isPlacementPluginPending E wc then (Inr 0, s)
             else cleared (clearFallbackState E C now wc s))
          else case (if tracksFallback E wc then attachedPolicy E C s wc else Inr None) of
              Inl err \<Rightarrow> (Inl err, s)
            | Inr policy \<Rightarrow>
                (case reconcileFallbackState E C now wc policy s of
                   (Inl err, s') \<Rightarrow> (Inl err, s')
                 | (Inr (pods, wc'), s') \<Rightarrow> reconcileSpotReversion E C wc' policy pods now s'))"

subsection \<open>Which Pods reversion evicts\<close>

text \<open>What is relied on of the Eviction API: an eviction leaves every other Pod as it is, and a refused
  one leaves its Pod as well.\<close>

definition pod_key :: "pod \<Rightarrow> namespaced_name" where
  "pod_key p = (pod_namespace p, pod_name p)"

definition evict_law :: "'s client \<Rightarrow> bool" where
  "evict_law C =
     ((\<forall>p s ns nm. (ns, nm) \<noteq> pod_key p \<longrightarrow> get_pod C (snd (evict_pod C p s)) ns nm = get_pod C s ns nm) \<and>
      (\<forall>p s e s' ns nm. evict_pod C p s = (Some e, s') \<longrightarrow> get_pod C s' ns nm = get_pod C s ns nm))"

lemma find_filter_pod_other:
  "(ns, nm) \<noteq> pod_key p \<Longrightarrow>
   find (\<lambda>x. pod_namespace x = ns \<and> pod_name x = nm) (filter (\<lambda>x. \<not> same_pod p x) xs) =
   find (\<lambda>x. pod_namespace x = ns \<and> pod_name x = nm) xs"
  by (induction xs) (auto simp: same_pod_def pod_key_def)

lemma evict_law_ref: "evict_law ref_client"
  by (auto simp: evict_law_def find_filter_pod_other)

definition pod_changed :: "'s client \<Rightarrow> 's \<Rightarrow> 's \<Rightarrow> pod \<Rightarrow> bool" where
  "pod_changed C s s' p =
     (get_pod C s' (pod_namespace p) (pod_name p) \<noteq> get_pod C s (pod_namespace p) (pod_name p))"

definition past_max :: "duration option \<Rightarrow> go_time \<Rightarrow> pod \<Rightarrow> bool" where
  "past_max max_duration now p =
     (case max_duration of None \<Rightarrow> False | Some m \<Rightarrow> m \<le> time_sub now (podFallbackStartTime p))"

definition evictable :: "env \<Rightarrow> reversion_plan \<Rightarrow> go_time \<Rightarrow> pod \<Rightarrow> bool" where
  "evictable E pn now p =
     (get_controller_of E (pod_owners p) \<noteq> None \<and>
      (past_max (pn_max pn) now p \<or>
       pn_active pn \<and> 0 < pn_ratio pn \<and> pn_min pn \<le> time_sub now (podFallbackStartTime p)))"

lemma choose_reversion_Evict:
  "choose_reversion mx active mn ratio spot all_pods elapsed = Evict \<longleftrightarrow>
     (case mx of None \<Rightarrow> False | Some m \<Rightarrow> m \<le> elapsed) \<or>
     active \<and> 0 < ratio \<and> \<not> SpotShareMet spot all_pods ratio \<and> mn \<le> elapsed"
  by (auto simp: choose_reversion_def Let_def split: option.split)

lemma evictForReversion_state: "snd (evictForReversion E C wc p now s) = snd (evict_pod C p s)"
  by (auto simp: evictForReversion_def split: prod.split option.split api_error.split)

lemma evictForReversion_evicted:
  "fst (evictForReversion E C wc p now s) = Inr (True, d) \<Longrightarrow> fst (evict_pod C p s) = None"
  by (auto simp: evictForReversion_def split: prod.splits option.splits api_error.splits if_splits)

lemma evictForReversion_kept:
  assumes "evict_law C" "\<forall>d. fst (evictForReversion E C wc p now s) \<noteq> Inr (True, d)"
  shows "get_pod C (snd (evictForReversion E C wc p now s)) ns nm = get_pod C s ns nm"
proof -
  obtain e s' where "evict_pod C p s = (Some e, s')"
    using assms(2) by (cases "evict_pod C p s"; cases "fst (evict_pod C p s)") (auto simp: evictForReversion_def)
  then show ?thesis
    using assms(1) by (auto simp: evictForReversion_state evict_law_def)
qed

lemma evictForReversion_other:
  "evict_law C \<Longrightarrow> (ns, nm) \<noteq> pod_key p \<Longrightarrow>
   get_pod C (snd (evictForReversion E C wc p now s)) ns nm = get_pod C s ns nm"
  by (simp add: evictForReversion_state evict_law_def)

text \<open>The steps of the loop, by what it does with the first Pod.\<close>

lemma reversion_loop_cases:
  assumes "reversion_loop E C wc now pn (p # ps) spot requeue s = (r, s')"
  obtains (Skip) requeue' where "reversion_loop E C wc now pn ps spot requeue' s = (r, s')"
  | (Kept) requeue' s1 where "\<forall>d. fst (evictForReversion E C wc p now s) \<noteq> Inr (True, d)"
      "s1 = snd (evictForReversion E C wc p now s)"
      "s' = s1 \<or> reversion_loop E C wc now pn ps spot requeue' s1 = (r, s')"
  | (Evicted) s1 where "get_controller_of E (pod_owners p) \<noteq> None"
      "past_max (pn_max pn) now p \<or>
       pn_active pn \<and> 0 < pn_ratio pn \<and> \<not> SpotShareMet spot (pn_total pn) (pn_ratio pn) \<and>
       pn_min pn \<le> time_sub now (podFallbackStartTime p)"
      "s1 = snd (evictForReversion E C wc p now s)"
      "reversion_loop E C wc now pn ps (i64 (spot + 1)) requeue s1 = (r, s')"
proof (cases "get_controller_of E (pod_owners p) = None")
  case True
  then show thesis using assms by (intro Skip [of requeue]) simp
next
  case False
  show thesis
  proof (cases "choose_reversion (pn_max pn) (pn_active pn) (pn_min pn) (pn_ratio pn) spot (pn_total pn)
      (time_sub now (podFallbackStartTime p))")
    case (Wait delays)
    then show thesis using assms False by (intro Skip [of "fold (\<lambda>d r. minPositiveDuration r d) delays requeue"]) simp
  next
    case Evict
    obtain res s1 where e: "evictForReversion E C wc p now s = (res, s1)"
      by (cases "evictForReversion E C wc p now s")
    show thesis
    proof (cases "\<exists>d. res = Inr (True, d)")
      case True
      then show thesis
        using assms False Evict e by (intro Evicted [of s1]) (auto simp: choose_reversion_Evict past_max_def)
    next
      case no: False
      then have "\<exists>requeue'. s' = s1 \<or> reversion_loop E C wc now pn ps spot requeue' s1 = (r, s')"
        using assms False Evict e by (cases res) (auto split: if_splits)
      then show thesis using no e Kept by (metis fst_conv snd_conv)
    qed
  qed
qed

lemma reversion_loop_only:
  assumes "evict_law C"
  shows "reversion_loop E C wc now pn ps spot requeue s = (r, s') \<Longrightarrow>
    get_pod C s' ns nm \<noteq> get_pod C s ns nm \<Longrightarrow>
    \<exists>p \<in> set ps. pod_key p = (ns, nm) \<and> evictable E pn now p"
proof (induction ps arbitrary: spot requeue s)
  case (Cons p ps)
  from Cons.prems(1) show ?case
  proof (cases rule: reversion_loop_cases)
    case (Skip requeue')
    then show ?thesis using Cons.IH [OF Skip Cons.prems(2)] by auto
  next
    case (Kept requeue' s1)
    then have "get_pod C s1 ns nm = get_pod C s ns nm"
      using evictForReversion_kept [OF assms] by simp
    then show ?thesis using Kept(3) Cons.IH [of spot requeue' s1] Cons.prems(2) by auto
  next
    case (Evicted s1)
    show ?thesis
    proof (cases "pod_key p = (ns, nm)")
      case True
      then show ?thesis using Evicted(1,2) by (auto simp: evictable_def)
    next
      case False
      then have "get_pod C s1 ns nm = get_pod C s ns nm"
        using evictForReversion_other [OF assms, of ns nm p] Evicted(3) by auto
      then show ?thesis using Cons.IH [OF Evicted(4)] Cons.prems(2) by auto
    qed
  qed
qed simp

text \<open>How many of some Pods the run evicted, for whichever reason.\<close>

definition evictions :: "'s client \<Rightarrow> 's \<Rightarrow> 's \<Rightarrow> pod list \<Rightarrow> nat" where
  "evictions C s s' ps = length (filter (pod_changed C s s') ps)"

lemma evictions_simps [simp]:
  "evictions C s s' [] = 0"
  "evictions C s s' (p # ps) = (if pod_changed C s s' p then 1 else 0) + evictions C s s' ps"
  by (simp_all add: evictions_def)

lemma evictions_le: "evictions C s s' ps \<le> length ps"
  by (simp add: evictions_def)

lemma pod_changed_start:
  "get_pod C s1 (pod_namespace p) (pod_name p) = get_pod C s (pod_namespace p) (pod_name p) \<Longrightarrow>
   pod_changed C s1 s' p = pod_changed C s s' p"
  by (simp add: pod_changed_def)

lemma evictions_start:
  "(\<And>q. q \<in> set ps \<Longrightarrow> pod_changed C s1 s' q = pod_changed C s s' q) \<Longrightarrow> evictions C s1 s' ps = evictions C s s' ps"
  unfolding evictions_def by (intro arg_cong [of _ _ length] filter_cong) simp_all

lemma SpotShareMet_mono:
  assumes "SpotShareMet m all_pods ratio" "0 \<le> m" "m \<le> n" "n < 2 ^ 50"
  shows "SpotShareMet n all_pods ratio"
  using assms by (auto simp: SpotShareMet_def ShouldUseSpot_def i64_id split: if_splits)

lemma reversion_loop_skips:
  assumes "evict_law C" "reversion_loop E C wc now pn ps spot requeue s1 = (r, s')" "pod_key p \<notin> pod_key ` set ps"
    and "get_pod C s1 (pod_namespace p) (pod_name p) = get_pod C s (pod_namespace p) (pod_name p)"
  shows "\<not> pod_changed C s s' p"
proof -
  have "\<exists>q \<in> set ps. pod_key q = pod_key p" if "pod_changed C s s' p"
    using reversion_loop_only [OF assms(1,2), of "pod_namespace p" "pod_name p"] that assms(4)
    by (auto simp: pod_changed_def pod_key_def)
  then show ?thesis using assms(3) by (metis imageI)
qed

lemma reversion_loop_share:
  assumes "evict_law C"
  shows "reversion_loop E C wc now pn ps spot requeue s = (r, s') \<Longrightarrow> distinct (map pod_key ps) \<Longrightarrow>
    0 \<le> spot \<Longrightarrow> spot + int (length ps) < 2 ^ 50 \<Longrightarrow> ps = qs @ p # rs \<Longrightarrow>
    pod_changed C s s' p \<Longrightarrow> \<not> past_max (pn_max pn) now p \<Longrightarrow>
    \<not> SpotShareMet (spot + int (evictions C s s' qs)) (pn_total pn) (pn_ratio pn)"
proof (induction ps arbitrary: spot requeue s qs)
  case (Cons q ps)
  have fresh: "pod_key q \<notin> pod_key ` set ps" using Cons.prems(2) by simp
  have other: "(pod_namespace x, pod_name x) \<noteq> pod_key q" if "x \<in> set ps" for x
    using fresh that by (metis imageI pod_key_def)
  show ?case
  proof (cases qs)
    case Nil
    then have p: "p = q" using Cons.prems(5) by simp
    from Cons.prems(1) show ?thesis
    proof (cases rule: reversion_loop_cases)
      case (Skip requeue')
      then show ?thesis using reversion_loop_skips [OF assms Skip fresh refl] Cons.prems(6) p by simp
    next
      case (Kept requeue' s1)
      have same: "get_pod C s1 ns nm = get_pod C s ns nm" for ns nm
        using evictForReversion_kept [OF assms] Kept by simp
      then have "\<not> pod_changed C s s' q"
        using Kept(3) reversion_loop_skips [OF assms _ fresh, of E wc now pn spot requeue' s1 r s' s]
        by (auto simp: pod_changed_def)
      then show ?thesis using Cons.prems(6) p by simp
    next
      case (Evicted s1)
      then show ?thesis using Cons.prems(7) p Nil by simp
    qed
  next
    case (Cons q' qs')
    then have qs: "qs = q # qs'" and ps: "ps = qs' @ p # rs" using Cons.prems(5) by simp_all
    have step: "\<not> SpotShareMet (spot' + int (evictions C s s' qs')) (pn_total pn) (pn_ratio pn)"
      if "reversion_loop E C wc now pn ps spot' requeue' s1 = (r, s')"
        and "\<And>x. x \<in> set ps \<Longrightarrow> pod_changed C s1 s' x = pod_changed C s s' x"
        and "spot' = spot \<or> spot' = spot + 1" for spot' requeue' s1
    proof -
      have "evictions C s1 s' qs' = evictions C s s' qs'" using that(2) ps by (intro evictions_start) simp
      then show ?thesis
        using Cons.IH [OF that(1) _ _ _ ps] that(2,3) Cons.prems ps by auto
    qed
    from Cons.prems(1) show ?thesis
    proof (cases rule: reversion_loop_cases)
      case (Skip requeue')
      then show ?thesis
        using step [OF Skip] reversion_loop_skips [OF assms Skip fresh refl] by (simp add: qs)
    next
      case (Kept requeue' s1)
      have same: "get_pod C s1 ns nm = get_pod C s ns nm" for ns nm
        using evictForReversion_kept [OF assms] Kept by simp
      have l: "reversion_loop E C wc now pn ps spot requeue' s1 = (r, s')"
        using Kept(3) Cons.prems(6) same by (auto simp: pod_changed_def)
      show ?thesis
        using step [OF l] reversion_loop_skips [OF assms l fresh same] pod_changed_start [OF same] by (simp add: qs)
    next
      case (Evicted s1)
      have same: "pod_changed C s1 s' x = pod_changed C s s' x" if "x \<in> set ps" for x
        using evictForReversion_other [OF assms other [OF that]] Evicted(3) by (intro pod_changed_start) simp
      have "i64 (spot + 1) = spot + 1" using Cons.prems(3,4) by (intro i64_id) simp_all
      then have "\<not> SpotShareMet (spot + 1 + int (evictions C s s' qs')) (pn_total pn) (pn_ratio pn)"
        using step [OF Evicted(4) same] by simp
      moreover have "evictions C s s' qs' \<le> length ps" using evictions_le [of C s s' qs'] ps by simp
      ultimately show ?thesis
        using SpotShareMet_mono [of "spot + int (evictions C s s' qs)" "pn_total pn" "pn_ratio pn"
            "spot + 1 + int (evictions C s s' qs')"] Cons.prems(3,4) by (auto simp: qs)
    qed
  qed
qed simp

lemma reconcileSpotReversion_loop:
  assumes "reconcileSpotReversion E C wc policy pods now s = (r, s')"
  shows "s' = s \<or> (\<exists>mx ratio. tracksFallback E wc \<and> checkSpotCapacity E C s = Inr True \<and>
    guardrailMaxFallbackDuration E C s = Inr mx \<and>
    SpotRatioPercent E (case wc_capacity wc of Some cs \<Rightarrow> cs_spot_ratio cs | None \<Rightarrow> '''') = Inr ratio \<and>
    reversion_loop E C wc now
      \<lparr>pn_max = mx, pn_active = (reversionActionFor policy = ActiveReversionAction),
       pn_min = min_fallback_duration policy, pn_ratio = ratio, pn_total = wp_active pods\<rparr>
      (wp_fallback pods) (effectiveSpot pods) 0 s = (r, s'))"
  using assms
  by (auto simp: reconcileSpotReversion_def Let_def split: if_splits sum.splits)

lemma SpotShareMet_short:
  assumes "\<not> SpotShareMet n all_pods ratio" "0 \<le> n" "n < 2 ^ 50" "all_pods < 2 ^ 50" "0 \<le> ratio" "ratio \<le> 100"
  shows "n * 100 < all_pods * ratio"
proof -
  have pos: "0 < all_pods" using assms(1) by (simp add: SpotShareMet_def split: if_splits)
  have "i64 (all_pods * ratio) = all_pods * ratio"
    using ratio_product [of all_pods ratio] assms pos by simp
  then show ?thesis
    using assms pos by (simp add: SpotShareMet_def ShouldUseSpot_def i64_id)
qed

text \<open>C16: The Spot share limits how many Pods are reverted early. Reversion only evicts fallback Pods that a
  controller will recreate, of a WorkloadClass that allows fallback and while Spot capacity is
  available: Pods on fallback for at least the guardrails' maximum, or, under the Active strategy,
  Pods on fallback for at least the policy's minimum. Each Pod of the second kind is evicted only while
  the Pods on Spot together with all Pods evicted before it in the run, those past the maximum
  included, are fewer than the ratio asks for.\<close>

theorem reversion_respects_share:
  assumes "evict_law C" "reconcileSpotReversion E C wc policy pods now s = (r, s')"
    and "distinct (map pod_key (wp_fallback pods))"
    and "0 \<le> wp_spot pods" "0 \<le> wp_pending_spot pods" "wp_active pods < 2 ^ 50"
    and "wp_spot pods + wp_pending_spot pods + int (length (wp_fallback pods)) < 2 ^ 50"
    and "guardrailMaxFallbackDuration E C s = Inr mx"
  shows "(\<forall>ns nm. get_pod C s' ns nm \<noteq> get_pod C s ns nm \<longrightarrow>
      tracksFallback E wc \<and> checkSpotCapacity E C s = Inr True \<and>
      (\<exists>p \<in> set (wp_fallback pods). pod_key p = (ns, nm) \<and> get_controller_of E (pod_owners p) \<noteq> None \<and>
         (past_max mx now p \<or> reversionActionFor policy = ActiveReversionAction \<and>
            min_fallback_duration policy \<le> time_sub now (podFallbackStartTime p)))) \<and>
    (\<forall>qs p rs. wp_fallback pods = qs @ p # rs \<longrightarrow> pod_changed C s s' p \<longrightarrow> \<not> past_max mx now p \<longrightarrow>
      (\<exists>ratio. SpotRatioPercent E (case wc_capacity wc of Some cs \<Rightarrow> cs_spot_ratio cs | None \<Rightarrow> '''') = Inr ratio \<and>
         (wp_spot pods + wp_pending_spot pods + int (evictions C s s' qs)) * 100 < wp_active pods * ratio))"
proof (cases "s' = s")
  case True
  then show ?thesis by (simp add: pod_changed_def)
next
  case False
  obtain ratio where l: "tracksFallback E wc" "checkSpotCapacity E C s = Inr True"
      "SpotRatioPercent E (case wc_capacity wc of Some cs \<Rightarrow> cs_spot_ratio cs | None \<Rightarrow> '''') = Inr ratio"
    and loop: "reversion_loop E C wc now
      \<lparr>pn_max = mx, pn_active = (reversionActionFor policy = ActiveReversionAction),
       pn_min = min_fallback_duration policy, pn_ratio = ratio, pn_total = wp_active pods\<rparr>
      (wp_fallback pods) (effectiveSpot pods) 0 s = (r, s')"
    using reconcileSpotReversion_loop [OF assms(2)] False assms(8) by auto
  have eff: "effectiveSpot pods = wp_spot pods + wp_pending_spot pods"
    using assms(4-7) by (simp add: effectiveSpot_def i64_id)
  have share: "(wp_spot pods + wp_pending_spot pods + int (evictions C s s' qs)) * 100 < wp_active pods * ratio"
    if p: "wp_fallback pods = qs @ p # rs" "pod_changed C s s' p" "\<not> past_max mx now p" for qs p rs
  proof (rule SpotShareMet_short)
    show "\<not> SpotShareMet (wp_spot pods + wp_pending_spot pods + int (evictions C s s' qs)) (wp_active pods) ratio"
      using reversion_loop_share [OF assms(1) loop assms(3) _ _ p(1,2)] p(3) assms(4-7) by (simp add: eff)
    show "wp_spot pods + wp_pending_spot pods + int (evictions C s s' qs) < 2 ^ 50"
      using evictions_le [of C s s' qs] assms(7) p(1) by simp
  qed (use assms(4-6) SpotRatioPercent_range [OF l(3)] in simp_all)
  have only: "\<exists>p \<in> set (wp_fallback pods). pod_key p = (ns, nm) \<and> get_controller_of E (pod_owners p) \<noteq> None \<and>
         (past_max mx now p \<or> reversionActionFor policy = ActiveReversionAction \<and>
            min_fallback_duration policy \<le> time_sub now (podFallbackStartTime p))"
    if "get_pod C s' ns nm \<noteq> get_pod C s ns nm" for ns nm
    using reversion_loop_only [OF assms(1) loop that] by (force simp: evictable_def)
  show ?thesis using l only share by blast
qed

definition eager_policy :: spot_policy where
  "eager_policy = \<lparr>sp_name = ''spot'', sp_generation = 1,
     sp_spec = \<lparr>ps_compute_class = '''', ps_families = [],
       ps_reversion = \<lparr>rp_action = ActiveReversionAction, rp_min_duration = Some 0\<rparr>\<rparr>,
     sp_conditions = []\<rparr>"

definition half_wc :: workload_class where
  "half_wc = spot_wc\<lparr>wc_spec := (wc_spec spot_wc)\<lparr>ws_capacity := Some (spot_strategy\<lparr>cs_spot_ratio := ''50%''\<rparr>)\<rparr>\<rparr>"

definition fallen_pod :: "string \<Rightarrow> pod" where
  "fallen_pod nm = sample_pod\<lparr>pod_name := nm, pod_node := ''n1'', pod_start := Some 1,
     pod_owners := [\<lparr>or_kind = ''ReplicaSet'', or_name = ''web'', or_uid = ''r1'', or_controller = Some True\<rparr>]\<rparr>"

definition fallen_pods :: workload_pods where
  "fallen_pods = \<lparr>wp_active = 2, wp_spot = 0, wp_pending_spot = 0, wp_fallback = [fallen_pod ''web-0'', fallen_pod ''web-1'']\<rparr>"

definition ready_spot_node :: node_obj where
  "ready_spot_node = \<lparr>node_name = ''n2'', node_labels = [SpotLabelKey \<mapsto> SpotLabelValue], node_unschedulable = False,
     node_conditions = [(''Ready'', ConditionTrue)]\<rparr>"

definition fallen_cluster :: cluster where
  "fallen_cluster = empty_cluster\<lparr>k_pods := wp_fallback fallen_pods, k_nodes := [ready_spot_node]\<rparr>"

lemma half_ratio: "SpotRatioPercent ref_env ''50%'' = Inr 50"
proof -
  have "show_nat 50 = ''50''" by code_simp
  then show ?thesis using ParsePercentage_show [of 50 ref_env] by (simp add: SpotRatioPercent_def)
qed

text \<open>Two Pods on fallback and a ratio of 50 percent: one eviction suffices.\<close>

lemma reversion_respects_share_witness:
  "let s' = snd (reconcileSpotReversion ref_env ref_client half_wc (Some eager_policy) fallen_pods 10 fallen_cluster)
   in pod_changed ref_client fallen_cluster s' (fallen_pod ''web-0'') \<and>
      (wp_spot fallen_pods + wp_pending_spot fallen_pods + int (evictions ref_client fallen_cluster s' [])) * 100
        < wp_active fallen_pods * 50 \<and>
      \<not> pod_changed ref_client fallen_cluster s' (fallen_pod ''web-1'')"
proof -
  let ?run = "reconcileSpotReversion ref_env ref_client half_wc (Some eager_policy) fallen_pods 10 fallen_cluster"
  let ?s' = "fallen_cluster\<lparr>k_pods := [fallen_pod ''web-1'']\<rparr>"
  have pods: "wp_fallback fallen_pods = [fallen_pod ''web-0'', fallen_pod ''web-1'']" "wp_active fallen_pods = 2"
      "effectiveSpot fallen_pods = 0" "wp_spot fallen_pods = 0" "wp_pending_spot fallen_pods = 0"
    by (simp_all add: fallen_pods_def effectiveSpot_def i64_def)
  have capacity: "wc_capacity half_wc = Some (spot_strategy\<lparr>cs_spot_ratio := ''50%''\<rparr>)"
    by (simp add: half_wc_def)
  have tracks: "tracksFallback ref_env half_wc"
    using half_ratio by (simp add: tracksFallback_def TargetsSpot_def capacity spot_strategy_def)
  have no_max: "guardrailMaxFallbackDuration ref_env ref_client fallen_cluster = Inr None"
    by (simp add: guardrailMaxFallbackDuration_def strictest_max_duration_def fallen_cluster_def empty_cluster_def)
  have available: "checkSpotCapacity ref_env ref_client fallen_cluster = Inr True"
    by (simp add: checkSpotCapacity_def fallen_cluster_def empty_cluster_def hasReadySpotNodes_def isReadySpotNode_def
        ready_spot_node_def IsSpotNode_def map_get_def)
  have policy: "reversionActionFor (Some eager_policy) = ActiveReversionAction" "min_fallback_duration (Some eager_policy) = 0"
    by (simp_all add: reversionActionFor_def min_fallback_duration_def eager_policy_def)
  have fallen: "ref_controller (pod_owners (fallen_pod nm)) =
        Some \<lparr>or_kind = ''ReplicaSet'', or_name = ''web'', or_uid = ''r1'', or_controller = Some True\<rparr>"
      "podFallbackStartTime (fallen_pod nm) = 1"
      "pod_namespace (fallen_pod nm) = ''prod''" "pod_name (fallen_pod nm) = nm" for nm
    by (simp_all add: fallen_pod_def sample_pod_def podFallbackStartTime_def ref_controller_def)
  have evict: "evict_pod ref_client (fallen_pod ''web-0'') fallen_cluster = (None, ?s')"
    by (simp add: fallen_cluster_def pods same_pod_def fallen)
  have share: "\<not> SpotShareMet 0 2 50" "SpotShareMet 1 2 50"
    by (simp_all add: SpotShareMet_def ShouldUseSpot_def i64_def)
  have run: "?run = (Inr 0, ?s')"
    using fallen evict share
    by (simp add: reconcileSpotReversion_def tracks no_max available policy capacity half_ratio pods
        choose_reversion_def evictForReversion_def time_sub_def min_i64_def max_i64_def i64_def)
  have changed: "pod_changed ref_client fallen_cluster ?s' (fallen_pod ''web-0'')"
      "\<not> pod_changed ref_client fallen_cluster ?s' (fallen_pod ''web-1'')" "\<not> past_max None 10 (fallen_pod ''web-0'')"
    by (simp_all add: pod_changed_def past_max_def fallen pods fallen_cluster_def)
  have "(wp_spot fallen_pods + wp_pending_spot fallen_pods + int (evictions ref_client fallen_cluster ?s' [])) * 100
      < wp_active fallen_pods * 50"
    using conjunct2 [OF reversion_respects_share [OF evict_law_ref run, of None], rule_format,
        of "[]" "fallen_pod ''web-0''" "[fallen_pod ''web-1'']"] changed
    by (simp add: pods no_max capacity half_ratio pod_key_def fallen)
  then show ?thesis using changed by (simp add: run)
qed

subsection \<open>What the reconciler evicts\<close>

text \<open>Status updates of WorkloadClasses touch no Pod.\<close>

definition status_keeps_pods :: "'s client \<Rightarrow> bool" where
  "status_keeps_pods C = (\<forall>w s ns nm. get_pod C (snd (update_wc_status C w s)) ns nm = get_pod C s ns nm)"

lemma status_keeps_pods_ref: "status_keeps_pods ref_client"
  by (simp add: status_keeps_pods_def)

lemma setFallbackCondition_pods:
  assumes "status_keeps_pods C" "retry_law C"
  shows "get_pod C (snd (setFallbackCondition E C now wc desired s)) ns nm = get_pod C s ns nm"
  unfolding setFallbackCondition_def
  by (rule in_fallback.retried_frame [where v = "\<lambda>s. get_pod C s ns nm", OF assms(2)])
     (use assms(1) in \<open>simp add: status_keeps_pods_def\<close>)

lemma reconcileFallbackState_pods:
  assumes "status_keeps_pods C" "retry_law C" "reconcileFallbackState E C now wc policy s = (r, s')"
  shows "get_pod C s' ns nm = get_pod C s ns nm"
    "r = Inr (pods, wc') \<Longrightarrow> tracked_pods E C s wc = Inr pods"
proof -
  obtain desired keep pods0 where "tracked_pods E C s wc = Inr pods0 \<longrightarrow>
      desiredFallbackCondition E wc pods0 (reversionActionFor policy) = (desired, keep)"
    by (metis surj_pair)
  then show "get_pod C s' ns nm = get_pod C s ns nm" "r = Inr (pods, wc') \<Longrightarrow> tracked_pods E C s wc = Inr pods"
    using assms(3) setFallbackCondition_pods [OF assms(1,2)]
    by (auto simp: reconcileFallbackState_def Let_def split: sum.splits prod.splits if_splits option.splits) (metis snd_conv)+
qed

text \<open>A Pod of the WorkloadClass on fallback: selected by it, active, governed by it, targeted for Spot and
  running on a node that is not a Spot node.\<close>

definition fallback_pod_of :: "env \<Rightarrow> 's client \<Rightarrow> 's \<Rightarrow> workload_class \<Rightarrow> pod \<Rightarrow> bool" where
  "fallback_pod_of E C s wc p \<longleftrightarrow>
     (\<exists>selector ps wcs spot_nodes. WorkloadClassPodSelector E C s wc = Inr selector \<and>
        list_pods C s (wc_namespace wc) selector = Inr ps \<and> p \<in> set ps \<and>
        list_wcs C s (wc_namespace wc) = Inr wcs \<and> counted_pod E C s wc (1 < length wcs) p \<and>
        listSpotNodeNames C s = Inr spot_nodes \<and> fallen_back spot_nodes p)"

lemma tracked_fallback_pod:
  assumes "tracked_pods E C s wc = Inr pods" "p \<in> set (wp_fallback pods)"
  shows "fallback_pod_of E C s wc p"
proof -
  have "tracksFallback E wc" using assms by (auto simp: tracked_pods_def no_pods_def split: if_splits)
  then obtain spot_nodes where n: "listSpotNodeNames C s = Inr spot_nodes"
      "classifyWorkloadPods E C s wc spot_nodes = Inr pods"
    using assms(1) by (auto simp: tracked_pods_def bind_result_Inr_iff)
  obtain selector where sel: "WorkloadClassPodSelector E C s wc = Inr selector"
    using n(2) by (auto simp: classifyWorkloadPods_def bind_result_Inr_iff)
  obtain ps where ps: "list_pods C s (wc_namespace wc) selector = Inr ps"
    using n(2) sel by (cases "list_pods C s (wc_namespace wc) selector") (auto simp: classifyWorkloadPods_def)
  obtain wcs where wcs: "list_wcs C s (wc_namespace wc) = Inr wcs"
    using n(2) sel ps by (cases "list_wcs C s (wc_namespace wc)") (auto simp: classifyWorkloadPods_def)
  from classifyWorkloadPods_counts(2) [OF n(2) sel ps wcs refl] show ?thesis
    using assms(2) n(1) sel ps wcs by (auto simp: sort_fallback_def fallback_pod_of_def)
qed

text \<open>C14: The reversion loop never disturbs anything but fallback Pods. Whatever a run of the reconciler
  changes about a Pod, it is the eviction of an active Pod that a controller owns, that is targeted for
  Spot and runs on a node that is not a Spot node, and whose WorkloadClass (the one of the request) is
  in the scope of the plugin, validated, with its policy attached if it references one, and allows
  fallback; and Spot capacity was available.\<close>

theorem Reconcile_SpotPlacement_evicts_only:
  assumes "evict_law C" "status_keeps_pods C" "retry_law C"
    and "Reconcile_SpotPlacement E C now req s = (r, s')" "get_pod C s' ns nm \<noteq> get_pod C s ns nm"
  shows "\<exists>wc policy p. get_wc C s (fst req) (snd req) = Inr wc \<and> IsGKESpotManaged (Some wc) \<and> isReady E wc \<and>
    tracksFallback E wc \<and> attachedPolicy E C s wc = Inr policy \<and>
    checkSpotCapacity E C (snd (reconcileFallbackState E C now wc policy s)) = Inr True \<and>
    fallback_pod_of E C s wc p \<and> pod_key p = (ns, nm) \<and> get_controller_of E (pod_owners p) \<noteq> None"
proof -
  have clear: "get_pod C (snd (cleared (clearFallbackState E C now wc s))) ns nm = get_pod C s ns nm" for wc
    using setFallbackCondition_pods [OF assms(2,3)] by (simp add: cleared_def clearFallbackState_def split: option.split)
  obtain wc where wc: "get_wc C s (fst req) (snd req) = Inr wc"
    using assms(4,5) by (auto simp: Reconcile_SpotPlacement_def split: sum.splits option.splits)
  have scope: "IsGKESpotManaged (Some wc)" "isReady E wc"
    using assms(4,5) wc clear [of wc] by (auto simp: Reconcile_SpotPlacement_def split: if_splits)
  obtain policy where pol: "(if tracksFallback E wc then attachedPolicy E C s wc else Inr None) = Inr policy"
    using assms(4,5) wc scope
    by (cases "if tracksFallback E wc then attachedPolicy E C s wc else Inr None") (simp_all add: Reconcile_SpotPlacement_def)
  obtain res s1 where state: "reconcileFallbackState E C now wc policy s = (res, s1)"
    by (cases "reconcileFallbackState E C now wc policy s")
  note same = reconcileFallbackState_pods(1) [OF assms(2,3) state, of ns nm]
  obtain pods wc' where res: "res = Inr (pods, wc')"
    using pol state same assms(4,5) wc scope by (cases res) (auto simp: Reconcile_SpotPlacement_def)
  have run: "reconcileSpotReversion E C wc' policy pods now s1 = (r, s')"
    using pol state res assms(4) wc scope by (simp add: Reconcile_SpotPlacement_def)
  have tracked: "tracked_pods E C s wc = Inr pods"
    using reconcileFallbackState_pods(2) [OF assms(2,3) state res] .
  obtain mx ratio where available: "checkSpotCapacity E C s1 = Inr True"
      and loop: "reversion_loop E C wc' now
      \<lparr>pn_max = mx, pn_active = (reversionActionFor policy = ActiveReversionAction),
       pn_min = min_fallback_duration policy, pn_ratio = ratio, pn_total = wp_active pods\<rparr>
      (wp_fallback pods) (effectiveSpot pods) 0 s1 = (r, s')"
    using reconcileSpotReversion_loop [OF run] same assms(5) by auto
  obtain p where p: "p \<in> set (wp_fallback pods)" "pod_key p = (ns, nm)" "get_controller_of E (pod_owners p) \<noteq> None"
    using reversion_loop_only [OF assms(1) loop, of ns nm] same assms(5) by (auto simp: evictable_def)
  have "tracksFallback E wc"
    using tracked p(1) by (auto simp: tracked_pods_def no_pods_def split: if_splits)
  then show ?thesis
    using wc scope pol state available p tracked_fallback_pod [OF tracked p(1)] by auto
qed

text \<open>The same situation as before, seen from the reconciler.\<close>

definition validated_true :: "string \<Rightarrow> condition" where
  "validated_true ty = \<lparr>c_type = ty, c_status = ConditionTrue, c_reason = '''', c_message = '''', c_observed = 1, c_transition = 1\<rparr>"

definition managed_wc :: workload_class where
  "managed_wc = half_wc\<lparr>
     wc_spec := (wc_spec half_wc)\<lparr>ws_infra := Some
       \<lparr>ir_group = GroupVersionGroup, ir_kind = GKESpotPlacementPolicyKind, ir_name = ''spot''\<rparr>\<rparr>,
     wc_status := \<lparr>st_readiness = '''', st_last_disruption = None,
       st_conditions = [validated_true ConditionTypeValidated, validated_true ConditionTypePlacementPluginAttached]\<rparr>\<rparr>"

definition managed_pod :: pod where
  "managed_pod = (fallen_pod ''web-0'')\<lparr>pod_node_selector := [SpotLabelKey \<mapsto> SpotLabelValue]\<rparr>"

definition managed_cluster :: cluster where
  "managed_cluster = empty_cluster\<lparr>k_namespaces := [(''prod'', Map.empty)], k_wcs := [managed_wc],
     k_policies := [eager_policy], k_pods := [managed_pod], k_nodes := [ready_spot_node]\<rparr>"

lemma managed_run:
  "case get_pod ref_client (snd (Reconcile_SpotPlacement ref_env ref_client 10 (''prod'', ''web'') managed_cluster))
     ''prod'' ''web-0'' of Inl e \<Rightarrow> True | Inr p \<Rightarrow> False"
  by code_simp

lemma managed_pod_found: "get_pod ref_client managed_cluster ''prod'' ''web-0'' = Inr managed_pod"
  by (simp add: managed_cluster_def managed_pod_def fallen_pod_def sample_pod_def)

lemma Reconcile_SpotPlacement_evicts_only_witness:
  "\<exists>wc p. get_wc ref_client managed_cluster ''prod'' ''web'' = Inr wc \<and> isReady ref_env wc \<and>
     fallback_pod_of ref_env ref_client managed_cluster wc p \<and> pod_key p = (''prod'', ''web-0'')"
proof -
  obtain r s' where run: "Reconcile_SpotPlacement ref_env ref_client 10 (''prod'', ''web'') managed_cluster = (r, s')"
    by (cases "Reconcile_SpotPlacement ref_env ref_client 10 (''prod'', ''web'') managed_cluster")
  have "get_pod ref_client s' ''prod'' ''web-0'' \<noteq> get_pod ref_client managed_cluster ''prod'' ''web-0''"
    using managed_run run managed_pod_found by (auto split: sum.splits)
  from Reconcile_SpotPlacement_evicts_only [OF evict_law_ref status_keeps_pods_ref retry_law_ref run this]
  show ?thesis by auto
qed

end
