(* ===== verification/Selector.thy ===== *)
theory Selector
  imports Utils_Basic Reference_Env "HOL-Library.AList"
begin

text \<open>
  \<open>internal/utils/selector.go\<close>: whether two label selectors can select a common Pod. The
  accumulated requirements per key are \<open>key_constraint\<close>; the result is proved equivalent to
  the existence of a set of labels that satisfies both selectors.
\<close>

record key_constraint =
  kc_in :: "string set option"
  kc_not_in :: "string set"
  kc_exists :: bool
  kc_not_exists :: bool

type_synonym constraints = "(string \<times> key_constraint) list"

definition new_constraint :: key_constraint where
  "new_constraint = \<lparr>kc_in = None, kc_not_in = {}, kc_exists = False, kc_not_exists = False\<rparr>"

definition constraintFor :: "constraints \<Rightarrow> string \<Rightarrow> key_constraint" where
  "constraintFor cs key = (case map_of cs key of None \<Rightarrow> new_constraint | Some c \<Rightarrow> c)"

definition kc_add :: "key_constraint \<Rightarrow> string \<Rightarrow> string list \<Rightarrow> key_constraint" where
  "kc_add c oper values =
     (if oper = LabelSelectorOpIn then
        c\<lparr>kc_exists := True,
          kc_in := (case kc_in c of None \<Rightarrow> Some (set values) | Some i \<Rightarrow> Some (i \<inter> set values))\<rparr>
      else if oper = LabelSelectorOpNotIn then c\<lparr>kc_not_in := kc_not_in c \<union> set values\<rparr>
      else if oper = LabelSelectorOpExists then c\<lparr>kc_exists := True\<rparr>
      else if oper = LabelSelectorOpDoesNotExist then c\<lparr>kc_not_exists := True\<rparr>
      else c)"

definition satisfiable :: "key_constraint \<Rightarrow> bool" where
  "satisfiable c =
     (if kc_not_exists c then \<not> kc_exists c
      else case kc_in c of Some i \<Rightarrow> i - kc_not_in c \<noteq> {} | None \<Rightarrow> True)"

text \<open>\<open>constraintFor(constraints, key).add(op, values)\<close>: the entry is created or updated in place.\<close>

definition add_requirement :: "constraints \<Rightarrow> string \<Rightarrow> string \<Rightarrow> string list \<Rightarrow> constraints" where
  "add_requirement cs key oper values = AList.update key (kc_add (constraintFor cs key) oper values) cs"

definition add_selector :: "constraints \<Rightarrow> label_selector \<Rightarrow> constraints" where
  "add_selector cs sel =
     fold (\<lambda>expr acc. add_requirement acc (lr_key expr) (lr_operator expr) (lr_values expr)) (sel_exprs sel)
       (fold (\<lambda>(k, v) acc. add_requirement acc k LabelSelectorOpIn [v]) (sel_labels sel) cs)"

fun collect_constraints :: "env \<Rightarrow> label_selector list \<Rightarrow> constraints \<Rightarrow> string + constraints" where
  "collect_constraints E [] cs = Inr cs"
| "collect_constraints E (sel # sels) cs =
     (case as_selector E (Some sel) of
        Inl err \<Rightarrow> Inl (''invalid label selector: '' @ err)
      | Inr _ \<Rightarrow> collect_constraints E sels (add_selector cs sel))"

definition SelectorsOverlap :: "env \<Rightarrow> label_selector option \<Rightarrow> label_selector option \<Rightarrow> string + bool" where
  "SelectorsOverlap E a b =
     (case (a, b) of
        (Some sa, Some sb) \<Rightarrow>
          (case collect_constraints E [sa, sb] [] of
             Inl err \<Rightarrow> Inl err
           | Inr cs \<Rightarrow> Inr (list_all (\<lambda>(k, c). satisfiable c) cs))
      | _ \<Rightarrow> Inr False)"

subsection \<open>The meaning of accumulated constraints\<close>

text \<open>\<open>kc_sat c v\<close>: the label value \<open>v\<close> (\<open>None\<close>: the label is absent) satisfies all requirements in \<open>c\<close>.\<close>

definition kc_sat :: "key_constraint \<Rightarrow> string option \<Rightarrow> bool" where
  "kc_sat c v =
     ((\<forall>i. kc_in c = Some i \<longrightarrow> (\<exists>x \<in> i. v = Some x)) \<and>
      (\<forall>x. v = Some x \<longrightarrow> x \<notin> kc_not_in c) \<and>
      (kc_exists c \<longrightarrow> v \<noteq> None) \<and> (kc_not_exists c \<longrightarrow> v = None))"

text \<open>The invariant \<open>add\<close> maintains.\<close>

definition kc_inv :: "key_constraint \<Rightarrow> bool" where
  "kc_inv c = (finite (kc_not_in c) \<and> (kc_in c \<noteq> None \<longrightarrow> kc_exists c))"

lemma kc_inv_new [simp]: "kc_inv new_constraint"
  by (simp add: kc_inv_def new_constraint_def)

lemma kc_sat_new [simp]: "kc_sat new_constraint v"
  by (simp add: kc_sat_def new_constraint_def)

lemma kc_inv_add [simp]: "kc_inv c \<Longrightarrow> kc_inv (kc_add c oper values)"
  by (auto simp: kc_inv_def kc_add_def)

lemma kc_sat_add:
  "known_operator oper \<Longrightarrow> kc_sat (kc_add c oper values) v \<longleftrightarrow> kc_sat c v \<and> req_holds oper values v"
  by (cases v; cases "kc_in c")
     (auto simp: kc_sat_def kc_add_def req_holds_def known_operator_def)

lemma fresh_string: "finite (A :: string set) \<Longrightarrow> \<exists>x. x \<notin> A"
  by (metis UNIV_I ex_new_if_finite infinite_UNIV_listI)

lemma satisfiable_iff:
  assumes "kc_inv c"
  shows "satisfiable c \<longleftrightarrow> (\<exists>v. kc_sat c v)"
proof (cases "kc_in c")
  case None
  obtain x where "x \<notin> kc_not_in c"
    using assms fresh_string by (auto simp: kc_inv_def)
  then have "\<not> kc_not_exists c \<Longrightarrow> kc_sat c (Some x)"
    using None by (simp add: kc_sat_def)
  moreover have "kc_not_exists c \<Longrightarrow> \<not> kc_exists c \<Longrightarrow> kc_sat c None"
    using None by (simp add: kc_sat_def)
  ultimately show ?thesis
    using None by (auto simp: satisfiable_def kc_sat_def)
next
  case (Some i)
  then show ?thesis
    using assms by (auto simp: satisfiable_def kc_sat_def kc_inv_def)
qed

text \<open>The same for the table of constraints.\<close>

definition cs_inv :: "constraints \<Rightarrow> bool" where
  "cs_inv cs = (distinct (map fst cs) \<and> (\<forall>k c. map_of cs k = Some c \<longrightarrow> kc_inv c))"

definition cs_sat :: "constraints \<Rightarrow> str_map \<Rightarrow> bool" where
  "cs_sat cs labels = (\<forall>k. kc_sat (constraintFor cs k) (labels k))"

lemma cs_inv_Nil [simp]: "cs_inv []"
  by (simp add: cs_inv_def)

lemma cs_sat_Nil [simp]: "cs_sat [] labels"
  by (simp add: cs_sat_def constraintFor_def)

lemma kc_inv_constraintFor: "cs_inv cs \<Longrightarrow> kc_inv (constraintFor cs k)"
  by (auto simp: cs_inv_def constraintFor_def split: option.splits)

lemma constraintFor_add:
  "constraintFor (add_requirement cs key oper values) k =
     (if k = key then kc_add (constraintFor cs key) oper values else constraintFor cs k)"
  by (simp add: add_requirement_def constraintFor_def update_conv')

lemma cs_inv_add [simp]:
  assumes "cs_inv cs"
  shows "cs_inv (add_requirement cs key oper values)"
  using assms kc_inv_constraintFor [OF assms, of key]
  by (auto simp: cs_inv_def add_requirement_def distinct_update update_conv')

lemma cs_sat_add:
  "known_operator oper \<Longrightarrow>
   cs_sat (add_requirement cs key oper values) labels \<longleftrightarrow>
     cs_sat cs labels \<and> req_holds oper values (labels key)"
  by (auto simp: cs_sat_def constraintFor_add kc_sat_add split: if_splits)

lemma cs_add_labels:
  "cs_inv cs \<Longrightarrow> cs_inv (fold (\<lambda>(k, v) acc. add_requirement acc k LabelSelectorOpIn [v]) kvs cs)"
  "cs_sat (fold (\<lambda>(k, v) acc. add_requirement acc k LabelSelectorOpIn [v]) kvs cs) labels \<longleftrightarrow>
     cs_sat cs labels \<and> (\<forall>(k, v) \<in> set kvs. labels k = Some v)"
proof (induction kvs arbitrary: cs)
  case (Cons kv kvs)
  {
    case 1
    with Cons.IH(1) show ?case by (simp add: case_prod_beta)
  next
    case 2
    have "req_holds LabelSelectorOpIn [v] w \<longleftrightarrow> w = Some v" for v w
      by (auto simp: req_holds_def split: option.splits)
    then show ?case
      using Cons.IH(2) by (auto simp: cs_sat_add known_operator_def case_prod_beta)
  }
qed simp_all

lemma cs_add_exprs:
  "cs_inv cs \<Longrightarrow>
     cs_inv (fold (\<lambda>r acc. add_requirement acc (lr_key r) (lr_operator r) (lr_values r)) rs cs)"
  "list_all (\<lambda>r. known_operator (lr_operator r)) rs \<Longrightarrow>
   cs_sat (fold (\<lambda>r acc. add_requirement acc (lr_key r) (lr_operator r) (lr_values r)) rs cs) labels \<longleftrightarrow>
     cs_sat cs labels \<and> (\<forall>r \<in> set rs. req_holds (lr_operator r) (lr_values r) (labels (lr_key r)))"
  by (induction rs arbitrary: cs) (auto simp: cs_sat_add)

lemma cs_inv_add_selector: "cs_inv cs \<Longrightarrow> cs_inv (add_selector cs sel)"
  by (simp add: add_selector_def cs_add_exprs(1) cs_add_labels(1))

lemma cs_sat_add_selector:
  "known_operators sel \<Longrightarrow> cs_sat (add_selector cs sel) labels \<longleftrightarrow> cs_sat cs labels \<and> selector_matches sel labels"
  by (auto simp: add_selector_def cs_add_exprs(2) cs_add_labels(2) selector_matches_def known_operators_def)

lemma all_satisfiable_iff:
  assumes "cs_inv cs"
  shows "list_all (\<lambda>(k, c). satisfiable c) cs \<longleftrightarrow> (\<exists>labels. cs_sat cs labels)"
proof -
  have entries: "list_all (\<lambda>(k, c). satisfiable c) cs \<longleftrightarrow> (\<forall>k c. map_of cs k = Some c \<longrightarrow> satisfiable c)"
    using assms by (auto simp: list_all_iff cs_inv_def map_of_eq_Some_iff)
  have "(\<forall>k c. map_of cs k = Some c \<longrightarrow> satisfiable c) \<longleftrightarrow> (\<forall>k. satisfiable (constraintFor cs k))"
    by (auto simp: constraintFor_def satisfiable_def new_constraint_def split: option.splits)
  also have "\<dots> \<longleftrightarrow> (\<forall>k. \<exists>v. kc_sat (constraintFor cs k) v)"
    using assms by (simp add: satisfiable_iff kc_inv_constraintFor)
  also have "\<dots> \<longleftrightarrow> (\<exists>labels. cs_sat cs labels)"
    unfolding cs_sat_def by (rule choice_iff)
  finally show ?thesis using entries by simp
qed

subsection \<open>Correctness of \<open>SelectorsOverlap\<close>\<close>

lemma SelectorsOverlap_parsed:
  assumes "selector_laws E" "as_selector E (Some a) = Inr ma" "as_selector E (Some b) = Inr mb"
  shows "SelectorsOverlap E (Some a) (Some b) = Inr (\<exists>labels. selector_matches a labels \<and> selector_matches b labels)"
proof -
  have known: "known_operators a" "known_operators b"
    using assms selector_lawsD(1) by blast+
  let ?cs = "add_selector (add_selector [] a) b"
  have "SelectorsOverlap E (Some a) (Some b) = Inr (list_all (\<lambda>(k, c). satisfiable c) ?cs)"
    using assms by (simp add: SelectorsOverlap_def)
  also have "\<dots> = Inr (\<exists>labels. cs_sat ?cs labels)"
    by (subst all_satisfiable_iff) (simp_all add: cs_inv_add_selector)
  finally show ?thesis
    by (simp add: cs_sat_add_selector known)
qed

text \<open>C6: \<open>SelectorsOverlap\<close> decides overlap: for two selectors the API accepts, it answers true
  exactly when some set of Pod labels is matched by both, whatever their keys, values and operators.\<close>

theorem SelectorsOverlap_correct:
  assumes "selector_laws E" "as_selector E (Some a) = Inr ma" "as_selector E (Some b) = Inr mb"
  shows "SelectorsOverlap E (Some a) (Some b) = Inr (\<exists>labels. ma labels \<and> mb labels)"
  using assms SelectorsOverlap_parsed selector_lawsD(2) by simp

lemma SelectorsOverlap_correct_witness:
  "\<exists>a b ma mb. as_selector ref_env (Some a) = Inr ma \<and> as_selector ref_env (Some b) = Inr mb \<and>
     SelectorsOverlap ref_env (Some a) (Some b) = Inr (\<exists>labels. ma labels \<and> mb labels) \<and>
     SelectorsOverlap ref_env (Some a) (Some b) = Inr True"
proof -
  let ?a = "\<lparr>sel_labels = [(''app'', ''web'')], sel_exprs = []\<rparr>"
  let ?b = "\<lparr>sel_labels = [], sel_exprs = [\<lparr>lr_key = ''tier'', lr_operator = ''NotIn'', lr_values = [''db'']\<rparr>]\<rparr>"
  have parsed: "as_selector ref_env (Some ?a) = Inr (selector_matches ?a)"
       "as_selector ref_env (Some ?b) = Inr (selector_matches ?b)"
    by (simp_all add: ref_selector_def known_operators_def known_operator_def)
  have "SelectorsOverlap ref_env (Some ?a) (Some ?b) = Inr True"
    using parsed by (simp add: SelectorsOverlap_def add_selector_def add_requirement_def constraintFor_def
        kc_add_def satisfiable_def new_constraint_def)
  with SelectorsOverlap_correct [OF selector_laws_ref_env parsed] parsed show ?thesis
    by blast
qed

end
