(* ===== verification/Wc_Validation.thy ===== *)
theory Wc_Validation
  imports Selector Temporal Best_Match Gke_Guardrail
begin

text \<open>
  The validation half of \<open>internal/controller/workloadclass_controller.go\<close>: the Validated
  condition of a WorkloadClass. It is computed from the spec, the effective (strictest)
  disruption constraints of all guardrails, the capacity constraints, and the WorkloadClasses
  whose selectors overlap.
\<close>

abbreviation placementUnattachedMsg :: string where
  "placementUnattachedMsg \<equiv> ''WorkloadClass references an infrastructure profile, but the plugin has not attached''"
abbreviation validationPassedMsg :: string where
  "validationPassedMsg \<equiv> ''WorkloadClass adheres to all Guardrail constraints''"
abbreviation noGuardrailsMsg :: string where
  "noGuardrailsMsg \<equiv> ''No Guardrails found to validate against''"
abbreviation disjointDaysOfWeekMsg :: string where
  "disjointDaysOfWeekMsg \<equiv> ''cluster guardrails restrict `daysOfWeek` to disjoint sets, so no disruption window can comply; contact your cluster administrator''"
abbreviation maxConditionMessageLen :: nat where
  "maxConditionMessageLen \<equiv> 32768"
abbreviation maxReportedOverlaps :: nat where
  "maxReportedOverlaps \<equiv> 5"

subsection \<open>Messages\<close>

text \<open>\<open>utf8.RuneStart\<close>: not a continuation byte.\<close>

definition rune_start :: "char \<Rightarrow> bool" where
  "rune_start c = ((of_char c :: nat) div 64 \<noteq> 2)"

fun cut_back :: "string \<Rightarrow> nat \<Rightarrow> nat" where
  "cut_back msg 0 = 0"
| "cut_back msg (Suc n) = (if \<not> rune_start (msg ! Suc n) then cut_back msg n else Suc n)"

definition truncateMessage :: "string \<Rightarrow> nat \<Rightarrow> string" where
  "truncateMessage msg max_len =
     (if length msg \<le> max_len then msg
      else if max_len \<le> length ''...'' then take max_len ''...''
      else take (cut_back msg (max_len - length ''...'')) msg @ ''...'')"

definition validated_condition_record :: "go_time \<Rightarrow> int \<Rightarrow> condition" where
  "validated_condition_record now generation =
     \<lparr>c_type = ConditionTypeValidated, c_status = ConditionTrue, c_reason = ReasonValidationPassed,
      c_message = validationPassedMsg, c_observed = generation, c_transition = now\<rparr>"

definition condition_for :: "go_time \<Rightarrow> int \<Rightarrow> string list \<Rightarrow> condition" where
  "condition_for now generation violations =
     (let cond = validated_condition_record now generation
      in if length violations > 0 then
           cond\<lparr>c_status := ConditionFalse, c_reason := ReasonValidationFailed,
             c_message := truncateMessage (str_join violations ''; '') maxConditionMessageLen\<rparr>
         else cond)"

subsection \<open>Spec\<close>

definition window_spec_violations :: "env \<Rightarrow> disruption_window \<Rightarrow> string list" where
  "window_spec_violations E dw =
     (case WeekdaysValid (dw_days dw) of
        Some err \<Rightarrow> [''disruption window '' @ [CHR 0x27] @ dw_name dw @ [CHR 0x27] @ '': '' @ err]
      | None \<Rightarrow> []) @
     (if dw_time_zone dw \<noteq> '''' \<and> \<not> TimeZoneValid E (dw_time_zone dw) then
        [''`timeZone` of disruption window '' @ [CHR 0x27] @ dw_name dw @ [CHR 0x27] @
         '' must be a valid IANA time zone name other than '' @ [CHR 0x27] @ ''Local'' @ [CHR 0x27] @ '', got '' @
         [CHR 0x27] @ dw_time_zone dw @ [CHR 0x27]]
      else [])"

definition validateSpec :: "env \<Rightarrow> workload_class \<Rightarrow> string list" where
  "validateSpec E wc =
     (case wc_selector wc of
        None \<Rightarrow> []
      | Some sel \<Rightarrow>
          (case as_selector E (Some sel) of
             Inl err \<Rightarrow> [''`podSelector` must be a valid label selector: '' @ err]
           | Inr m \<Rightarrow> [])) @
     concat (map (window_spec_violations E) (dp_windows (wc_policy wc)))"

subsection \<open>Disruption guardrails\<close>

text \<open>The effective limits accumulated over the guardrails.\<close>

record limits =
  lim_days :: "string list"
  lim_restricted :: bool
  lim_windows :: int
  lim_duration :: int

definition strictest :: "int \<Rightarrow> int \<Rightarrow> int" where
  "strictest limit current = (if limit > 0 \<and> (current = 0 \<or> limit < current) then limit else current)"

definition limit_step :: "guardrail \<Rightarrow> limits \<Rightarrow> limits" where
  "limit_step g acc =
     (let d = gs_disruption (gr_spec g);
          acc1 = (if length (dl_days d) > 0 then
             acc\<lparr>lim_restricted := True, lim_days := filter (\<lambda>day. day \<in> set (dl_days d)) (lim_days acc)\<rparr>
           else acc)
      in acc1\<lparr>lim_windows := strictest (dl_max_windows d) (lim_windows acc1),
              lim_duration := strictest (dl_max_days d) (lim_duration acc1)\<rparr>)"

definition initial_limits :: limits where
  "initial_limits = \<lparr>lim_days = AllWeekdays, lim_restricted = False, lim_windows = 0, lim_duration = 0\<rparr>"

definition effective_limits :: "guardrail list \<Rightarrow> limits" where
  "effective_limits guardrails = fold limit_step guardrails initial_limits"

definition effective_guardrail :: "limits \<Rightarrow> guardrail" where
  "effective_guardrail l =
     \<lparr>gr_name = '''', gr_generation = 0,
      gr_spec = \<lparr>gs_disruption = \<lparr>dl_days = (if lim_restricted l then lim_days l else []),
          dl_max_windows = lim_windows l, dl_max_days = lim_duration l, dl_timeout = 0, dl_emergency = False\<rparr>,
        gs_plugin = None\<rparr>,
      gr_conditions = []\<rparr>"

definition validateAgainstGuardrails :: "workload_class \<Rightarrow> guardrail list \<Rightarrow> string list" where
  "validateAgainstGuardrails wc guardrails =
     (if length guardrails = 0 then []
      else let l = effective_limits guardrails
           in (if lim_restricted l \<and> length (lim_days l) = 0 then [disjointDaysOfWeekMsg] else []) @
              GuardrailViolations wc (effective_guardrail l))"

subsection \<open>Capacity strategy guardrails\<close>

text \<open>The effective capacity constraints and the errors met so far.\<close>

record capacity_limits =
  cl_mode :: string
  cl_min_ratio :: int
  cl_allow :: bool
  cl_errors :: "string list"

definition fallback_is_zero :: "int_or_string \<Rightarrow> bool" where
  "fallback_is_zero r = (case r of IntVal i \<Rightarrow> i = 0 | StrVal v \<Rightarrow> v = ''0%'' \<or> v = ''0'')"

text \<open>The switch on the enforcement mode.\<close>

definition apply_mode :: "env \<Rightarrow> string \<Rightarrow> string \<Rightarrow> capacity_limits \<Rightarrow> capacity_limits" where
  "apply_mode E g_name mode acc =
     (if mode = '''' \<or> mode = AllowedEnforcementMode then acc
      else if mode = ForbiddenEnforcementMode then acc\<lparr>cl_mode := ForbiddenEnforcementMode, cl_min_ratio := 0\<rparr>
      else if mode = RequiredEnforcementMode then
        (if cl_mode acc \<noteq> ForbiddenEnforcementMode then acc\<lparr>cl_mode := RequiredEnforcementMode\<rparr> else acc)
      else acc\<lparr>cl_errors := cl_errors acc @ [''guardrail '' @ g_name @ '' has invalid enforcementMode '' @ quote E mode @
             '': must be one of Allowed, Required, Forbidden'']\<rparr>)"

definition apply_fallback :: "fallback_constraints option \<Rightarrow> capacity_limits \<Rightarrow> capacity_limits" where
  "apply_fallback fb acc =
     (case fb of None \<Rightarrow> acc
      | Some f \<Rightarrow>
          let acc1 = (if fc_allow f = Some False then acc\<lparr>cl_allow := False\<rparr> else acc)
          in case fc_max_ratio f of
               None \<Rightarrow> acc1
             | Some r \<Rightarrow> if fallback_is_zero r then acc1\<lparr>cl_allow := False\<rparr> else acc1)"

text \<open>One iteration over the placement constraints; an unparsable \<open>minSpotRatio\<close> skips the
  fallback part of its entry (\<open>continue\<close>).\<close>

definition capacity_step :: "env \<Rightarrow> string \<Rightarrow> string + spot_params \<Rightarrow> capacity_limits \<Rightarrow> capacity_limits" where
  "capacity_step E g_name entry acc =
     (case entry of
        Inl err \<Rightarrow> acc\<lparr>cl_errors := cl_errors acc @ [''guardrail '' @ g_name @ '': '' @ err]\<rparr>
      | Inr params \<Rightarrow>
          let acc1 = apply_mode E g_name (sg_mode params) acc
          in case sg_min_ratio params of
               None \<Rightarrow> apply_fallback (sg_fallback params) acc1
             | Some r \<Rightarrow>
                 (case ParsePercentage E r of
                    Inl err \<Rightarrow> acc1\<lparr>cl_errors := cl_errors acc1 @ [''guardrail '' @ g_name @ '' has invalid minSpotRatio '' @
                        quote E r @ '': '' @ err]\<rparr>
                  | Inr parsed \<Rightarrow>
                      let acc2 = (if cl_mode acc1 \<noteq> ForbiddenEnforcementMode \<and> parsed > cl_min_ratio acc1
                            then acc1\<lparr>cl_min_ratio := parsed\<rparr> else acc1)
                      in apply_fallback (sg_fallback params) acc2))"

definition applyPlacementCapacityConstraints ::
  "env \<Rightarrow> string \<Rightarrow> plugin_constraint list \<Rightarrow> capacity_limits \<Rightarrow> capacity_limits" where
  "applyPlacementCapacityConstraints E g_name placement acc =
     fold (capacity_step E g_name) (spot_entries E placement) acc"

definition initial_capacity :: capacity_limits where
  "initial_capacity = \<lparr>cl_mode = AllowedEnforcementMode, cl_min_ratio = 0, cl_allow = True, cl_errors = []\<rparr>"

definition guardrailCapacityConstraints :: "env \<Rightarrow> guardrail list \<Rightarrow> capacity_limits" where
  "guardrailCapacityConstraints E guardrails =
     fold (\<lambda>g acc. case gs_plugin (gr_spec g) of
         None \<Rightarrow> acc | Some placement \<Rightarrow> applyPlacementCapacityConstraints E (gr_name g) placement acc)
       guardrails initial_capacity"

definition effective_type :: "capacity_strategy \<Rightarrow> string" where
  "effective_type cs = (if cs_type cs = '''' then SpotPlacementTypeSpot else cs_type cs)"

definition effective_action :: "capacity_strategy \<Rightarrow> string" where
  "effective_action cs = (if cs_fallback cs = '''' then FallbackActionFail else cs_fallback cs)"

text \<open>The ratio of the strategy: \<open>Inl\<close> is an invalid one (\<open>spotRatioValid\<close> is false).\<close>

definition strategy_ratio :: "env \<Rightarrow> capacity_strategy \<Rightarrow> string + int" where
  "strategy_ratio E cs =
     (if effective_type cs = SpotPlacementTypeOnDemand then Inr 0
      else if cs_spot_ratio cs \<noteq> '''' then ParsePercentage E (cs_spot_ratio cs)
      else Inr 100)"

definition capacity_violations :: "env \<Rightarrow> capacity_limits \<Rightarrow> capacity_strategy \<Rightarrow> string list" where
  "capacity_violations E lim cs =
     (let cs_ty = effective_type cs;
          ratio = strategy_ratio E cs;
          is_spot = (cs_ty = SpotPlacementTypeSpot)
      in (case ratio of Inl err \<Rightarrow> [''invalid spotRatio '' @ quote E (cs_spot_ratio cs) @ '': '' @ err] | Inr r \<Rightarrow> []) @
         (if cl_mode lim = RequiredEnforcementMode then
            (if \<not> is_spot then [''capacityStrategy type '' @ cs_ty @ '' is not allowed when guardrail enforcementMode is Required'']
             else if ratio = Inr 0 then [''spotRatio cannot be 0% when guardrail enforcementMode is Required'']
             else [])
          else if cl_mode lim = ForbiddenEnforcementMode then
            (if is_spot then [''capacityStrategy type '' @ cs_ty @ '' is not allowed when guardrail enforcementMode is Forbidden'']
             else [])
          else []) @
         (case ratio of
            Inl err \<Rightarrow> []
          | Inr r \<Rightarrow>
              if is_spot \<and> cl_min_ratio lim > 0 \<and> r < cl_min_ratio lim then
                [''spotRatio '' @ show_int r @ ''% is less than guardrail minSpotRatio '' @ show_int (cl_min_ratio lim) @ ''%'']
              else []) @
         (if \<not> cl_allow lim \<and> effective_action cs = FallbackActionFallbackToOnDemand then
            [''fallback action FallbackToOnDemand is not allowed when guardrail disallows fallback to OnDemand'']
          else []))"

definition validateCapacityStrategy :: "env \<Rightarrow> workload_class \<Rightarrow> guardrail list \<Rightarrow> string list" where
  "validateCapacityStrategy E wc guardrails =
     (if length guardrails = 0 then []
      else let lim = guardrailCapacityConstraints E guardrails;
               parse_violations = (if cl_errors lim = [] then []
                 else [''failed to parse guardrail parameters: '' @ str_join (cl_errors lim) [CHR 0x0A]])
           in case wc_capacity wc of
                None \<Rightarrow> parse_violations @
                  (if cl_mode lim = RequiredEnforcementMode
                   then [''capacityStrategy is required when guardrail enforcementMode is Required''] else [])
              | Some cs \<Rightarrow> parse_violations @ capacity_violations E lim cs)"

subsection \<open>Overlapping selectors\<close>

definition selectorOverlapMessage :: "workload_class list \<Rightarrow> string" where
  "selectorOverlapMessage overlapping =
     (if length overlapping = 0 then ''''
      else let names = sort (map wc_name overlapping);
               limit = min (length names) maxReportedOverlaps;
               extra = length names - limit;
               listed0 = QuotedList (take limit names);
               listed = (if extra > 0 then listed0 @ '', and '' @ show_nat extra @ '' more'' else listed0)
           in ''`podSelector` must not select the same Pods as another WorkloadClass in the namespace, '' @
              ''but it overlaps with the `podSelector` of '' @ listed)"

definition overlaps_with :: "env \<Rightarrow> workload_class \<Rightarrow> workload_class \<Rightarrow> bool" where
  "overlaps_with E wc other =
     (if wc_name other = wc_name wc \<or> \<not> time_unset (wc_deletion other) then False
      else case SelectorsOverlap E (wc_selector wc) (wc_selector other) of
          Inl err \<Rightarrow> False | Inr overlap \<Rightarrow> overlap)"

definition overlappingWorkloadClasses ::
  "env \<Rightarrow> 's client \<Rightarrow> 's \<Rightarrow> workload_class \<Rightarrow> api_error + workload_class list" where
  "overlappingWorkloadClasses E C s wc =
     (case NamespaceEnforcedWorkloadClass C s (wc_namespace wc) of
        Inl err \<Rightarrow> Inl err
      | Inr (Some w) \<Rightarrow> Inr []
      | Inr None \<Rightarrow>
          (case list_wcs C s (wc_namespace wc) of
             Inl err \<Rightarrow> Inl (wrap_error ''failed to list WorkloadClasses: '' err)
           | Inr items \<Rightarrow> Inr (sort_key wc_name (filter (overlaps_with E wc) items))))"

subsection \<open>The Validated condition\<close>

definition wc_violations :: "env \<Rightarrow> workload_class \<Rightarrow> guardrail list \<Rightarrow> string list" where
  "wc_violations E wc guardrails =
     validateSpec E wc @ validateAgainstGuardrails wc guardrails @ validateCapacityStrategy E wc guardrails"

definition validatedCondition ::
  "env \<Rightarrow> go_time \<Rightarrow> workload_class \<Rightarrow> guardrail list \<Rightarrow> workload_class list \<Rightarrow> condition" where
  "validatedCondition E now wc guardrails overlapping =
     (let cond = validated_condition_record now (wc_generation wc);
          violations = wc_violations E wc guardrails;
          overlap_msg = selectorOverlapMessage overlapping
      in if length violations > 0 then
           let all_violations = (if overlap_msg \<noteq> '''' then violations @ [overlap_msg] else violations)
           in cond\<lparr>c_status := ConditionFalse, c_reason := ReasonValidationFailed,
                c_message := truncateMessage (str_join all_violations ''; '') maxConditionMessageLen\<rparr>
         else if overlap_msg \<noteq> '''' then
           cond\<lparr>c_status := ConditionFalse, c_reason := ReasonSelectorOverlap,
             c_message := truncateMessage overlap_msg maxConditionMessageLen\<rparr>
         else if length guardrails = 0 then
           cond\<lparr>c_reason := ReasonNoGuardrails, c_message := noGuardrailsMsg\<rparr>
         else cond)"

definition placementPluginCondition :: "env \<Rightarrow> go_time \<Rightarrow> workload_class \<Rightarrow> condition option" where
  "placementPluginCondition E now wc =
     (case wc_infra wc of
        None \<Rightarrow> None
      | Some ref \<Rightarrow>
          (let pending = \<lparr>c_type = ConditionTypePlacementPluginAttached, c_status = ConditionFalse,
                 c_reason = ReasonPluginPending,
                 c_message = ''Waiting for plugin controller to reconcile '' @ ir_kind ref,
                 c_observed = wc_generation wc, c_transition = now\<rparr>
           in case find_status_condition E (wc_conditions wc) ConditionTypePlacementPluginAttached of
                None \<Rightarrow> Some pending
              | Some existing \<Rightarrow>
                  if c_observed existing = wc_generation wc then Some existing else Some pending))"

definition addPlacementViolation :: "go_time \<Rightarrow> condition \<Rightarrow> condition \<Rightarrow> condition" where
  "addPlacementViolation now validation placement =
     (let violation_msg = (if c_message placement \<noteq> '''' then placementUnattachedMsg @ '': '' @ c_message placement
            else placementUnattachedMsg);
          msg = (if c_status validation = ConditionFalse
            then truncateMessage (c_message validation @ ''; '' @ violation_msg) maxConditionMessageLen
            else truncateMessage violation_msg maxConditionMessageLen)
      in validation\<lparr>c_message := msg, c_status := ConditionFalse, c_reason := ReasonValidationFailed,
           c_transition := now\<rparr>)"

definition reconcileConditions :: "go_time \<Rightarrow> condition option \<Rightarrow> condition option \<Rightarrow> condition option" where
  "reconcileConditions now validation placement =
     (case (validation, placement) of
        (Some v, Some p) \<Rightarrow> if c_status p = ConditionTrue then Some v else Some (addPlacementViolation now v p)
      | _ \<Rightarrow> validation)"

subsection \<open>The effective limits of several guardrails\<close>

definition day_lists :: "guardrail list \<Rightarrow> string list list" where
  "day_lists gs = filter (\<lambda>ds. ds \<noteq> []) (map (\<lambda>g. dl_days (gs_disruption (gr_spec g))) gs)"

text \<open>\<open>strictest\<close> folded over a list: 0 when no limit is positive, else the least positive one.\<close>

lemma strictest_le_iff:
  "0 \<le> c \<Longrightarrow> (strictest l c > 0 \<longrightarrow> n \<le> strictest l c) \<longleftrightarrow> (l > 0 \<longrightarrow> n \<le> l) \<and> (c > 0 \<longrightarrow> n \<le> c)"
  by (auto simp: strictest_def)

lemma strictest_nonneg: "0 \<le> c \<Longrightarrow> 0 \<le> strictest l c"
  by (auto simp: strictest_def)

lemma fold_limit_step_windows:
  "lim_windows (fold limit_step gs l) = fold (\<lambda>g. strictest (dl_max_windows (gs_disruption (gr_spec g)))) gs (lim_windows l)"
  by (induction gs arbitrary: l) (auto simp: limit_step_def Let_def)

lemma fold_limit_step_duration:
  "lim_duration (fold limit_step gs l) = fold (\<lambda>g. strictest (dl_max_days (gs_disruption (gr_spec g)))) gs (lim_duration l)"
  by (induction gs arbitrary: l) (auto simp: limit_step_def Let_def)

lemma fold_limit_step_days:
  "set (lim_days (fold limit_step gs l)) = set (lim_days l) \<inter> (\<Inter>ds \<in> set (day_lists gs). set ds)"
  "lim_restricted (fold limit_step gs l) \<longleftrightarrow> lim_restricted l \<or> day_lists gs \<noteq> []"
  by (induction gs arbitrary: l) (auto simp: limit_step_def Let_def day_lists_def)

lemma fold_strictest_le:
  "0 \<le> c \<Longrightarrow> (fold (\<lambda>g. strictest (f g)) gs c > 0 \<longrightarrow> n \<le> fold (\<lambda>g. strictest (f g)) gs c) \<longleftrightarrow>
     (c > 0 \<longrightarrow> n \<le> c) \<and> (\<forall>g \<in> set gs. f g > 0 \<longrightarrow> n \<le> f g)"
proof (induction gs arbitrary: c)
  case (Cons g gs)
  show ?case
    using Cons.IH [OF strictest_nonneg [OF Cons.prems, of "f g"]] strictest_le_iff [OF Cons.prems, of "f g" n] by auto
qed simp

lemma fold_strictest_pos:
  "0 \<le> c \<Longrightarrow> fold (\<lambda>g. strictest (f g)) gs c > 0 \<longleftrightarrow> c > 0 \<or> (\<exists>g \<in> set gs. f g > 0)"
proof (induction gs arbitrary: c)
  case (Cons g gs)
  have "strictest (f g) c > 0 \<longleftrightarrow> f g > 0 \<or> c > 0"
    using Cons.prems by (auto simp: strictest_def)
  then show ?case
    using Cons.IH [OF strictest_nonneg [OF Cons.prems, of "f g"]] by auto
qed simp

lemma allowed_days_nonempty: "allowed_days windows \<noteq> {}"
  by (cases windows) (auto simp: allowed_days_def window_days_def AllWeekdays_def)

lemma allowed_days_weekdays:
  "(\<And>dw. dw \<in> set windows \<Longrightarrow> WeekdaysValid (dw_days dw) = None) \<Longrightarrow> allowed_days windows \<subseteq> set AllWeekdays"
  by (auto simp: allowed_days_def window_days_def WeekdaysValid_None split: if_splits)

lemma effective_complies:
  fixes gs :: "guardrail list"
  assumes valid: "\<And>dw. dw \<in> set (dp_windows (wc_policy wc)) \<Longrightarrow> WeekdaysValid (dw_days dw) = None"
  defines "l \<equiv> effective_limits gs"
  shows "(\<not> (lim_restricted l \<and> lim_days l = []) \<and> complies wc (gs_disruption (gr_spec (effective_guardrail l)))) \<longleftrightarrow>
         (\<forall>g \<in> set gs. complies wc (gs_disruption (gr_spec g)))"
proof -
  let ?allowed = "allowed_days (dp_windows (wc_policy wc))"
  let ?dis = "\<lambda>g :: guardrail. gs_disruption (gr_spec g)"
  have days: "set (lim_days l) = set AllWeekdays \<inter> (\<Inter>ds \<in> set (day_lists gs). set ds)"
    and restricted: "lim_restricted l \<longleftrightarrow> day_lists gs \<noteq> []"
    by (simp_all add: l_def effective_limits_def fold_limit_step_days initial_limits_def)
  have windows: "(lim_windows l > 0 \<longrightarrow> n \<le> lim_windows l) \<longleftrightarrow>
      (\<forall>g \<in> set gs. dl_max_windows (?dis g) > 0 \<longrightarrow> n \<le> dl_max_windows (?dis g))" for n
    by (simp add: l_def effective_limits_def fold_limit_step_windows initial_limits_def fold_strictest_le)
  have duration: "(lim_duration l > 0 \<longrightarrow> n \<le> lim_duration l) \<longleftrightarrow>
      (\<forall>g \<in> set gs. dl_max_days (?dis g) > 0 \<longrightarrow> n \<le> dl_max_days (?dis g))" for n
    by (simp add: l_def effective_limits_def fold_limit_step_duration initial_limits_def fold_strictest_le)
  have duration_pos: "lim_duration l > 0 \<longleftrightarrow> (\<exists>g \<in> set gs. dl_max_days (?dis g) > 0)"
    by (simp add: l_def effective_limits_def fold_limit_step_duration initial_limits_def fold_strictest_pos)
  have each: "(day_lists gs \<noteq> [] \<longrightarrow> lim_days l \<noteq> [] \<and> ?allowed \<subseteq> set (lim_days l)) \<longleftrightarrow>
      (\<forall>g \<in> set gs. dl_days (?dis g) \<noteq> [] \<longrightarrow> ?allowed \<subseteq> set (dl_days (?dis g)))"
  proof (cases "day_lists gs = []")
    case True
    then show ?thesis by (auto simp: day_lists_def filter_empty_conv)
  next
    case False
    have "?allowed \<subseteq> set (lim_days l) \<longleftrightarrow> (\<forall>ds \<in> set (day_lists gs). ?allowed \<subseteq> set ds)"
      using allowed_days_weekdays [OF valid] by (auto simp: days)
    moreover have "?allowed \<subseteq> set (lim_days l) \<Longrightarrow> lim_days l \<noteq> []"
      using allowed_days_nonempty [of "dp_windows (wc_policy wc)"] by auto
    ultimately show ?thesis
      using False by (auto simp: day_lists_def)
  qed
  have eff: "complies wc (gs_disruption (gr_spec (effective_guardrail l))) \<longleftrightarrow>
      (lim_restricted l \<and> lim_days l \<noteq> [] \<longrightarrow> ?allowed \<subseteq> set (lim_days l)) \<and>
      (lim_windows l > 0 \<longrightarrow> int (length (dp_windows (wc_policy wc))) \<le> lim_windows l) \<and>
      (lim_duration l > 0 \<longrightarrow> 0 < dp_max_days (wc_policy wc)) \<and>
      (lim_duration l > 0 \<longrightarrow> dp_max_days (wc_policy wc) \<le> lim_duration l)"
    by (auto simp: complies_def effective_guardrail_def)
  have all: "(\<forall>g \<in> set gs. complies wc (?dis g)) \<longleftrightarrow>
      (\<forall>g \<in> set gs. dl_days (?dis g) \<noteq> [] \<longrightarrow> ?allowed \<subseteq> set (dl_days (?dis g))) \<and>
      (\<forall>g \<in> set gs. dl_max_windows (?dis g) > 0 \<longrightarrow>
         int (length (dp_windows (wc_policy wc))) \<le> dl_max_windows (?dis g)) \<and>
      ((\<exists>g \<in> set gs. dl_max_days (?dis g) > 0) \<longrightarrow> 0 < dp_max_days (wc_policy wc)) \<and>
      (\<forall>g \<in> set gs. dl_max_days (?dis g) > 0 \<longrightarrow> dp_max_days (wc_policy wc) \<le> dl_max_days (?dis g))"
    unfolding complies_def by blast
  show ?thesis
    unfolding eff windows duration unfolding duration_pos all each [symmetric] restricted by argo
qed

lemma validateAgainstGuardrails_Nil:
  assumes "\<And>dw. dw \<in> set (dp_windows (wc_policy wc)) \<Longrightarrow> WeekdaysValid (dw_days dw) = None"
  shows "validateAgainstGuardrails wc gs = [] \<longleftrightarrow> (\<forall>g \<in> set gs. GuardrailViolations wc g = [])"
proof (cases "gs = []")
  case True
  then show ?thesis by (simp add: validateAgainstGuardrails_def)
next
  case False
  then show ?thesis
    using effective_complies [of wc gs, OF assms]
    by (auto simp: validateAgainstGuardrails_def Let_def GuardrailViolations_Nil)
qed

text \<open>C9: The strictest-constraint check is exact: for a WorkloadClass whose windows name real
  weekdays, \<open>validateAgainstGuardrails\<close> (which builds one effective guardrail) reports nothing
  exactly when the WorkloadClass violates none of the guardrails taken one by one.\<close>

theorem validateAgainstGuardrails_exact:
  assumes "list_all (\<lambda>dw. WeekdaysValid (dw_days dw) = None) (dp_windows (wc_policy wc))"
  shows "validateAgainstGuardrails wc guardrails = [] \<longleftrightarrow> (\<forall>g \<in> set guardrails. GuardrailViolations wc g = [])"
  using assms by (intro validateAgainstGuardrails_Nil) (simp add: list_all_iff)

lemma validateAgainstGuardrails_exact_witness:
  "validateAgainstGuardrails sample_wc [sample_guardrail, sample_guardrail] = [] \<longleftrightarrow>
     (\<forall>g \<in> set [sample_guardrail, sample_guardrail]. GuardrailViolations sample_wc g = [])"
  by (rule validateAgainstGuardrails_exact)
     (simp add: samples WeekdaysValid_None AllWeekdays_def)

subsection \<open>The effective capacity constraints\<close>

text \<open>All decoded \<open>gke-spot-placement\<close> entries of the guardrails, with their guardrail's name.\<close>

definition guardrail_entries :: "env \<Rightarrow> guardrail list \<Rightarrow> (string \<times> (string + spot_params)) list" where
  "guardrail_entries E gs =
     concat (map (\<lambda>g. case gs_plugin (gr_spec g) of None \<Rightarrow> []
       | Some placement \<Rightarrow> map (Pair (gr_name g)) (spot_entries E placement)) gs)"

definition decoded :: "env \<Rightarrow> guardrail list \<Rightarrow> spot_params list" where
  "decoded E gs = concat (map (\<lambda>(nm, entry). case entry of Inl err \<Rightarrow> [] | Inr p \<Rightarrow> [p]) (guardrail_entries E gs))"

definition ratio_demand :: "env \<Rightarrow> spot_params \<Rightarrow> int list" where
  "ratio_demand E p = (case sg_min_ratio p of None \<Rightarrow> []
     | Some r \<Rightarrow> (case ParsePercentage E r of Inl err \<Rightarrow> [] | Inr v \<Rightarrow> [v]))"

text \<open>An entry rules fallback out by disallowing it or by a maximal ratio of zero.\<close>

definition forbids_fallback :: "spot_params \<Rightarrow> bool" where
  "forbids_fallback p =
     (case sg_fallback p of None \<Rightarrow> False
      | Some f \<Rightarrow> fc_allow f = Some False \<or>
          (case fc_max_ratio f of None \<Rightarrow> False | Some r \<Rightarrow> fallback_is_zero r))"

definition ratio_readable :: "env \<Rightarrow> spot_params \<Rightarrow> bool" where
  "ratio_readable E p = (sg_min_ratio p \<noteq> None \<longrightarrow> ratio_demand E p \<noteq> [])"

lemma capacity_fold_entries:
  "fold (\<lambda>g acc. case gs_plugin (gr_spec g) of None \<Rightarrow> acc
     | Some placement \<Rightarrow> applyPlacementCapacityConstraints E (gr_name g) placement acc) gs acc =
   fold (\<lambda>(nm, entry). capacity_step E nm entry) (guardrail_entries E gs) acc"
  by (induction gs arbitrary: acc)
     (auto simp: guardrail_entries_def applyPlacementCapacityConstraints_def fold_map o_def split: option.splits)

lemma apply_mode_simps:
  "cl_mode (apply_mode E nm m acc) =
     (if m = ForbiddenEnforcementMode \<or> cl_mode acc = ForbiddenEnforcementMode then ForbiddenEnforcementMode
      else if m = RequiredEnforcementMode then RequiredEnforcementMode else cl_mode acc)"
  "cl_min_ratio (apply_mode E nm m acc) = (if m = ForbiddenEnforcementMode then 0 else cl_min_ratio acc)"
  "cl_allow (apply_mode E nm m acc) = cl_allow acc"
  by (auto simp: apply_mode_def)

lemma apply_fallback_simps:
  "cl_mode (apply_fallback f acc) = cl_mode acc" "cl_min_ratio (apply_fallback f acc) = cl_min_ratio acc"
  by (auto simp: apply_fallback_def Let_def split: option.splits)

lemma apply_fallback_allow:
  "cl_allow (apply_fallback f acc) \<longleftrightarrow> cl_allow acc \<and>
     \<not> (case f of None \<Rightarrow> False
       | Some x \<Rightarrow> fc_allow x = Some False \<or> (case fc_max_ratio x of None \<Rightarrow> False | Some r \<Rightarrow> fallback_is_zero r))"
  by (auto simp: apply_fallback_def Let_def split: option.splits)

lemma capacity_step_mode:
  "cl_mode (capacity_step E nm (Inr p) acc) =
     (if sg_mode p = ForbiddenEnforcementMode \<or> cl_mode acc = ForbiddenEnforcementMode then ForbiddenEnforcementMode
      else if sg_mode p = RequiredEnforcementMode then RequiredEnforcementMode else cl_mode acc)"
  by (simp add: capacity_step_def Let_def apply_mode_simps apply_fallback_simps split: option.split sum.split)

lemma capacity_step_ratio:
  assumes "cl_mode acc = ForbiddenEnforcementMode \<longrightarrow> cl_min_ratio acc = 0"
  shows "cl_min_ratio (capacity_step E nm (Inr p) acc) =
     (if sg_mode p = ForbiddenEnforcementMode \<or> cl_mode acc = ForbiddenEnforcementMode then 0
      else fold max (ratio_demand E p) (cl_min_ratio acc))"
  using assms
  by (simp add: capacity_step_def Let_def apply_mode_simps apply_fallback_simps ratio_demand_def max_def
      split: option.split sum.split)

lemma capacity_step_allow:
  "cl_allow (capacity_step E nm (Inr p) acc) \<longleftrightarrow> cl_allow acc \<and> \<not> (ratio_readable E p \<and> forbids_fallback p)"
  by (simp add: capacity_step_def Let_def apply_mode_simps apply_fallback_allow forbids_fallback_def ratio_demand_def
      ratio_readable_def split: option.split sum.split)

text \<open>Where the code departs from its comment: an entry whose \<open>minSpotRatio\<close> cannot be parsed does not
  disallow fallback, whatever its fallback part says. The parse error is reported instead.\<close>

lemma unreadable_ratio_keeps_fallback:
  "sg_min_ratio p = Some r \<Longrightarrow> ParsePercentage E r = Inl err \<Longrightarrow>
   cl_allow (capacity_step E nm (Inr p) acc) = cl_allow acc \<and> cl_errors (capacity_step E nm (Inr p) acc) \<noteq> []"
  by (simp add: capacity_step_def Let_def apply_mode_simps)

lemma apply_fallback_errors: "cl_errors (apply_fallback f acc) = cl_errors acc"
  by (auto simp: apply_fallback_def Let_def split: option.splits)

lemma capacity_step_errors:
  "cl_errors (capacity_step E nm e acc) = [] \<Longrightarrow> cl_errors acc = [] \<and> (\<forall>p. e = Inr p \<longrightarrow> ratio_readable E p)"
  by (auto simp: capacity_step_def apply_mode_def Let_def apply_fallback_errors ratio_readable_def ratio_demand_def
      split: sum.splits option.splits if_splits)

lemma capacity_fold_errors:
  assumes "cl_errors (fold (\<lambda>(nm, entry). capacity_step E nm entry) es acc) = []" "(nm, Inr p) \<in> set es"
  shows "ratio_readable E p"
  using assms
proof (induction es rule: rev_induct)
  case (snoc e es)
  obtain nm' entry where e: "e = (nm', entry)" by (cases e)
  show ?case
    using snoc capacity_step_errors [of E nm' entry "fold (\<lambda>(nm, entry). capacity_step E nm entry) es acc"]
    by (auto simp: e)
qed simp

lemma capacity_step_Inl:
  "cl_mode (capacity_step E nm (Inl e) acc) = cl_mode acc"
  "cl_min_ratio (capacity_step E nm (Inl e) acc) = cl_min_ratio acc"
  "cl_allow (capacity_step E nm (Inl e) acc) = cl_allow acc"
  by (simp_all add: capacity_step_def)

definition strongest_mode :: "spot_params list \<Rightarrow> string" where
  "strongest_mode ps =
     (if ForbiddenEnforcementMode \<in> sg_mode ` set ps then ForbiddenEnforcementMode
      else if RequiredEnforcementMode \<in> sg_mode ` set ps then RequiredEnforcementMode
      else AllowedEnforcementMode)"

lemma strongest_mode_snoc:
  "strongest_mode (ps @ [p]) =
     (if sg_mode p = ForbiddenEnforcementMode \<or> strongest_mode ps = ForbiddenEnforcementMode then ForbiddenEnforcementMode
      else if sg_mode p = RequiredEnforcementMode then RequiredEnforcementMode else strongest_mode ps)"
  by (cases "sg_mode p = ForbiddenEnforcementMode"; cases "sg_mode p = RequiredEnforcementMode")
     (simp_all add: strongest_mode_def)

lemma capacity_fold:
  defines "dec \<equiv> \<lambda>es :: (string \<times> (string + spot_params)) list.
    concat (map (\<lambda>(nm, entry). case entry of Inl err \<Rightarrow> [] | Inr p \<Rightarrow> [p]) es)"
  shows "cl_mode (fold (\<lambda>(nm, entry). capacity_step E nm entry) es initial_capacity) = strongest_mode (dec es) \<and>
    cl_min_ratio (fold (\<lambda>(nm, entry). capacity_step E nm entry) es initial_capacity) =
      (if strongest_mode (dec es) = ForbiddenEnforcementMode then 0
       else fold max (concat (map (ratio_demand E) (dec es))) 0) \<and>
    (cl_allow (fold (\<lambda>(nm, entry). capacity_step E nm entry) es initial_capacity) \<longleftrightarrow>
      (\<forall>p \<in> set (dec es). \<not> (ratio_readable E p \<and> forbids_fallback p)))"
proof (induction es rule: rev_induct)
  case Nil
  then show ?case by (simp add: dec_def strongest_mode_def initial_capacity_def)
next
  case (snoc e es)
  obtain nm entry where e: "e = (nm, entry)" by (cases e)
  show ?case
  proof (cases entry)
    case (Inl err)
    then have "dec (es @ [e]) = dec es" by (simp add: dec_def e)
    then show ?thesis using snoc Inl by (simp add: e capacity_step_Inl)
  next
    case (Inr p)
    let ?acc = "fold (\<lambda>(nm, entry). capacity_step E nm entry) es initial_capacity"
    have dec: "dec (es @ [e]) = dec es @ [p]" by (simp add: dec_def e Inr)
    have inv: "cl_mode ?acc = ForbiddenEnforcementMode \<longrightarrow> cl_min_ratio ?acc = 0" using snoc by simp
    show ?thesis
      using snoc unfolding dec
      by (simp add: e Inr capacity_step_mode capacity_step_ratio [OF inv] capacity_step_allow strongest_mode_snoc) blast
  qed
qed

lemma guardrailCapacityConstraints_components:
  "cl_mode (guardrailCapacityConstraints E gs) = strongest_mode (decoded E gs)"
  "cl_min_ratio (guardrailCapacityConstraints E gs) =
     (if strongest_mode (decoded E gs) = ForbiddenEnforcementMode then 0
      else fold max (concat (map (ratio_demand E) (decoded E gs))) 0)"
  "cl_allow (guardrailCapacityConstraints E gs) \<longleftrightarrow> (\<forall>p \<in> set (decoded E gs). \<not> (ratio_readable E p \<and> forbids_fallback p))"
  using capacity_fold [of E "guardrail_entries E gs"]
  by (simp_all add: guardrailCapacityConstraints_def capacity_fold_entries decoded_def)

lemma guardrailCapacityConstraints_readable:
  assumes "cl_errors (guardrailCapacityConstraints E gs) = []" "p \<in> set (decoded E gs)"
  shows "ratio_readable E p"
proof -
  obtain nm where "(nm, Inr p) \<in> set (guardrail_entries E gs)"
    using assms(2) by (auto simp: decoded_def split: sum.splits)
  then show ?thesis
    using capacity_fold_errors assms(1) unfolding guardrailCapacityConstraints_def capacity_fold_entries by blast
qed

lemma fold_max_ge:
  fixes b :: int
  shows "v \<in> set vs \<Longrightarrow> v \<le> fold max vs b" "b \<le> fold max vs b"
proof -
  have "b \<le> fold max vs b" for vs and b :: int
    by (induction vs arbitrary: b) (auto intro: order.trans [OF max.cobounded2])
  then show "b \<le> fold max vs b" .
  assume "v \<in> set vs"
  then show "v \<le> fold max vs b"
    using \<open>\<And>vs b. b \<le> fold max vs b\<close> by (induction vs arbitrary: b) (auto intro: order.trans [OF max.cobounded1])
qed

text \<open>C36: The capacity constraints of several guardrails combine to the most restrictive ones,
  whatever their order: Forbidden over Required over Allowed, the highest minimum Spot ratio (none
  under Forbidden), and, when the guardrails could be read without an error, fallback only if no entry
  rules it out by disallowing it or by a maximal ratio of zero.\<close>

theorem guardrailCapacityConstraints_strictest:
  "let ps = set (decoded E gs)
   in cl_mode (guardrailCapacityConstraints E gs) =
      (if ForbiddenEnforcementMode \<in> sg_mode ` ps then ForbiddenEnforcementMode
       else if RequiredEnforcementMode \<in> sg_mode ` ps then RequiredEnforcementMode
       else AllowedEnforcementMode) \<and>
    cl_min_ratio (guardrailCapacityConstraints E gs) =
      (if ForbiddenEnforcementMode \<in> sg_mode ` ps then 0
       else Max (insert 0 (\<Union>p \<in> ps. set (ratio_demand E p)))) \<and>
    (cl_errors (guardrailCapacityConstraints E gs) = [] \<longrightarrow>
       cl_allow (guardrailCapacityConstraints E gs) = (ps \<inter> Collect forbids_fallback = {}))"
proof -
  define ps where "ps = set (decoded E gs)"
  have mode: "strongest_mode (decoded E gs) = (if ForbiddenEnforcementMode \<in> sg_mode ` ps then ForbiddenEnforcementMode
       else if RequiredEnforcementMode \<in> sg_mode ` ps then RequiredEnforcementMode else AllowedEnforcementMode)"
    by (simp add: strongest_mode_def ps_def)
  have "fold max vs 0 = Max (insert 0 (set vs))" for vs :: "int list"
    using Max.set_eq_fold [of 0 vs] by simp
  then have "fold max (concat (map (ratio_demand E) (decoded E gs))) 0 = Max (insert 0 (\<Union>p \<in> ps. set (ratio_demand E p)))"
    by (simp add: ps_def)
  moreover have "ps \<inter> Collect forbids_fallback = {} \<longleftrightarrow> (\<forall>p \<in> ps. \<not> (ratio_readable E p \<and> forbids_fallback p))"
    if "cl_errors (guardrailCapacityConstraints E gs) = []"
    using guardrailCapacityConstraints_readable [OF that] by (auto simp: ps_def)
  ultimately show ?thesis
    unfolding guardrailCapacityConstraints_components mode by (simp add: ps_def Let_def)
qed

text \<open>A guardrail whose entry disallows fallback.\<close>

definition no_fallback_env :: env where
  "no_fallback_env = ref_env\<lparr>decode_params := \<lambda>raw. Inr (default_params\<lparr>sg_mode := RequiredEnforcementMode,
     sg_fallback := Some \<lparr>fc_allow = Some False, fc_max_ratio = None\<rparr>\<rparr>)\<rparr>"

lemma guardrailCapacityConstraints_strictest_witness:
  "\<not> cl_allow (guardrailCapacityConstraints no_fallback_env [spot_guardrail])"
proof -
  have "\<exists>p. decoded no_fallback_env [spot_guardrail] = [p] \<and> forbids_fallback p"
    by (simp add: decoded_def guardrail_entries_def spot_samples spot_entries_def ParseGKESpotGuardrailParameters_def
        no_fallback_env_def forbids_fallback_def)
  then have "set (decoded no_fallback_env [spot_guardrail]) \<inter> Collect forbids_fallback \<noteq> {}" by auto
  moreover have "cl_errors (guardrailCapacityConstraints no_fallback_env [spot_guardrail]) = []"
    by (simp add: guardrailCapacityConstraints_def initial_capacity_def applyPlacementCapacityConstraints_def
        spot_entries_def ParseGKESpotGuardrailParameters_def capacity_step_def apply_mode_def apply_fallback_def
        default_params_def no_fallback_env_def spot_samples)
  ultimately show ?thesis
    using guardrailCapacityConstraints_strictest [of no_fallback_env "[spot_guardrail]"] by (simp add: Let_def)
qed

text \<open>C37: No guardrail is bypassed: a WorkloadClass whose capacity strategy is accepted obeys every
  decoded entry of every guardrail. An entry that forbids Spot gets no Spot strategy; unless some
  entry forbids Spot, one that requires it gets a Spot strategy with a positive ratio and each
  minimum ratio is met; an entry that rules fallback out gets no fallback.\<close>

theorem validateCapacityStrategy_obeys:
  assumes ok: "validateCapacityStrategy E wc gs = []" and p: "p \<in> set (decoded E gs)"
  shows "(sg_mode p = ForbiddenEnforcementMode \<longrightarrow>
       (\<forall>cs. wc_capacity wc = Some cs \<longrightarrow> effective_type cs \<noteq> SpotPlacementTypeSpot)) \<and>
    (sg_mode p = RequiredEnforcementMode \<longrightarrow> ForbiddenEnforcementMode \<notin> sg_mode ` set (decoded E gs) \<longrightarrow>
       (\<exists>cs r. wc_capacity wc = Some cs \<and> effective_type cs = SpotPlacementTypeSpot \<and>
          strategy_ratio E cs = Inr r \<and> 0 < r)) \<and>
    (\<forall>cs v r. wc_capacity wc = Some cs \<longrightarrow> effective_type cs = SpotPlacementTypeSpot \<longrightarrow>
       ForbiddenEnforcementMode \<notin> sg_mode ` set (decoded E gs) \<longrightarrow> v \<in> set (ratio_demand E p) \<longrightarrow>
       strategy_ratio E cs = Inr r \<longrightarrow> v \<le> r) \<and>
    (forbids_fallback p \<longrightarrow>
       (\<forall>cs. wc_capacity wc = Some cs \<longrightarrow> effective_action cs \<noteq> FallbackActionFallbackToOnDemand))"
proof -
  let ?lim = "guardrailCapacityConstraints E gs" and ?ps = "set (decoded E gs)"
  have "gs \<noteq> []" using p by (auto simp: decoded_def guardrail_entries_def)
  then have no_capacity: "wc_capacity wc = None \<Longrightarrow> cl_mode ?lim \<noteq> RequiredEnforcementMode"
    and viol: "\<And>cs. wc_capacity wc = Some cs \<Longrightarrow> capacity_violations E ?lim cs = []"
    using ok by (auto simp: validateCapacityStrategy_def Let_def split: if_splits)
  have mode: "cl_mode ?lim = strongest_mode (decoded E gs)" by (rule guardrailCapacityConstraints_components)
  have forbidden: "sg_mode p = ForbiddenEnforcementMode \<Longrightarrow> cl_mode ?lim = ForbiddenEnforcementMode"
    using p unfolding mode strongest_mode_def by (simp add: rev_image_eqI)
  have required: "cl_mode ?lim = RequiredEnforcementMode"
    if "sg_mode p = RequiredEnforcementMode" "ForbiddenEnforcementMode \<notin> sg_mode ` ?ps"
    using p that unfolding mode strongest_mode_def by (simp add: rev_image_eqI)
  have ratio: "v \<le> cl_min_ratio ?lim"
    if "ForbiddenEnforcementMode \<notin> sg_mode ` ?ps" "v \<in> set (ratio_demand E p)" for v
  proof -
    have "strongest_mode (decoded E gs) \<noteq> ForbiddenEnforcementMode"
      using that(1) by (simp add: strongest_mode_def)
    then show ?thesis
      using that(2) p by (auto simp: guardrailCapacityConstraints_components intro!: fold_max_ge)
  qed
  have "cl_errors ?lim = []"
    using ok \<open>gs \<noteq> []\<close> by (auto simp: validateCapacityStrategy_def Let_def split: if_splits option.splits)
  then have allow: "forbids_fallback p \<Longrightarrow> \<not> cl_allow ?lim"
    using p guardrailCapacityConstraints_readable by (auto simp: guardrailCapacityConstraints_components)
  have range: "strategy_ratio E cs = Inr r \<Longrightarrow> 0 \<le> r" for cs r
    by (auto simp: strategy_ratio_def dest: ParsePercentage_range split: if_splits)
  have c1: "sg_mode p = ForbiddenEnforcementMode \<Longrightarrow> wc_capacity wc = Some cs \<Longrightarrow>
      effective_type cs \<noteq> SpotPlacementTypeSpot" for cs
    using viol [of cs] forbidden by (auto simp: capacity_violations_def Let_def split: if_splits)
  have c2: "\<exists>cs r. wc_capacity wc = Some cs \<and> effective_type cs = SpotPlacementTypeSpot \<and>
          strategy_ratio E cs = Inr r \<and> 0 < r"
    if "sg_mode p = RequiredEnforcementMode" "ForbiddenEnforcementMode \<notin> sg_mode ` ?ps"
  proof -
    note mode_required = required [OF that]
    then obtain cs where cs: "wc_capacity wc = Some cs" using no_capacity by auto
    have "effective_type cs = SpotPlacementTypeSpot" "strategy_ratio E cs \<noteq> Inr 0" "\<exists>r. strategy_ratio E cs = Inr r"
      using viol [OF cs] mode_required
      by (auto simp: capacity_violations_def Let_def split: if_splits sum.splits)
    then show ?thesis using cs range by (metis order_le_less)
  qed
  have c3: "v \<le> r" if "wc_capacity wc = Some cs" "effective_type cs = SpotPlacementTypeSpot"
      "ForbiddenEnforcementMode \<notin> sg_mode ` ?ps" "v \<in> set (ratio_demand E p)" "strategy_ratio E cs = Inr r" for cs v r
    using viol [OF that(1)] ratio [OF that(3,4)] range [OF that(5)] that(2,5)
    by (auto simp: capacity_violations_def Let_def split: if_splits)
  have c4: "forbids_fallback p \<Longrightarrow> wc_capacity wc = Some cs \<Longrightarrow>
      effective_action cs \<noteq> FallbackActionFallbackToOnDemand" for cs
    using viol [of cs] allow by (auto simp: capacity_violations_def Let_def split: if_splits)
  show ?thesis using c1 c2 c3 c4 by blast
qed

lemma decoded_spot_guardrail:
  "decoded ref_env [spot_guardrail] = [default_params\<lparr>sg_mode := RequiredEnforcementMode\<rparr>]"
  by (simp add: decoded_def guardrail_entries_def spot_samples spot_entries_def ParseGKESpotGuardrailParameters_def)

lemma validateCapacityStrategy_obeys_witness:
  "validateCapacityStrategy ref_env spot_wc [spot_guardrail] = [] \<and>
   (\<exists>cs r. wc_capacity spot_wc = Some cs \<and> effective_type cs = SpotPlacementTypeSpot \<and>
      strategy_ratio ref_env cs = Inr r \<and> 0 < r)"
proof -
  let ?p = "default_params\<lparr>sg_mode := RequiredEnforcementMode\<rparr>"
  have p: "?p \<in> set (decoded ref_env [spot_guardrail])" by (simp add: decoded_spot_guardrail)
  have ok: "validateCapacityStrategy ref_env spot_wc [spot_guardrail] = []"
    by (simp add: validateCapacityStrategy_def Let_def guardrailCapacityConstraints_def initial_capacity_def
        applyPlacementCapacityConstraints_def spot_entries_def ParseGKESpotGuardrailParameters_def capacity_step_def
        apply_mode_def apply_fallback_def default_params_def capacity_violations_def effective_type_def
        effective_action_def strategy_ratio_def spot_samples)
  have "ForbiddenEnforcementMode \<notin> sg_mode ` set (decoded ref_env [spot_guardrail])"
    by (simp add: decoded_spot_guardrail)
  then show ?thesis using ok validateCapacityStrategy_obeys [OF ok p] by simp
qed

subsection \<open>Messages that fit\<close>

text \<open>A UTF-8 string is a sequence of encoded runes: a start byte and its continuation bytes.\<close>

definition encoded_rune :: "string \<Rightarrow> bool" where
  "encoded_rune r = (r \<noteq> [] \<and> rune_start (hd r) \<and> (\<forall>c \<in> set (tl r). \<not> rune_start c))"

lemma cut_back_le: "cut_back msg n \<le> n"
  by (induction n) (auto intro: le_SucI)

lemma cut_back_start: "cut_back msg n = 0 \<or> rune_start (msg ! cut_back msg n)"
  by (induction n) auto

lemma take_runes:
  assumes "list_all encoded_rune rs" "k < length (concat rs)" "k = 0 \<or> rune_start (concat rs ! k)"
  shows "\<exists>j. take k (concat rs) = concat (take j rs)"
  using assms
proof (induction rs arbitrary: k)
  case (Cons r rs)
  consider "k = 0" | "0 < k" "k < length r" | "length r \<le> k" by linarith
  then show ?case
  proof cases
    case 1
    then show ?thesis by (intro exI [of _ 0]) simp
  next
    case 2
    then have "concat (r # rs) ! k = tl r ! (k - 1)" "k - 1 < length (tl r)"
      by (auto simp: nth_append nth_tl)
    then have "concat (r # rs) ! k \<in> set (tl r)" by (metis nth_mem)
    then show ?thesis using Cons.prems 2 by (auto simp: encoded_rune_def)
  next
    case 3
    have start: "k - length r = 0 \<or> rune_start (concat rs ! (k - length r))"
      using Cons.prems(1,3) 3 by (auto simp: nth_append encoded_rune_def)
    obtain j where "take (k - length r) (concat rs) = concat (take j rs)"
    proof -
      have "k - length r < length (concat rs)" using Cons.prems(2) 3 by (simp add: less_diff_conv2)
      from Cons.IH [OF _ this start] Cons.prems(1) that show ?thesis by auto
    qed
    then show ?thesis using 3 by (intro exI [of _ "Suc j"]) simp
  qed
qed simp

text \<open>\<open>truncateMessage\<close> returns at most \<open>maxLen\<close> bytes and never splits a rune: a message that is
  too long becomes a prefix of whole runes followed by an ellipsis, a message that fits is unchanged.\<close>

theorem truncateMessage_spec:
  assumes "list_all encoded_rune rs"
  shows "length (truncateMessage (concat rs) n) \<le> n \<and>
    (length (concat rs) \<le> n \<longrightarrow> truncateMessage (concat rs) n = concat rs) \<and>
    (n < length (concat rs) \<longrightarrow> 3 < n \<longrightarrow> (\<exists>j. truncateMessage (concat rs) n = concat (take j rs) @ ''...''))"
proof -
  let ?c = "cut_back (concat rs) (n - 3)"
  have "?c \<le> n - 3" by (rule cut_back_le)
  moreover have "\<exists>j. take ?c (concat rs) = concat (take j rs)" if "n < length (concat rs)" "3 < n"
    using assms that cut_back_le [of "concat rs" "n - 3"] cut_back_start [of "concat rs" "n - 3"]
    by (intro take_runes) auto
  ultimately show ?thesis by (auto simp: truncateMessage_def numeral_3_eq_3)
qed

lemma truncateMessage_spec_witness:
  "truncateMessage (concat [''a'', ''b'', [CHR 0xC3, CHR 0xA9], ''c'', ''d'']) 6 = ''ab'' @ [CHR 0xC3, CHR 0xA9] @ ''cd'' \<and>
   length (truncateMessage (concat [''a'', [CHR 0xC3, CHR 0xA9], ''c'', ''d'', ''e'']) 5) \<le> 5"
proof -
  have "list_all encoded_rune [''a'', ''b'', [CHR 0xC3, CHR 0xA9], ''c'', ''d'']"
    "list_all encoded_rune [''a'', [CHR 0xC3, CHR 0xA9], ''c'', ''d'', ''e'']"
    by (simp_all add: encoded_rune_def rune_start_def)
  from truncateMessage_spec [OF this(1), of 6] truncateMessage_spec [OF this(2), of 5] show ?thesis by simp
qed

lemma length_truncateMessage: "length (truncateMessage msg n) \<le> n"
  using cut_back_le [of msg "n - 3"] by (auto simp: truncateMessage_def numeral_3_eq_3)

subsection \<open>The Validated condition\<close>

lemma selectorOverlapMessage_Nil [simp]: "selectorOverlapMessage ws = '''' \<longleftrightarrow> ws = []"
  by (simp add: selectorOverlapMessage_def Let_def)

text \<open>What the Validated condition says: it is True exactly when there is no violation and no
  selector overlap; the webhooks take the WorkloadClass as validated exactly when there is no
  violation, an overlap alone notwithstanding; the message fits the API limit and the condition
  describes the current generation.\<close>

theorem validatedCondition_spec:
  "let c = validatedCondition E now wc guardrails overlapping; vs = wc_violations E wc guardrails
   in (c_status c = ConditionTrue) = (vs = [] \<and> overlapping = []) \<and>
      IsValidated (Some c) = (vs = []) \<and>
      (c_reason c = ReasonValidationPassed) = (vs = [] \<and> overlapping = [] \<and> guardrails \<noteq> []) \<and>
      (c_reason c = ReasonSelectorOverlap) = (vs = [] \<and> overlapping \<noteq> []) \<and>
      length (c_message c) \<le> maxConditionMessageLen \<and>
      c_type c = ConditionTypeValidated \<and> c_observed c = wc_generation wc"
  by (simp add: validatedCondition_def validated_condition_record_def Let_def IsValidated_def length_truncateMessage)

text \<open>C34: Without a reported overlap a WorkloadClass is the governor of every Pod it selects: in a
  namespace with no enforced class, if the overlap check of \<open>wc\<close> finds nothing, then \<open>wc\<close> is the best
  match of each Pod it is eligible for.\<close>

theorem no_overlap_governs:
  assumes laws: "selector_laws E"
    and enforced: "NamespaceEnforcedWorkloadClass C s (wc_namespace wc) = Inr None"
    and listed: "list_wcs C s (wc_namespace wc) = Inr wcs" "wc \<in> set wcs" "distinct (map wc_name wcs)"
    and none: "overlappingWorkloadClasses E C s wc = Inr []"
    and selects: "eligible E p wc"
  shows "ms_best (selectBestMatchFromList E p wcs) = Some wc"
proof (rule best_match.sole_candidate [OF listed(2) selects])
  fix v
  assume v: "v \<in> set wcs" "eligible E p v"
  show "v = wc"
  proof (rule ccontr)
    assume "v \<noteq> wc"
    then have names: "wc_name v \<noteq> wc_name wc"
      using v(1) listed(2,3) by (auto simp: distinct_map dest: inj_onD)
    obtain m m' where parsed: "as_selector E (wc_selector wc) = Inr m" "m (pod_labels p)"
      "as_selector E (wc_selector v) = Inr m'" "m' (pod_labels p)"
      using selects v(2) by (auto simp: eligible_def split: sum.splits)
    obtain a b where sels: "wc_selector wc = Some a" "wc_selector v = Some b"
      using parsed selector_laws_None [OF laws] by (cases "wc_selector wc"; cases "wc_selector v") auto
    have "SelectorsOverlap E (Some a) (Some b) = Inr True"
      using SelectorsOverlap_parsed [OF laws, of a m b m'] parsed selector_lawsD(2) [OF laws] unfolding sels by auto
    then have "overlaps_with E wc v"
      using names v(2) by (simp add: overlaps_with_def sels eligible_def)
    moreover have "filter (overlaps_with E wc) wcs = []"
    proof -
      have "sort_key wc_name (filter (overlaps_with E wc) wcs) = []"
        using none enforced listed(1) by (simp add: overlappingWorkloadClasses_def)
      then show ?thesis by (metis set_sort set_empty)
    qed
    ultimately show False using v(1) by (auto simp: filter_empty_conv)
  qed
qed

lemma no_overlap_governs_witness:
  "ms_best (selectBestMatchFromList ref_env sample_pod [sample_wc]) = Some sample_wc"
proof (rule no_overlap_governs [OF selector_laws_ref_env, of ref_client sample_cluster])
  show "NamespaceEnforcedWorkloadClass ref_client sample_cluster (wc_namespace sample_wc) = Inr None"
    by (simp add: NamespaceEnforcedWorkloadClass_def sample_cluster_def samples)
  show "overlappingWorkloadClasses ref_env ref_client sample_cluster sample_wc = Inr []"
    by (simp add: overlappingWorkloadClasses_def NamespaceEnforcedWorkloadClass_def sample_cluster_def samples
        overlaps_with_def)
  show "eligible ref_env sample_pod sample_wc"
    using sample_selects sample_selected by (simp add: eligible_def) (simp add: samples)
qed (simp_all add: sample_cluster_def)

subsection \<open>A rejected guardrail that WorkloadClasses can satisfy\<close>

text \<open>Of the combinations of parameters the guardrail validator rejects as contradictory, not all are:
  requiring Spot with a minimal ratio of 0 percent is obeyed by a WorkloadClass with a Spot strategy.\<close>

definition zero_params :: spot_params where
  "zero_params = default_params\<lparr>sg_mode := RequiredEnforcementMode, sg_min_ratio := Some ''0%''\<rparr>"

definition zero_env :: env where
  "zero_env = ref_env\<lparr>decode_params := (\<lambda>raw. Inr zero_params)\<rparr>"

lemma required_zero_satisfiable:
  "spot_params_violations zero_env zero_params \<noteq> [] \<and>
   validateCapacityStrategy zero_env spot_wc [spot_guardrail] = []"
  by code_simp

end
