(* ===== verification/Spot_Policy.thy ===== *)
theory Spot_Policy
  imports Wc_Validation Status_Writer
begin

text \<open>
  \<open>internal/controller/gkespotplacementpolicy_controller.go\<close>: validation of a
  GKESpotPlacementPolicy against the guardrails, and the PlacementPluginAttached condition of
  the WorkloadClasses that reference it; then what a valid policy obeys and which classes end up attached.
\<close>

subsection \<open>Validation\<close>

text \<open>The Go map of seen messages holds exactly the messages collected so far.\<close>

definition addViolation :: "string \<Rightarrow> string list \<Rightarrow> string list" where
  "addViolation msg violations = (if msg \<notin> set violations then violations @ [msg] else violations)"

definition validateReversionConstraints ::
  "reversion_constraints option \<Rightarrow> reversion_policy \<Rightarrow> string \<Rightarrow> string list \<Rightarrow> string list" where
  "validateReversionConstraints rconstraints reversion reversion_action violations =
     (case rconstraints of
        None \<Rightarrow> violations
      | Some rc \<Rightarrow>
          let v1 = (case rc_required_action rc of
                Some required \<Rightarrow> if reversion_action \<noteq> required then
                    addViolation (''reversion action '' @ reversion_action @
                      '' does not match guardrail requiredReversionAction '' @ required) violations
                  else violations
              | None \<Rightarrow> violations)
          in case rc_max_duration rc of
               None \<Rightarrow> v1
             | Some max_d \<Rightarrow>
                 let v2 = (if reversion_action = NoneReversionAction then
                       addViolation ''reversion action cannot be None when guardrail specifies maxFallbackDuration'' v1
                     else v1)
                 in case rp_min_duration reversion of
                      None \<Rightarrow> v2
                    | Some min_d \<Rightarrow>
                        if min_d > max_d then
                          addViolation (''minDurationOnFallback '' @ duration_string min_d @
                            '' exceeds guardrail maxFallbackDuration '' @ duration_string max_d) v2
                        else v2)"

definition policy_entry_step ::
  "reversion_policy \<Rightarrow> string \<Rightarrow> string + spot_params \<Rightarrow> string list \<Rightarrow> string list" where
  "policy_entry_step reversion reversion_action entry violations =
     (case entry of
        Inl err \<Rightarrow> addViolation (''invalid '' @ PluginNameGKESpotPlacement @ '' parameters: '' @ err) violations
      | Inr params \<Rightarrow>
          let v1 = (if sg_mode params = ForbiddenEnforcementMode then
                addViolation ''GKESpotPlacementPolicy is not allowed when guardrail enforcementMode is Forbidden'' violations
              else violations)
          in validateReversionConstraints (sg_reversion params) reversion reversion_action v1)"

definition validateAgainstPlacementConstraints ::
  "env \<Rightarrow> plugin_constraint list \<Rightarrow> reversion_policy \<Rightarrow> string \<Rightarrow> string list \<Rightarrow> string list" where
  "validateAgainstPlacementConstraints E placement reversion reversion_action violations =
     fold (policy_entry_step reversion reversion_action) (spot_entries E placement) violations"

definition effective_reversion :: "spot_policy \<Rightarrow> string" where
  "effective_reversion policy =
     (if rp_action (ps_reversion (sp_spec policy)) = '''' then NoneReversionAction
      else rp_action (ps_reversion (sp_spec policy)))"

definition validateSpotPolicyAgainstGuardrails :: "env \<Rightarrow> spot_policy \<Rightarrow> guardrail list \<Rightarrow> string list" where
  "validateSpotPolicyAgainstGuardrails E policy guardrails =
     fold (\<lambda>g acc. case gs_plugin (gr_spec g) of
         None \<Rightarrow> acc
       | Some placement \<Rightarrow>
           validateAgainstPlacementConstraints E placement (ps_reversion (sp_spec policy))
             (effective_reversion policy) acc)
       guardrails []"

definition policy_condition :: "env \<Rightarrow> 's client \<Rightarrow> 's \<Rightarrow> go_time \<Rightarrow> spot_policy \<Rightarrow> api_error + condition" where
  "policy_condition E C s now policy =
     (case list_guardrails C s of
        Inl err \<Rightarrow> Inl err
      | Inr items \<Rightarrow>
          if length items = 0 then
            Inr \<lparr>c_type = ConditionTypeValidated, c_status = ConditionTrue, c_reason = ReasonNoGuardrails,
              c_message = noGuardrailsMsg, c_observed = sp_generation policy, c_transition = now\<rparr>
          else Inr (condition_for now (sp_generation policy) (validateSpotPolicyAgainstGuardrails E policy items)))"

subsection \<open>Attaching WorkloadClasses\<close>

record status_options =
  so_status :: string
  so_reason :: string
  so_message :: string

definition attached_condition :: "go_time \<Rightarrow> status_options \<Rightarrow> workload_class \<Rightarrow> condition" where
  "attached_condition now options latest =
     \<lparr>c_type = ConditionTypePlacementPluginAttached, c_status = so_status options,
      c_reason = so_reason options, c_message = so_message options,
      c_observed = wc_generation latest, c_transition = now\<rparr>"

definition attach_attempt ::
  "env \<Rightarrow> 's client \<Rightarrow> go_time \<Rightarrow> workload_class \<Rightarrow> status_options \<Rightarrow> 's
    \<Rightarrow> (api_error option \<times> workload_class) \<times> 's" where
  "attach_attempt E C now wc options s =
     (case get_wc C s (wc_namespace wc) (wc_name wc) of
        Inl err \<Rightarrow> ((ignore_not_found err, wc), s)
      | Inr latest \<Rightarrow>
          let (cs, changed) = set_status_condition E now (wc_conditions latest) (attached_condition now options latest)
          in if changed then
               (let (err, s') = update_wc_status C (with_conditions latest cs) s in ((err, wc), s'))
             else ((None, wc), s))"

definition updateWorkloadClassStatus ::
  "env \<Rightarrow> 's client \<Rightarrow> go_time \<Rightarrow> workload_class \<Rightarrow> status_options \<Rightarrow> 's \<Rightarrow> api_error option \<times> 's" where
  "updateWorkloadClassStatus E C now wc options s =
     (let ((err, wc'), s') = retry_on_conflict C (attach_attempt E C now wc options) s in (err, s'))"

definition references_policy :: "string \<Rightarrow> workload_class \<Rightarrow> bool" where
  "references_policy policy_name wc =
     (case wc_infra wc of None \<Rightarrow> False
      | Some ref \<Rightarrow> ReferencesGKESpotPlacementPolicy (Some ref) \<and> ir_name ref = policy_name)"

text \<open>The loop over the WorkloadClasses: every referencing one is updated, errors are collected.\<close>

fun update_loop ::
  "env \<Rightarrow> 's client \<Rightarrow> go_time \<Rightarrow> string \<Rightarrow> status_options \<Rightarrow> workload_class list \<Rightarrow> api_error list \<times> 's
    \<Rightarrow> api_error list \<times> 's" where
  "update_loop E C now policy_name options [] acc = acc"
| "update_loop E C now policy_name options (wc # wcs) (errs, s) =
     (if \<not> references_policy policy_name wc then update_loop E C now policy_name options wcs (errs, s)
      else case updateWorkloadClassStatus E C now wc options s of
          (Some err, s') \<Rightarrow> update_loop E C now policy_name options wcs (errs @ [err], s')
        | (None, s') \<Rightarrow> update_loop E C now policy_name options wcs (errs, s'))"

definition updateReferencingWorkloadClasses ::
  "env \<Rightarrow> 's client \<Rightarrow> go_time \<Rightarrow> string \<Rightarrow> status_options \<Rightarrow> 's \<Rightarrow> api_error option \<times> 's" where
  "updateReferencingWorkloadClasses E C now policy_name options s =
     (case list_all_wcs C s of
        Inl err \<Rightarrow> (Some err, s)
      | Inr items \<Rightarrow> (let (errs, s') = update_loop E C now policy_name options items ([], s)
                      in (join_errors errs, s')))"

definition not_found_options :: "string \<Rightarrow> status_options" where
  "not_found_options policy_name =
     \<lparr>so_status = ConditionFalse, so_reason = ReasonPluginResolutionFailed,
      so_message = ''GKESpotPlacementPolicy '' @ [CHR 0x27] @ policy_name @ [CHR 0x27] @ '' not found''\<rparr>"

definition attach_options :: "spot_policy \<Rightarrow> condition \<Rightarrow> status_options" where
  "attach_options policy cond =
     (if c_status cond \<noteq> ConditionTrue then
        \<lparr>so_status = ConditionFalse, so_reason = ReasonPluginResolutionFailed,
         so_message = ''GKESpotPlacementPolicy '' @ [CHR 0x27] @ sp_name policy @ [CHR 0x27] @ '' is invalid: '' @ c_message cond\<rparr>
      else
        \<lparr>so_status = ConditionTrue, so_reason = ReasonProfileResolved,
         so_message = ''GKESpotPlacementPolicy '' @ [CHR 0x27] @ sp_name policy @ [CHR 0x27] @ '' attached''\<rparr>)"

definition with_policy_conditions :: "spot_policy \<Rightarrow> condition list \<Rightarrow> spot_policy" where
  "with_policy_conditions policy cs = policy\<lparr>sp_conditions := cs\<rparr>"

text \<open>The request's name only: policies are cluster-scoped. The result is the returned error.\<close>

definition Reconcile_SpotPolicy ::
  "env \<Rightarrow> 's client \<Rightarrow> go_time \<Rightarrow> string \<Rightarrow> 's \<Rightarrow> api_error option \<times> 's" where
  "Reconcile_SpotPolicy E C now req_nm s =
     (case get_policy C s req_nm of
        Inl err \<Rightarrow>
          if is_not_found err then updateReferencingWorkloadClasses E C now req_nm (not_found_options req_nm) s
          else (Some err, s)
      | Inr policy \<Rightarrow>
          (case policy_condition E C s now policy of
             Inl err \<Rightarrow> (Some err, s)
           | Inr cond \<Rightarrow>
               let (cs, changed) = set_status_condition E now (sp_conditions policy) cond;
                   (err, s1) = (if changed then update_policy_status C (with_policy_conditions policy cs) s else (None, s))
               in case err of
                    Some e \<Rightarrow> (Some e, s1)
                  | None \<Rightarrow> updateReferencingWorkloadClasses E C now (sp_name policy) (attach_options policy cond) s1))"

definition enqueueIfReferencesSpotPolicy :: "workload_class \<Rightarrow> string list" where
  "enqueueIfReferencesSpotPolicy wc =
     (case wc_infra wc of None \<Rightarrow> []
      | Some ref \<Rightarrow> if \<not> ReferencesGKESpotPlacementPolicy (Some ref) then [] else [ir_name ref])"

definition findSpotPoliciesToReconcile :: "'s client \<Rightarrow> 's \<Rightarrow> string list" where
  "findSpotPoliciesToReconcile C s =
     (case list_policies C s of Inl err \<Rightarrow> [] | Inr items \<Rightarrow> map sp_name items)"

subsection \<open>What a valid policy obeys\<close>

definition policy_obeys :: "reversion_policy \<Rightarrow> string \<Rightarrow> spot_params \<Rightarrow> bool" where
  "policy_obeys reversion reversion_action params =
     (sg_mode params \<noteq> ForbiddenEnforcementMode \<and>
      (case sg_reversion params of None \<Rightarrow> True
       | Some rc \<Rightarrow>
           (\<forall>a. rc_required_action rc = Some a \<longrightarrow> reversion_action = a) \<and>
           (\<forall>m. rc_max_duration rc = Some m \<longrightarrow> reversion_action \<noteq> NoneReversionAction \<and>
              (\<forall>d. rp_min_duration reversion = Some d \<longrightarrow> d \<le> m))))"

definition policy_valid :: "env \<Rightarrow> guardrail list \<Rightarrow> spot_policy \<Rightarrow> bool" where
  "policy_valid E gs policy =
     (\<forall>(nm, entry) \<in> set (guardrail_entries E gs).
        \<exists>params. entry = Inr params \<and>
          policy_obeys (ps_reversion (sp_spec policy)) (effective_reversion policy) params)"

lemma addViolation_nonempty [simp]: "addViolation msg vs \<noteq> []"
  by (auto simp: addViolation_def)

lemma policy_entry_step_Nil:
  "policy_entry_step reversion act entry vs = [] \<longleftrightarrow>
     vs = [] \<and> (\<exists>params. entry = Inr params \<and> policy_obeys reversion act params)"
  by (cases entry)
     (auto simp: policy_entry_step_def policy_obeys_def validateReversionConstraints_def Let_def
       split: option.splits if_splits)

lemma policy_entries_Nil:
  "fold (policy_entry_step reversion act) entries vs = [] \<longleftrightarrow>
     vs = [] \<and> (\<forall>entry \<in> set entries. \<exists>params. entry = Inr params \<and> policy_obeys reversion act params)"
  by (induction entries arbitrary: vs) (auto simp: policy_entry_step_Nil)

lemma policy_fold_entries:
  "fold (\<lambda>g acc. case gs_plugin (gr_spec g) of None \<Rightarrow> acc
     | Some placement \<Rightarrow> validateAgainstPlacementConstraints E placement reversion act acc) gs acc =
   fold (policy_entry_step reversion act) (map snd (guardrail_entries E gs)) acc"
  by (induction gs arbitrary: acc)
     (auto simp: guardrail_entries_def validateAgainstPlacementConstraints_def o_def split: option.splits)

lemma validateSpotPolicy_Nil:
  "validateSpotPolicyAgainstGuardrails E policy gs = [] \<longleftrightarrow> policy_valid E gs policy"
  unfolding validateSpotPolicyAgainstGuardrails_def policy_fold_entries policy_entries_Nil
  by (auto simp: policy_valid_def)

lemma policy_condition_status:
  assumes "policy_condition E C s now policy = Inr cond"
  shows "\<exists>gs. list_guardrails C s = Inr gs \<and> (c_status cond = ConditionTrue \<longleftrightarrow> policy_valid E gs policy)"
proof -
  obtain gs where gs: "list_guardrails C s = Inr gs"
    using assms by (auto simp: policy_condition_def split: sum.splits)
  have "policy_valid E [] policy" by (simp add: policy_valid_def guardrail_entries_def)
  then show ?thesis
    using assms gs
    by (auto simp: policy_condition_def condition_for_def validated_condition_record_def Let_def
        validateSpotPolicy_Nil [symmetric] split: if_splits)
qed

text \<open>The combination the guardrail validator rejects because no policy could satisfy it: it is exactly
  what, together with forbidding Spot, makes a guardrail entry unsatisfiable.\<close>

lemma reversion_combination_exact:
  assumes rc: "sg_reversion params = Some rc" "rc_required_action rc \<noteq> Some ''''"
  shows "(\<exists>reversion act. act \<noteq> '''' \<and> policy_obeys reversion act params) \<longleftrightarrow>
    sg_mode params \<noteq> ForbiddenEnforcementMode \<and> reversion_duration_violations params = []"
    (is "?l \<longleftrightarrow> ?r")
proof
  assume ?l then show ?r
    using rc by (auto simp: policy_obeys_def reversion_duration_violations_def)
next
  assume r: ?r
  define act where "act = (case rc_required_action rc of None \<Rightarrow> ActiveReversionAction | Some a \<Rightarrow> a)"
  have "policy_obeys \<lparr>rp_action = '''', rp_min_duration = None\<rparr> act params"
    using r rc by (auto simp: policy_obeys_def reversion_duration_violations_def act_def split: option.splits if_splits)
  moreover have "act \<noteq> ''''" using rc(2) by (auto simp: act_def split: option.split)
  ultimately show ?l by blast
qed

subsection \<open>Attached exactly when valid\<close>

text \<open>What a WorkloadClass says after its plugin status was written with the given options; one that
  is gone needs no status.\<close>

definition attached :: "env \<Rightarrow> status_options \<Rightarrow> workload_class \<Rightarrow> bool" where
  "attached E options w =
     (\<exists>c. find_status_condition E (wc_conditions w) ConditionTypePlacementPluginAttached = Some c \<and>
        same_content c (attached_condition 0 options w))"

abbreviation attach_done :: "env \<Rightarrow> 's client \<Rightarrow> status_options \<Rightarrow> 's \<Rightarrow> namespaced_name \<Rightarrow> bool" where
  "attach_done E C options \<equiv> settled (attached E options) C"

lemmas attach_done_def = settled_def attached_def

lemma attached_condition_content:
  "same_content c (attached_condition now options w) \<longleftrightarrow> same_content c (attached_condition 0 options w)"
  by (simp add: same_content_def attached_condition_def)

lemma attached_condition_type [simp]: "c_type (attached_condition now options w) = ConditionTypePlacementPluginAttached"
  by (simp add: attached_condition_def)

text \<open>\<open>updateWorkloadClassStatus\<close> is a status writer.\<close>

definition attach_edit :: "env \<Rightarrow> go_time \<Rightarrow> status_options \<Rightarrow> workload_class \<Rightarrow> condition list \<times> bool" where
  "attach_edit E now options latest =
     set_status_condition E now (wc_conditions latest) (attached_condition now options latest)"

interpretation attach: status_writer attach_attempt attach_edit attached "\<lambda>options. True"
proof (unfold_locales, goal_cases)
  case (1 C s wc e E now d)
  then show ?case by (simp add: attach_attempt_def)
next
  case (2 C s wc latest E now d cs changed)
  then show ?case by (simp add: attach_attempt_def attach_edit_def split: prod.split)
next
  case (3 E d now latest cs changed w)
  then show ?case
    using condition_lawsD(2) [OF 3(1), of now "wc_conditions latest" "attached_condition now d latest"]
    by (auto simp: attached_def attach_edit_def attached_condition_def same_content_def)
next
  case (4 E now d latest cs)
  then show ?case using condition_unchanged(1) by (simp add: attach_edit_def)
qed

lemma updateWorkloadClassStatus_keeps:
  assumes "status_store_laws C" "condition_laws E" "retry_law C" "attach_done E C options s k"
  shows "attach_done E C options (snd (updateWorkloadClassStatus E C now wc options s)) k"
  using attach.retried_keeps [OF assms(1-3) TrueI assms(4), of now wc]
  by (simp add: updateWorkloadClassStatus_def case_prod_beta)

lemma updateWorkloadClassStatus_done:
  assumes "status_store_laws C" "condition_laws E" "retry_law C"
    and "fst (updateWorkloadClassStatus E C now wc options s) = None"
  shows "attach_done E C options (snd (updateWorkloadClassStatus E C now wc options s)) (wc_key wc)"
  using attach.retried_done [OF assms(1-3) TrueI, of now wc options s] assms(4)
  by (simp add: updateWorkloadClassStatus_def case_prod_beta)

lemma update_loop_done:
  assumes laws: "status_store_laws C" "condition_laws E" "retry_law C"
  shows "fst (update_loop E C now nm options wcs (errs, s)) = [] \<Longrightarrow>
    errs = [] \<and>
    (\<forall>k. attach_done E C options s k \<longrightarrow> attach_done E C options (snd (update_loop E C now nm options wcs (errs, s))) k) \<and>
    (\<forall>wc \<in> set wcs. references_policy nm wc \<longrightarrow>
       attach_done E C options (snd (update_loop E C now nm options wcs (errs, s))) (wc_key wc))"
proof (induction wcs arbitrary: errs s)
  case (Cons wc wcs)
  show ?case
  proof (cases "references_policy nm wc")
    case False
    then show ?thesis using Cons by simp
  next
    case True
    obtain r s1 where u: "updateWorkloadClassStatus E C now wc options s = (r, s1)"
      by (cases "updateWorkloadClassStatus E C now wc options s")
    have none: "r = None"
    proof (rule ccontr)
      assume "r \<noteq> None"
      then obtain err where "r = Some err" by auto
      then show False using Cons.IH [of "errs @ [err]" s1] Cons.prems True u by simp
    qed
    then have "attach_done E C options s1 (wc_key wc)"
        "\<And>k. attach_done E C options s k \<Longrightarrow> attach_done E C options s1 k"
      using updateWorkloadClassStatus_done [OF laws, of now wc options s]
        updateWorkloadClassStatus_keeps [OF laws, of options s _ now wc] u by simp_all
    then show ?thesis using Cons.IH [of errs s1] Cons.prems True u none by (auto simp: wc_key_def)
  qed
qed simp

lemma updateReferencing_done:
  assumes "status_store_laws C" "condition_laws E" "retry_law C" "list_all_wcs C s = Inr ws"
    and "updateReferencingWorkloadClasses E C now nm options s = (None, s')"
    and "wc \<in> set ws" "references_policy nm wc"
  shows "attach_done E C options s' (wc_key wc)"
  using update_loop_done [OF assms(1-3), of now nm options ws "[]" s] assms(4-)
  by (auto simp: updateReferencingWorkloadClasses_def split: prod.splits)

lemma Reconcile_SpotPolicy_options:
  assumes laws: "status_store_laws C" "condition_laws E" "retry_law C" and ws: "list_all_wcs C s = Inr ws"
    and run: "Reconcile_SpotPolicy E C now nm s = (None, s')" and wc: "wc \<in> set ws" "references_policy nm wc"
  shows "\<exists>options. attach_done E C options s' (wc_key wc) \<and>
    (so_status options = ConditionTrue \<longleftrightarrow>
      (\<exists>policy gs. get_policy C s nm = Inr policy \<and> list_guardrails C s = Inr gs \<and> policy_valid E gs policy))"
proof (cases "get_policy C s nm")
  case (Inl err)
  then have "updateReferencingWorkloadClasses E C now nm (not_found_options nm) s = (None, s')"
    using run by (simp add: Reconcile_SpotPolicy_def split: if_splits)
  from updateReferencing_done [OF laws ws this wc] show ?thesis
    using Inl by (intro exI [of _ "not_found_options nm"]) (simp add: not_found_options_def)
next
  case (Inr policy)
  then have named: "sp_name policy = nm" by (rule status_store_lawsD(5) [OF laws(1)])
  obtain cond where cond: "policy_condition E C s now policy = Inr cond"
    using run Inr by (auto simp: Reconcile_SpotPolicy_def split: sum.splits)
  obtain s1 where s1: "list_all_wcs C s1 = Inr ws"
      "updateReferencingWorkloadClasses E C now nm (attach_options policy cond) s1 = (None, s')"
  proof (cases "snd (set_status_condition E now (sp_conditions policy) cond)")
    case False
    then show ?thesis using that [of s] run Inr cond ws named
      by (simp add: Reconcile_SpotPolicy_def split: prod.splits)
  next
    case True
    let ?p = "with_policy_conditions policy (fst (set_status_condition E now (sp_conditions policy) cond))"
    show ?thesis
      using that [of "snd (update_policy_status C ?p s)"] run Inr cond ws named True status_store_lawsD(6) [OF laws(1), of ?p s]
      by (simp add: Reconcile_SpotPolicy_def Let_def split: prod.splits option.splits)
  qed
  obtain gs where gs: "list_guardrails C s = Inr gs" "c_status cond = ConditionTrue \<longleftrightarrow> policy_valid E gs policy"
    using policy_condition_status [OF cond] by blast
  have "so_status (attach_options policy cond) = ConditionTrue \<longleftrightarrow> c_status cond = ConditionTrue"
    by (simp add: attach_options_def)
  then show ?thesis
    using updateReferencing_done [OF laws s1 wc] gs Inr by (intro exI [of _ "attach_options policy cond"]) simp
qed

text \<open>C19: The placement plugin attaches exactly the WorkloadClasses whose policy is valid. After the
  policy reconciler succeeded, every WorkloadClass that referenced the policy and still exists carries
  a PlacementPluginAttached condition for its current generation; it is true exactly if the policy
  exists and obeys every \<open>gke-spot-placement\<close> entry of every guardrail: none is unreadable or forbids
  Spot, a required reversion action is the policy's, and a maximal fallback duration excludes the
  action None and bounds the policy's minimal one. (Attachment is what lets the placement webhook and
  the reversion loop act.)\<close>

theorem Reconcile_SpotPolicy_attaches:
  assumes "status_store_laws C" "condition_laws E" "retry_law C" "list_all_wcs C s = Inr ws"
    and "Reconcile_SpotPolicy E C now nm s = (None, s')"
    and "wc \<in> set ws" "references_policy nm wc" "get_wc C s' (wc_namespace wc) (wc_name wc) = Inr w"
  shows "\<exists>c. find_status_condition E (wc_conditions w) ConditionTypePlacementPluginAttached = Some c \<and>
    c_observed c = wc_generation w \<and>
    (c_status c = ConditionTrue \<longleftrightarrow>
      (\<exists>policy gs. get_policy C s nm = Inr policy \<and> list_guardrails C s = Inr gs \<and> policy_valid E gs policy))"
proof -
  obtain options where o: "attach_done E C options s' (wc_key wc)"
    "so_status options = ConditionTrue \<longleftrightarrow>
      (\<exists>policy gs. get_policy C s nm = Inr policy \<and> list_guardrails C s = Inr gs \<and> policy_valid E gs policy)"
    using Reconcile_SpotPolicy_options [OF assms(1-7)] by blast
  from o(1) show ?thesis
    unfolding o(2) [symmetric] using assms(8)
    by (auto simp: attach_done_def wc_key_def same_content_def attached_condition_def)
qed

definition lazy_policy :: spot_policy where
  "lazy_policy = \<lparr>sp_name = ''spot'', sp_generation = 1,
     sp_spec = \<lparr>ps_compute_class = '''', ps_families = [],
       ps_reversion = \<lparr>rp_action = LazyReversionAction, rp_min_duration = None\<rparr>\<rparr>,
     sp_conditions = []\<rparr>"

definition profile_wc :: workload_class where
  "profile_wc = spot_wc\<lparr>wc_spec := (wc_spec spot_wc)\<lparr>ws_infra := Some
     \<lparr>ir_group = GroupVersionGroup, ir_kind = GKESpotPlacementPolicyKind, ir_name = ''spot''\<rparr>\<rparr>\<rparr>"

definition policy_cluster :: cluster where
  "policy_cluster = empty_cluster\<lparr>k_wcs := [profile_wc], k_guardrails := [spot_guardrail], k_policies := [lazy_policy]\<rparr>"

lemma policy_cluster_fields:
  "k_wcs policy_cluster = [profile_wc]" "k_guardrails policy_cluster = [spot_guardrail]"
  "k_policies policy_cluster = [lazy_policy]"
  by (simp_all add: policy_cluster_def)

lemma spot_guardrail_entries:
  "guardrail_entries ref_env [spot_guardrail] = [(''weekdays'', Inr (default_params\<lparr>sg_mode := RequiredEnforcementMode\<rparr>))]"
  by (simp add: guardrail_entries_def spot_samples spot_entries_def ParseGKESpotGuardrailParameters_def)

lemma lazy_policy_valid: "policy_valid ref_env [spot_guardrail] lazy_policy"
  by (simp add: policy_valid_def spot_guardrail_entries policy_obeys_def default_params_def)

lemma Reconcile_SpotPolicy_attaches_witness:
  "\<exists>s' w c. Reconcile_SpotPolicy ref_env ref_client 5 ''spot'' policy_cluster = (None, s') \<and>
     get_wc ref_client s' ''prod'' ''web'' = Inr w \<and>
     find_status_condition ref_env (wc_conditions w) ConditionTypePlacementPluginAttached = Some c \<and>
     c_status c = ConditionTrue"
proof -
  let ?run = "Reconcile_SpotPolicy ref_env ref_client 5 ''spot'' policy_cluster"
  have profile: "wc_namespace profile_wc = ''prod''" "wc_name profile_wc = ''web''"
    by (simp_all add: profile_wc_def spot_wc_def sample_wc_def)
  have refs: "references_policy ''spot'' profile_wc"
    by (simp add: references_policy_def profile_wc_def ReferencesGKESpotPlacementPolicy_def)
  have conds: "wc_conditions profile_wc = []" by (simp add: profile_wc_def spot_wc_def sample_wc_def)
  have updated: "\<exists>s' w. updateReferencingWorkloadClasses ref_env ref_client 5 ''spot'' options s = (None, s') \<and>
      get_wc ref_client s' ''prod'' ''web'' = Inr w" if "k_wcs s = [profile_wc]" for options s
    using profile refs
    by (simp add: updateReferencingWorkloadClasses_def that updateWorkloadClassStatus_def attach_attempt_def conds
        ref_set_def ref_find_def replace_by_def same_wc_def with_conditions_def)
  have written: "update_policy_status ref_client q u = (None, v) \<Longrightarrow> k_wcs v = k_wcs u" for q u v
    by (auto simp: ref_client_def)
  have written_ok: "fst (update_policy_status ref_client q u) = None" for q u
    by (simp add: ref_client_def)
  have name: "sp_name lazy_policy = ''spot''" by (simp add: lazy_policy_def)
  have "\<exists>s' w. ?run = (None, s') \<and> get_wc ref_client s' ''prod'' ''web'' = Inr w"
  proof -
    let ?cond = "condition_for 5 (sp_generation lazy_policy) (validateSpotPolicyAgainstGuardrails ref_env lazy_policy [spot_guardrail])"
    obtain cs ch where set: "ref_set 5 (sp_conditions lazy_policy) ?cond = (cs, ch)"
      by (cases "ref_set 5 (sp_conditions lazy_policy) ?cond")
    obtain v where v: "update_policy_status ref_client (with_policy_conditions lazy_policy cs) policy_cluster = (None, v)"
      using written_ok by (metis prod.collapse)
    show ?thesis
      using updated [of policy_cluster] updated [of v] written [OF v]
      by (cases ch) (simp_all add: Reconcile_SpotPolicy_def policy_cluster_fields policy_condition_def name set v)
  qed
  then obtain s' w where run: "?run = (None, s')" "get_wc ref_client s' ''prod'' ''web'' = Inr w" by blast
  have policy: "get_policy ref_client policy_cluster ''spot'' = Inr lazy_policy"
      "list_guardrails ref_client policy_cluster = Inr [spot_guardrail]"
    by (simp_all add: policy_cluster_fields lazy_policy_def)
  have "\<exists>c. find_status_condition ref_env (wc_conditions w) ConditionTypePlacementPluginAttached = Some c \<and>
      c_observed c = wc_generation w \<and> c_status c = ConditionTrue"
    using Reconcile_SpotPolicy_attaches [OF status_store_laws_ref condition_laws_ref_env retry_law_ref _ run(1), of "[profile_wc]" profile_wc w]
      run(2) refs policy lazy_policy_valid profile by (simp add: policy_cluster_fields)
  then show ?thesis using run by blast
qed

end
