(* ===== verification/Guardrail_Controller.thy ===== *)
theory Guardrail_Controller
  imports Wc_Validation Controller_Common Reference_Client
begin

text \<open>
  The two places that check a WorkloadClassGuardrail itself: its reconciler
  (\<open>internal/controller/workloadclassguardrail_controller.go\<close>) and its validating webhook
  (\<open>internal/webhook/v1/workloadclassguardrail_webhook.go\<close>). A webhook answer is the warnings and
  an optional error; an error rejects the object. The two are shown to agree.
\<close>

definition guardrail_violations :: "env \<Rightarrow> guardrail \<Rightarrow> string list" where
  "guardrail_violations E g =
     (case WeekdaysValid (dl_days (gs_disruption (gr_spec g))) of Some err \<Rightarrow> [err] | None \<Rightarrow> []) @
     ValidatePluginConstraints E (gs_plugin (gr_spec g))"

definition validate_guardrail :: "env \<Rightarrow> go_time \<Rightarrow> guardrail \<Rightarrow> condition" where
  "validate_guardrail E now g = condition_for now (gr_generation g) (guardrail_violations E g)"

definition Reconcile_Guardrail ::
  "env \<Rightarrow> 's client \<Rightarrow> go_time \<Rightarrow> string \<Rightarrow> 's \<Rightarrow> api_error option \<times> 's" where
  "Reconcile_Guardrail E C now req_nm s =
     (case get_guardrail C s req_nm of
        Inl err \<Rightarrow> (ignore_not_found err, s)
      | Inr g \<Rightarrow>
          let (cs, changed) = set_status_condition E now (gr_conditions g) (validate_guardrail E now g)
          in if changed then update_guardrail_status C (g\<lparr>gr_conditions := cs\<rparr>) s else (None, s))"

type_synonym admission = "string list \<times> string option"

definition validateGuardrailSpec :: "env \<Rightarrow> guardrail \<Rightarrow> admission" where
  "validateGuardrailSpec E g =
     (case WeekdaysValid (dl_days (gs_disruption (gr_spec g))) of
        Some err \<Rightarrow> ([err], Some err)
      | None \<Rightarrow>
          (let violations = ValidatePluginConstraints E (gs_plugin (gr_spec g))
           in if length violations > 0 then
                (let err = ''invalid pluginConstraints: '' @ str_join violations ''; '' in ([err], Some err))
              else ([], None)))"

definition noncompliance_warning :: "guardrail \<Rightarrow> workload_class \<Rightarrow> string list" where
  "noncompliance_warning g wc =
     (let violations = GuardrailViolations wc g
      in if length violations > 0 then
           [''existing WorkloadClass '' @ [CHR 0x27] @ wc_namespace wc @ ''/'' @ wc_name wc @ [CHR 0x27] @
            '' does not comply with this guardrail: '' @ str_join violations ''; '']
         else [])"

definition validateAgainstWorkloadClasses :: "'s client \<Rightarrow> 's \<Rightarrow> guardrail \<Rightarrow> admission" where
  "validateAgainstWorkloadClasses C s g =
     (case list_all_wcs C s of
        Inl err \<Rightarrow> ([''failed to list WorkloadClasses: '' @ err_msg err], Some (err_msg err))
      | Inr items \<Rightarrow> (concat (map (noncompliance_warning g) items), None))"

definition ValidateCreate :: "env \<Rightarrow> 's client \<Rightarrow> 's \<Rightarrow> guardrail \<Rightarrow> admission" where
  "ValidateCreate E C s g =
     (case validateGuardrailSpec E g of
        (warnings, Some err) \<Rightarrow> (warnings, Some err)
      | (warnings, None) \<Rightarrow> validateAgainstWorkloadClasses C s g)"

definition ValidateUpdate :: "env \<Rightarrow> 's client \<Rightarrow> 's \<Rightarrow> guardrail \<Rightarrow> guardrail \<Rightarrow> admission" where
  "ValidateUpdate E C s old_g new_g =
     (case validateGuardrailSpec E new_g of
        (warnings, Some err) \<Rightarrow> (warnings, Some err)
      | (warnings, None) \<Rightarrow> validateAgainstWorkloadClasses C s new_g)"

definition ValidateDelete :: "guardrail \<Rightarrow> admission" where
  "ValidateDelete g = ([], None)"

subsection \<open>Admission and reconciliation agree\<close>

lemma validateGuardrailSpec_accepts: "snd (validateGuardrailSpec E g) = None \<longleftrightarrow> guardrail_violations E g = []"
  by (simp add: validateGuardrailSpec_def guardrail_violations_def Let_def split: option.splits)

lemma validateGuardrailSpec_no_warning: "snd (validateGuardrailSpec E g) = None \<Longrightarrow> fst (validateGuardrailSpec E g) = []"
  by (simp add: validateGuardrailSpec_def Let_def split: option.splits if_splits)

lemma validate_guardrail_True: "c_status (validate_guardrail E now g) = ConditionTrue \<longleftrightarrow> guardrail_violations E g = []"
  by (simp add: validate_guardrail_def condition_for_def validated_condition_record_def Let_def)

lemma ValidateCreate_accepts:
  "snd (ValidateCreate E C s g) = None \<longleftrightarrow> guardrail_violations E g = [] \<and> (\<exists>ws. list_all_wcs C s = Inr ws)"
  using validateGuardrailSpec_accepts [of E g]
  by (auto simp: ValidateCreate_def validateAgainstWorkloadClasses_def split: prod.splits option.splits sum.splits)

lemma ValidateUpdate_is_create: "ValidateUpdate E C s old_g g = ValidateCreate E C s g"
  by (simp add: ValidateUpdate_def ValidateCreate_def)

lemma ValidateCreate_warnings:
  assumes "snd (ValidateCreate E C s g) = None" "list_all_wcs C s = Inr ws"
  shows "fst (ValidateCreate E C s g) = concat (map (noncompliance_warning g) ws)"
  using assms by (auto simp: ValidateCreate_def validateAgainstWorkloadClasses_def split: prod.splits option.splits)

lemma noncompliance_warning_Nil:
  "noncompliance_warning g wc = [] \<longleftrightarrow> complies wc (gs_disruption (gr_spec g))"
  by (simp add: noncompliance_warning_def Let_def GuardrailViolations_Nil)

lemma length_noncompliance_warnings:
  "length (concat (map (noncompliance_warning g) ws)) =
     length (filter (\<lambda>wc. \<not> complies wc (gs_disruption (gr_spec g))) ws)"
proof (induction ws)
  case (Cons w ws)
  have "length (noncompliance_warning g w) = (if complies w (gs_disruption (gr_spec g)) then 0 else 1)"
    by (simp add: noncompliance_warning_def Let_def GuardrailViolations_Nil)
  with Cons show ?case by simp
qed simp

text \<open>C31: The two places that check a guardrail agree. The webhook admits a new or changed guardrail
  exactly when the reconciler would find it valid (and the WorkloadClasses can be listed); it never
  rejects one because of existing WorkloadClasses, for which it returns one warning for each that does
  not comply with the new limits.\<close>

theorem guardrail_webhook_agrees:
  assumes "list_all_wcs C s = Inr ws"
  shows "(snd (ValidateCreate E C s g) = None \<longleftrightarrow> c_status (validate_guardrail E now g) = ConditionTrue) \<and>
    ValidateUpdate E C s old_g g = ValidateCreate E C s g \<and>
    (c_status (validate_guardrail E now g) = ConditionTrue \<longrightarrow>
       length (fst (ValidateCreate E C s g)) =
         length (filter (\<lambda>wc. \<not> complies wc (gs_disruption (gr_spec g))) ws))"
  using assms
  by (simp add: ValidateCreate_accepts validate_guardrail_True ValidateUpdate_is_create ValidateCreate_warnings
      length_noncompliance_warnings)

definition lax_wc :: workload_class where
  "lax_wc = sample_wc\<lparr>wc_spec := sample_spec\<lparr>ws_policy := sample_policy\<lparr>dp_max_days := 0\<rparr>\<rparr>\<rparr>"

lemma guardrail_webhook_agrees_witness:
  "snd (ValidateCreate ref_env ref_client (sample_cluster\<lparr>k_wcs := [sample_wc, lax_wc]\<rparr>) sample_guardrail) = None \<and>
   length (fst (ValidateCreate ref_env ref_client (sample_cluster\<lparr>k_wcs := [sample_wc, lax_wc]\<rparr>) sample_guardrail)) = 1"
proof -
  let ?s = "sample_cluster\<lparr>k_wcs := [sample_wc, lax_wc]\<rparr>"
  have listed: "list_all_wcs ref_client ?s = Inr [sample_wc, lax_wc]" by simp
  have valid: "c_status (validate_guardrail ref_env 0 sample_guardrail) = ConditionTrue"
    by (simp add: validate_guardrail_True guardrail_violations_def sample_guardrail_def WeekdaysValid_def
        AllWeekdays_def ValidatePluginConstraints_def)
  have "complies sample_wc (gs_disruption (gr_spec sample_guardrail))"
       "\<not> complies lax_wc (gs_disruption (gr_spec sample_guardrail))"
    by (simp_all add: complies_def samples lax_wc_def allowed_days_def window_days_def)
  then show ?thesis
    using guardrail_webhook_agrees [OF listed, of ref_env sample_guardrail 0 sample_guardrail] valid by simp
qed

end
