(* ===== verification/Wc_Readiness.thy ===== *)
theory Wc_Readiness
  imports Controller_Common
begin

text \<open>
  Maintenance readiness (\<open>calculateReadiness\<close> of \<open>workloadclass_controller.go\<close>): whether the
  Pods of a WorkloadClass may be disrupted now, and when that may change; then the decision as a whole.
\<close>

definition overdue :: "workload_class \<Rightarrow> go_time \<Rightarrow> bool" where
  "overdue wc now =
     (if dp_max_days (wc_policy wc) > 0 then
        (let max_duration = days_duration (dp_max_days (wc_policy wc))
         in case st_last_disruption (wc_status wc) of
              Some t \<Rightarrow> time_sub now t > max_duration
            | None \<Rightarrow> time_sub now (wc_created wc) > max_duration)
      else True)"

definition gracePeriodPassed :: "workload_class \<Rightarrow> pod \<Rightarrow> go_time \<Rightarrow> bool \<times> duration" where
  "gracePeriodPassed wc p now =
     (case pod_deletion p of
        None \<Rightarrow> (True, 0)
      | Some del \<Rightarrow>
          (let diff = i64 (secs_duration (dp_grace_seconds (wc_policy wc)) - time_sub now del)
           in (diff \<le> 0, diff)))"

definition evaluatePodGracePeriod :: "workload_class \<Rightarrow> pod \<Rightarrow> go_time \<Rightarrow> bool \<Rightarrow> duration \<Rightarrow> bool \<times> duration" where
  "evaluatePodGracePeriod wc p now passed max_duration =
     (let (passed_for_pod, time_until) = gracePeriodPassed wc p now
      in (passed \<and> passed_for_pod, max max_duration time_until))"

definition matched_pods ::
  "env \<Rightarrow> workload_class \<Rightarrow> workload_class option \<Rightarrow> workload_class list \<Rightarrow> pod list \<Rightarrow> pod list" where
  "matched_pods E wc enforced wcs pods =
     filter (\<lambda>p. \<not> (pod_phase p = ''Succeeded'' \<or> pod_phase p = ''Failed'') \<and>
        (case BestMatchWorkloadClassForPod E (Some p) enforced wcs of
           None \<Rightarrow> False | Some b \<Rightarrow> wc_name b = wc_name wc)) pods"

text \<open>The first active Pod that has not run long enough, as the time it has left.\<close>

fun too_young :: "duration \<Rightarrow> go_time \<Rightarrow> pod list \<Rightarrow> duration option" where
  "too_young min_run now [] = None"
| "too_young min_run now (p # ps) =
     (if \<not> IsPodActive (Some p) then too_young min_run now ps
      else if time_sub now (pod_created p) < min_run then Some (i64 (min_run - time_sub now (pod_created p)))
      else too_young min_run now ps)"

definition grace_periods :: "workload_class \<Rightarrow> go_time \<Rightarrow> pod list \<Rightarrow> bool \<times> duration" where
  "grace_periods wc now pods =
     fold (\<lambda>p acc. evaluatePodGracePeriod wc p now (fst acc) (snd acc)) pods (True, 0)"

text \<open>Steps 4 and 5: the checks on the matched Pods.\<close>

definition pods_readiness :: "workload_class \<Rightarrow> go_time \<Rightarrow> duration \<Rightarrow> pod list \<Rightarrow> string \<times> duration" where
  "pods_readiness wc now next_window pods =
     (let pol = wc_policy wc;
          young = (if dp_min_run_days pol > 0 then too_young (days_duration (dp_min_run_days pol)) now pods else None)
      in case young of
           Some left \<Rightarrow> (ReadinessNotReady, left)
         | None \<Rightarrow>
             if dp_grace_seconds pol > 0 \<and> \<not> fst (grace_periods wc now pods)
             then (ReadinessNotReady, snd (grace_periods wc now pods))
             else (ReadinessReady, next_window))"

definition calculateReadiness ::
  "env \<Rightarrow> 's client \<Rightarrow> 's \<Rightarrow> go_time \<Rightarrow> workload_class \<Rightarrow> api_error + string \<times> duration" where
  "calculateReadiness E C s now wc =
     (if dp_emergency (wc_policy wc) then Inr (ReadinessReady, 0)
      else if overdue wc now then Inr (ReadinessOverdue, 0)
      else let (in_window, next_window) = IsTimeInWindows E now (dp_windows (wc_policy wc))
           in if \<not> in_window then Inr (ReadinessNotReady, next_window)
              else bind_result (WorkloadClassPodSelector E C s wc) (\<lambda>selector.
                bind_result (list_pods C s (wc_namespace wc) selector) (\<lambda>pods.
                bind_result (NamespaceEnforcedWorkloadClass C s (wc_namespace wc)) (\<lambda>enforced.
                bind_result (list_wcs C s (wc_namespace wc)) (\<lambda>wcs.
                  Inr (pods_readiness wc now next_window (matched_pods E wc enforced wcs pods)))))))"

subsection \<open>What readiness means\<close>

lemma overdue_iff:
  assumes "0 < dp_max_days (wc_policy wc)" "dp_max_days (wc_policy wc) \<le> 106751"
    and "\<bar>now - (case st_last_disruption (wc_status wc) of Some t \<Rightarrow> t | None \<Rightarrow> wc_created wc)\<bar> < 2 ^ 63"
  shows "overdue wc now \<longleftrightarrow>
    dp_max_days (wc_policy wc) * 86400000000000 < now - (case st_last_disruption (wc_status wc) of Some t \<Rightarrow> t | None \<Rightarrow> wc_created wc)"
  using assms by (auto simp: overdue_def Let_def days_duration_id time_sub_id abs_less_iff split: option.splits)

text \<open>Two cases where the code departs from the API documentation, which says that an unset limit
  is no limit: without a limit every WorkloadClass is overdue, and a limit of 106752 days or more
  overflows \<open>int64\<close>.\<close>

lemma overdue_unset: "dp_max_days (wc_policy wc) \<le> 0 \<Longrightarrow> overdue wc now"
  by (simp add: overdue_def)

lemma days_duration_overflow: "days_duration 106752 < 0"
  by (simp add: days_duration_def duration_defs i64_def)

text \<open>A Pod that keeps the WorkloadClass from being ready: it has not run its minimum time yet, or it is
  terminating and its grace period is not over.\<close>

definition pod_blocks :: "workload_class \<Rightarrow> go_time \<Rightarrow> pod \<Rightarrow> bool" where
  "pod_blocks wc now p =
     (0 < dp_min_run_days (wc_policy wc) \<and> IsPodActive (Some p) \<and>
        time_sub now (pod_created p) < days_duration (dp_min_run_days (wc_policy wc)) \<or>
      0 < dp_grace_seconds (wc_policy wc) \<and> \<not> fst (gracePeriodPassed wc p now))"

text \<open>The Pods that \<open>calculateReadiness\<close> looks at.\<close>

definition readiness_pods :: "env \<Rightarrow> 's client \<Rightarrow> 's \<Rightarrow> workload_class \<Rightarrow> api_error + pod list" where
  "readiness_pods E C s wc =
     bind_result (WorkloadClassPodSelector E C s wc) (\<lambda>selector.
     bind_result (list_pods C s (wc_namespace wc) selector) (\<lambda>pods.
     bind_result (NamespaceEnforcedWorkloadClass C s (wc_namespace wc)) (\<lambda>enforced.
     bind_result (list_wcs C s (wc_namespace wc)) (\<lambda>wcs.
       Inr (matched_pods E wc enforced wcs pods)))))"

lemma too_young_None:
  "too_young m now ps = None \<longleftrightarrow> (\<forall>p \<in> set ps. IsPodActive (Some p) \<longrightarrow> \<not> time_sub now (pod_created p) < m)"
  by (induction ps) auto

lemma too_young_Some:
  "too_young m now ps = Some d \<Longrightarrow>
   \<exists>p \<in> set ps. IsPodActive (Some p) \<and> time_sub now (pod_created p) < m \<and> d = i64 (m - time_sub now (pod_created p))"
  by (induction ps) (auto split: if_splits)

definition grace_step :: "workload_class \<Rightarrow> go_time \<Rightarrow> pod \<Rightarrow> bool \<times> duration \<Rightarrow> bool \<times> duration" where
  "grace_step wc now p acc = evaluatePodGracePeriod wc p now (fst acc) (snd acc)"

lemma grace_step_simps:
  "fst (grace_step wc now p acc) \<longleftrightarrow> fst acc \<and> fst (gracePeriodPassed wc p now)"
  "snd (grace_step wc now p acc) = max (snd acc) (snd (gracePeriodPassed wc p now))"
  by (simp_all add: grace_step_def evaluatePodGracePeriod_def split: prod.split)

lemma grace_fold:
  "fst (fold (grace_step wc now) ps a) \<longleftrightarrow> fst a \<and> (\<forall>p \<in> set ps. fst (gracePeriodPassed wc p now))"
  by (induction ps arbitrary: a) (auto simp: grace_step_simps)

lemma grace_fold_mono: "snd a \<le> snd (fold (grace_step wc now) ps a)"
proof (induction ps arbitrary: a)
  case (Cons q ps)
  have "snd a \<le> snd (grace_step wc now q a)" by (simp add: grace_step_simps)
  then show ?case using Cons.IH [of "grace_step wc now q a"] by simp
qed simp

lemma grace_fold_le: "p \<in> set ps \<Longrightarrow> snd (gracePeriodPassed wc p now) \<le> snd (fold (grace_step wc now) ps a)"
proof (induction ps arbitrary: a)
  case (Cons q ps)
  have "snd (gracePeriodPassed wc q now) \<le> snd (grace_step wc now q a)" by (simp add: grace_step_simps)
  then have "snd (gracePeriodPassed wc q now) \<le> snd (fold (grace_step wc now) (q # ps) a)"
    using grace_fold_mono [of "grace_step wc now q a" wc now ps] by simp
  then show ?case using Cons.prems Cons.IH [of "grace_step wc now q a"] by auto
qed simp

lemma grace_periods_spec:
  "fst (grace_periods wc now ps) \<longleftrightarrow> (\<forall>p \<in> set ps. fst (gracePeriodPassed wc p now))"
  "p \<in> set ps \<Longrightarrow> snd (gracePeriodPassed wc p now) \<le> snd (grace_periods wc now ps)"
  using grace_fold [of wc now ps "(True, 0)"] grace_fold_le [of p ps wc now "(True, 0)"]
  by (simp_all add: grace_periods_def grace_step_def [abs_def])

lemma gracePeriodPassed_left: "\<not> fst (gracePeriodPassed wc p now) \<Longrightarrow> 0 < snd (gracePeriodPassed wc p now)"
  by (auto simp: gracePeriodPassed_def Let_def split: option.splits)

lemma pods_readiness_fst:
  "fst (pods_readiness wc now next_window ps) = (if \<exists>p \<in> set ps. pod_blocks wc now p then ReadinessNotReady else ReadinessReady)"
proof (cases "0 < dp_min_run_days (wc_policy wc) \<and> too_young (days_duration (dp_min_run_days (wc_policy wc))) now ps \<noteq> None")
  case True
  then obtain d where d: "too_young (days_duration (dp_min_run_days (wc_policy wc))) now ps = Some d" by blast
  then have "\<exists>p \<in> set ps. pod_blocks wc now p"
    using True too_young_Some [OF d] by (auto simp: pod_blocks_def)
  then show ?thesis using True d by (simp add: pods_readiness_def Let_def)
next
  case False
  then have "(\<exists>p \<in> set ps. pod_blocks wc now p) \<longleftrightarrow>
      0 < dp_grace_seconds (wc_policy wc) \<and> \<not> fst (grace_periods wc now ps)"
    by (auto simp: pod_blocks_def grace_periods_spec too_young_None)
  then show ?thesis using False by (auto simp: pods_readiness_def Let_def split: option.split)
qed

lemma pods_readiness_wait:
  assumes "fst (pods_readiness wc now next_window ps) = ReadinessNotReady" "dp_min_run_days (wc_policy wc) \<le> 106751"
    and "\<And>p. p \<in> set ps \<Longrightarrow> pod_created p \<le> now"
  shows "0 < snd (pods_readiness wc now next_window ps)"
proof (cases "0 < dp_min_run_days (wc_policy wc) \<and> too_young (days_duration (dp_min_run_days (wc_policy wc))) now ps \<noteq> None")
  case True
  then obtain d where d: "too_young (days_duration (dp_min_run_days (wc_policy wc))) now ps = Some d" by blast
  then obtain p where p: "p \<in> set ps" "time_sub now (pod_created p) < days_duration (dp_min_run_days (wc_policy wc))"
    "d = i64 (days_duration (dp_min_run_days (wc_policy wc)) - time_sub now (pod_created p))"
    using too_young_Some by blast
  have "0 \<le> time_sub now (pod_created p)" using assms(3) [OF p(1)] by (simp add: time_sub_neg flip: not_less)
  then have "d = days_duration (dp_min_run_days (wc_policy wc)) - time_sub now (pod_created p)"
    unfolding p(3) using p(2) assms(2) True by (intro i64_id) (simp_all add: days_duration_id)
  then show ?thesis using True d p(2) by (simp add: pods_readiness_def Let_def)
next
  case False
  then have grace: "0 < dp_grace_seconds (wc_policy wc)" "\<not> fst (grace_periods wc now ps)"
    using assms(1) by (auto simp: pods_readiness_def Let_def split: option.splits if_splits)
  then obtain p where p: "p \<in> set ps" "\<not> fst (gracePeriodPassed wc p now)" by (auto simp: grace_periods_spec)
  then have "0 < snd (grace_periods wc now ps)"
    using gracePeriodPassed_left [OF p(2)] grace_periods_spec(2) [OF p(1), of wc now] by simp
  then show ?thesis using False grace by (auto simp: pods_readiness_def Let_def split: option.split)
qed

lemma calculateReadiness_inside:
  assumes "\<not> dp_emergency (wc_policy wc)" "\<not> overdue wc now" "IsTimeInWindows E now (dp_windows (wc_policy wc)) = (True, w)"
  shows "calculateReadiness E C s now wc = bind_result (readiness_pods E C s wc) (\<lambda>ps. Inr (pods_readiness wc now w ps))"
  using assms by (simp add: calculateReadiness_def readiness_pods_def bind_result_def split: sum.split)

text \<open>C15: Readiness of a WorkloadClass with a maximal non-disruption duration is decided in this
  order: an emergency override makes it ready; if its last disruption (or, when there was none, its
  creation) is more than that many days ago it is overdue; outside the windows it is not ready; inside
  them it is ready exactly when no Pod it governs blocks. Whenever it is not ready the controller comes
  back after a positive delay (for limits that do not overflow and Pods not created in the future).\<close>

theorem calculateReadiness_decides:
  assumes "calculateReadiness E C s now wc = Inr (r, d)"
    and "0 < dp_max_days (wc_policy wc)" "dp_max_days (wc_policy wc) \<le> 106751"
    and "\<bar>now - (case st_last_disruption (wc_status wc) of Some t \<Rightarrow> t | None \<Rightarrow> wc_created wc)\<bar> < 2 ^ 63"
  shows "(if dp_emergency (wc_policy wc) then r = ReadinessReady
      else if dp_max_days (wc_policy wc) * 86400000000000 <
          now - (case st_last_disruption (wc_status wc) of Some t \<Rightarrow> t | None \<Rightarrow> wc_created wc) then r = ReadinessOverdue
      else if \<not> fst (IsTimeInWindows E now (dp_windows (wc_policy wc))) then r = ReadinessNotReady
      else \<exists>ps. readiness_pods E C s wc = Inr ps \<and>
          r = (if \<exists>p \<in> set ps. pod_blocks wc now p then ReadinessNotReady else ReadinessReady)) \<and>
    (r = ReadinessNotReady \<longrightarrow> dp_min_run_days (wc_policy wc) \<le> 106751 \<longrightarrow>
      (\<forall>ps. readiness_pods E C s wc = Inr ps \<longrightarrow> (\<forall>p \<in> set ps. pod_created p \<le> now)) \<longrightarrow> 0 < d)"
  unfolding overdue_iff [OF assms(2-4), symmetric]
proof -
  consider (now) "dp_emergency (wc_policy wc) \<or> overdue wc now"
    | (outside) "\<not> dp_emergency (wc_policy wc)" "\<not> overdue wc now"
        "\<not> fst (IsTimeInWindows E now (dp_windows (wc_policy wc)))"
    | (inside) "\<not> dp_emergency (wc_policy wc)" "\<not> overdue wc now"
        "fst (IsTimeInWindows E now (dp_windows (wc_policy wc)))"
    by blast
  then show "(if dp_emergency (wc_policy wc) then r = ReadinessReady
      else if overdue wc now then r = ReadinessOverdue
      else if \<not> fst (IsTimeInWindows E now (dp_windows (wc_policy wc))) then r = ReadinessNotReady
      else \<exists>ps. readiness_pods E C s wc = Inr ps \<and>
          r = (if \<exists>p \<in> set ps. pod_blocks wc now p then ReadinessNotReady else ReadinessReady)) \<and>
    (r = ReadinessNotReady \<longrightarrow> dp_min_run_days (wc_policy wc) \<le> 106751 \<longrightarrow>
      (\<forall>ps. readiness_pods E C s wc = Inr ps \<longrightarrow> (\<forall>p \<in> set ps. pod_created p \<le> now)) \<longrightarrow> 0 < d)"
  proof cases
    case now
    then show ?thesis using assms by (auto simp: calculateReadiness_def split: if_splits)
  next
    case outside
    then have "r = ReadinessNotReady" "d = snd (IsTimeInWindows E now (dp_windows (wc_policy wc)))"
      using assms by (auto simp: calculateReadiness_def split: prod.splits)
    then show ?thesis using outside wait_positive [OF outside(3)] by simp
  next
    case inside
    then have w: "IsTimeInWindows E now (dp_windows (wc_policy wc)) =
        (True, snd (IsTimeInWindows E now (dp_windows (wc_policy wc))))"
      by (metis prod.collapse)
    obtain ps where ps: "readiness_pods E C s wc = Inr ps"
      "pods_readiness wc now (snd (IsTimeInWindows E now (dp_windows (wc_policy wc)))) ps = (r, d)"
      using assms unfolding calculateReadiness_inside [OF inside(1,2) w] by (auto simp: bind_result_Inr_iff)
    then have "r = fst (pods_readiness wc now (snd (IsTimeInWindows E now (dp_windows (wc_policy wc)))) ps)"
      "d = snd (pods_readiness wc now (snd (IsTimeInWindows E now (dp_windows (wc_policy wc)))) ps)"
      by simp_all
    then show ?thesis
      using inside ps(1) pods_readiness_fst pods_readiness_wait by (auto split: if_splits)
  qed
qed

lemma sample_readiness_pods: "readiness_pods ref_env ref_client sample_cluster sample_wc = Inr [sample_pod]"
proof -
  have ns: "NamespaceEnforcedWorkloadClass ref_client sample_cluster (wc_namespace sample_wc) = Inr None"
    by (simp add: NamespaceEnforcedWorkloadClass_def sample_cluster_def sample_wc_def)
  have selector: "WorkloadClassPodSelector ref_env ref_client sample_cluster sample_wc = Inr (selector_matches sample_selector)"
    using sample_selects by (simp add: WorkloadClassPodSelector_def sample_cluster_def map_get_def sample_wc_def sample_spec_def)
  have "BestMatchWorkloadClassForPod ref_env (Some sample_pod) None [sample_wc] = Some sample_wc"
    using sample_eligible by (simp add: BestMatchWorkloadClassForPod_def selectBest_fold)
  then have "matched_pods ref_env sample_wc None [sample_wc] [sample_pod] = [sample_pod]"
    by (simp add: matched_pods_def sample_pod_def)
  moreover have "list_pods ref_client sample_cluster (wc_namespace sample_wc) (selector_matches sample_selector) = Inr [sample_pod]"
    using sample_selected by (simp add: sample_cluster_def) (simp add: sample_wc_def sample_pod_def)
  moreover have "list_wcs ref_client sample_cluster (wc_namespace sample_wc) = Inr [sample_wc]"
    by (simp add: sample_cluster_def)
  ultimately show ?thesis
    by (simp add: readiness_pods_def ns selector)
qed

lemma calculateReadiness_decides_witness:
  "\<exists>d. calculateReadiness ref_env ref_client sample_cluster (2 * hour) sample_wc = Inr (ReadinessNotReady, d) \<and> 0 < d"
proof -
  have inside: "fst (IsTimeInWindows ref_env (2 * hour) (dp_windows (wc_policy sample_wc)))"
    using in_windows_covers [OF _ fixed_zones_ref, of "[sample_window]" "2 * hour"] sample_window_covers
    by (simp add: sample_wc_def sample_spec_def sample_policy_def)
  have time: "\<not> overdue sample_wc (2 * hour)" "\<not> dp_emergency (wc_policy sample_wc)"
    by (simp_all add: overdue_def samples days_duration_id time_sub_id duration_defs)
  have limit: "dp_max_days (wc_policy sample_wc) = 30" "st_last_disruption (wc_status sample_wc) = None" "wc_created sample_wc = 1"
      "\<bar>2 * hour - 1\<bar> < 2 ^ 63"
    by (simp_all add: samples duration_defs)
  have "pod_blocks sample_wc (2 * hour) sample_pod"
    by (simp add: pod_blocks_def IsPodActive_def samples days_duration_id time_sub_id duration_defs)
  moreover obtain r d where rd: "calculateReadiness ref_env ref_client sample_cluster (2 * hour) sample_wc = Inr (r, d)"
  proof -
    have "IsTimeInWindows ref_env (2 * hour) (dp_windows (wc_policy sample_wc)) =
        (True, snd (IsTimeInWindows ref_env (2 * hour) (dp_windows (wc_policy sample_wc))))"
      using inside by (metis prod.collapse)
    then show thesis
      using calculateReadiness_inside [OF time(2,1)] sample_readiness_pods that
      by (metis bind_result_simps(2) old.prod.exhaust)
  qed
  moreover have "dp_min_run_days (wc_policy sample_wc) \<le> 106751" "pod_created sample_pod \<le> 2 * hour"
    by (simp_all add: samples duration_defs)
  ultimately show ?thesis
    using calculateReadiness_decides [OF rd] limit inside time sample_readiness_pods rd
    by (auto simp: duration_defs)
qed

end
