(* ===== verification/Pdb.thy ===== *)
theory Pdb
  imports Utils_Basic
begin

text \<open>
  \<open>internal/utils/pdb.go\<close>: the Per-Pod PodDisruptionBudgets and their leases. A function that
  modifies the PDB it is given returns the modified PDB. The lemmas show what the names, the
  synchronisation and the leases guarantee; \<open>lease_holder\<close> is the lock a lease amounts to.
\<close>

abbreviation PDBNamePrefix :: string where
  "PDBNamePrefix \<equiv> ''workload-''"
abbreviation MaxPDBNameLength :: nat where
  "MaxPDBNameLength \<equiv> 253"
abbreviation BypassOwner :: string where
  "BypassOwner \<equiv> ''workloads.gke.io/bypass-owner''"
abbreviation BypassExpiration :: string where
  "BypassExpiration \<equiv> ''workloads.gke.io/bypass-expiration''"

definition DefaultLeaseDuration :: duration where
  "DefaultLeaseDuration = 30 * second"

subsection \<open>Names\<close>

definition hex_digit :: "nat \<Rightarrow> char" where
  "hex_digit n = (if n < 10 then digit_char n else char_of (87 + n))"

definition hex_byte :: "char \<Rightarrow> string" where
  "hex_byte c = [hex_digit ((of_char c :: nat) div 16), hex_digit ((of_char c :: nat) mod 16)]"

definition PDBName :: "env \<Rightarrow> string \<Rightarrow> string" where
  "PDBName E p =
     (let name = PDBNamePrefix @ p
      in if length name \<le> MaxPDBNameLength then name
         else let sum = sha256 E p;
                  suffix = CHR ''-'' # concat (map hex_byte (take 4 sum));
                  prefix = trim_right (take (MaxPDBNameLength - length suffix) name) ''-.''
              in prefix @ suffix)"

definition PodNameFromPDBName :: "string \<Rightarrow> string" where
  "PodNameFromPDBName n = trim_prefix n PDBNamePrefix"

subsection \<open>Construction and synchronisation\<close>

definition empty_pdb :: pdb where
  "empty_pdb = \<lparr>pdb_name = '''', pdb_namespace = '''', pdb_uid = '''', pdb_version = '''',
     pdb_labels = Map.empty, pdb_annotations = Map.empty, pdb_owners = [], pdb_selector = None,
     pdb_max_unavailable = None, pdb_unhealthy = None\<rparr>"

definition PDBBase :: "env \<Rightarrow> pod option \<Rightarrow> pdb" where
  "PDBBase E p = (case p of None \<Rightarrow> empty_pdb
     | Some pod \<Rightarrow> empty_pdb\<lparr>pdb_name := PDBName E (pod_name pod), pdb_namespace := pod_namespace pod,
         pdb_labels := [PodUIDLabel \<mapsto> pod_uid pod]\<rparr>)"

definition pod_uid_selector :: "pod \<Rightarrow> label_selector" where
  "pod_uid_selector p = \<lparr>sel_labels = [(PodUIDLabel, pod_uid p)], sel_exprs = []\<rparr>"

abbreviation IfHealthyBudget :: string where
  "IfHealthyBudget \<equiv> ''IfHealthyBudget''"

definition pdb_open :: int_or_string where "pdb_open = StrVal ''100%''"
definition pdb_closed :: int_or_string where "pdb_closed = IntVal 0"

text \<open>The statements the two writers of a PDB share: its name, namespace, label, selector and
  unhealthy-eviction policy.\<close>

definition scope_pdb :: "env \<Rightarrow> pod \<Rightarrow> pdb \<Rightarrow> pdb" where
  "scope_pdb E p b =
     b\<lparr>pdb_name := (if pdb_name b = '''' then PDBName E (pod_name p) else pdb_name b),
       pdb_namespace := (if pdb_namespace b = '''' then pod_namespace p else pdb_namespace b),
       pdb_labels := (pdb_labels b)(PodUIDLabel \<mapsto> pod_uid p),
       pdb_selector := Some (pod_uid_selector p),
       pdb_unhealthy := Some IfHealthyBudget\<rparr>"

definition readiness_max_unavailable :: "string \<Rightarrow> int_or_string option" where
  "readiness_max_unavailable =
     [ReadinessReady \<mapsto> pdb_open, ReadinessNotReady \<mapsto> pdb_closed, ReadinessOverdue \<mapsto> pdb_open]"

definition SyncPDBWithWorkloadClass ::
  "env \<Rightarrow> workload_class option \<Rightarrow> pod option \<Rightarrow> pdb option \<Rightarrow> bool \<Rightarrow> api_error + pdb" where
  "SyncPDBWithWorkloadClass E w p b is_valid =
     (case w of None \<Rightarrow> Inl (OtherError ''failed to sync PDB with WorkloadClass, WorkloadClass is nil'')
      | Some wc \<Rightarrow>
     (case p of None \<Rightarrow> Inl (OtherError ''failed to sync PDB with WorkloadClass, Pod is nil'')
      | Some pod \<Rightarrow>
     (case b of None \<Rightarrow> Inl (OtherError ''failed to sync PDB with WorkloadClass, PDB is nil'')
      | Some pdb \<Rightarrow>
          let pdb1 = scope_pdb E pod pdb;
              pdb2 = pdb1\<lparr>pdb_annotations := (pdb_annotations pdb1)(BypassOwner := None, BypassExpiration := None)\<rparr>
          in if \<not> is_valid then Inr (pdb2\<lparr>pdb_max_unavailable := Some pdb_open\<rparr>)
             else case readiness_max_unavailable (wc_readiness wc) of
                 Some val \<Rightarrow> Inr (pdb2\<lparr>pdb_max_unavailable := Some val\<rparr>)
               | None \<Rightarrow> Inr (pdb2\<lparr>pdb_max_unavailable := Some pdb_closed\<rparr>))))"

subsection \<open>Leases\<close>

definition BypassOwnerValue :: "subject \<Rightarrow> string" where
  "BypassOwnerValue sub =
     (if sub_kind sub = ''User'' then ''user:'' @ sub_name sub
      else if sub_kind sub = ''Group'' then ''group:'' @ sub_name sub
      else ''system:serviceaccount:'' @ sub_namespace sub @ '':'' @ sub_name sub)"

definition LeaseDurationForPod :: "pod option \<Rightarrow> duration" where
  "LeaseDurationForPod p =
     (case p of None \<Rightarrow> DefaultLeaseDuration
      | Some pod \<Rightarrow>
          (case pod_deletion_grace pod of
             Some g \<Rightarrow> if g > 0 then secs_duration g
               else (case pod_grace pod of Some t \<Rightarrow> if t > 0 then secs_duration t else DefaultLeaseDuration
                     | None \<Rightarrow> DefaultLeaseDuration)
           | None \<Rightarrow> (case pod_grace pod of Some t \<Rightarrow> if t > 0 then secs_duration t else DefaultLeaseDuration
                     | None \<Rightarrow> DefaultLeaseDuration)))"

text \<open>\<open>now\<close> is the instant \<open>time.Until\<close> reads.\<close>

definition LeaseTimeRemaining :: "env \<Rightarrow> go_time \<Rightarrow> pdb option \<Rightarrow> duration" where
  "LeaseTimeRemaining E now b =
     (case b of None \<Rightarrow> 0
      | Some pdb \<Rightarrow>
          (case pdb_annotations pdb BypassExpiration of
             None \<Rightarrow> 0
           | Some expiration_string \<Rightarrow>
               (case parse_expiration E expiration_string of
                  None \<Rightarrow> 0
                | Some expiration_time \<Rightarrow> max (time_sub expiration_time now) 0)))"

definition LeaseExpired :: "env \<Rightarrow> go_time \<Rightarrow> pdb option \<Rightarrow> bool" where
  "LeaseExpired E now b = (LeaseTimeRemaining E now b \<le> 0)"

definition IsWorkloadClassManagedPDB :: "env \<Rightarrow> pdb option \<Rightarrow> bool" where
  "IsWorkloadClassManagedPDB E b =
     (case b of None \<Rightarrow> False
      | Some pdb \<Rightarrow> (case get_controller_of E (pdb_owners pdb) of
            None \<Rightarrow> False | Some owner \<Rightarrow> or_kind owner = ''WorkloadClass''))"

definition AllowLease :: "env \<Rightarrow> go_time \<Rightarrow> pdb option \<Rightarrow> pod option \<Rightarrow> bool" where
  "AllowLease E now b p =
     (case (b, p) of
        (Some pdb, Some pod) \<Rightarrow>
          if \<not> IsWorkloadClassManagedPDB E (Some pdb) then False
          else if map_get (pdb_labels pdb) PodUIDLabel \<noteq> pod_uid pod then True
          else if map_get (pdb_annotations pdb) BypassOwner = '''' then True
          else LeaseExpired E now (Some pdb)
      | _ \<Rightarrow> False)"

definition SubjectAlreadyLeasing :: "env \<Rightarrow> go_time \<Rightarrow> pdb option \<Rightarrow> pod option \<Rightarrow> subject \<Rightarrow> bool" where
  "SubjectAlreadyLeasing E now b p sub =
     (case (b, p) of
        (Some pdb, Some pod) \<Rightarrow>
          if \<not> IsWorkloadClassManagedPDB E (Some pdb) then False
          else if map_get (pdb_labels pdb) PodUIDLabel \<noteq> pod_uid pod then False
          else let owner = map_get (pdb_annotations pdb) BypassOwner
               in if owner = '''' \<or> owner \<noteq> BypassOwnerValue sub then False
                  else \<not> LeaseExpired E now (Some pdb)
      | _ \<Rightarrow> False)"

definition IsPDBOpen :: "pdb option \<Rightarrow> bool" where
  "IsPDBOpen b =
     (case b of None \<Rightarrow> False
      | Some pdb \<Rightarrow> (case pdb_max_unavailable pdb of
            None \<Rightarrow> False
          | Some (StrVal v) \<Rightarrow> v = ''100%''
          | Some (IntVal i) \<Rightarrow> False))"

definition PDBWithLease :: "env \<Rightarrow> go_time \<Rightarrow> pdb option \<Rightarrow> pod option \<Rightarrow> subject \<Rightarrow> api_error + pdb" where
  "PDBWithLease E now b p sub =
     (case b of None \<Rightarrow> Inl (OtherError ''failed to update PDB with lease, PDB is nil'')
      | Some pdb \<Rightarrow>
     (case p of None \<Rightarrow> Inl (OtherError ''failed to update PDB with lease, Pod is nil'')
      | Some pod \<Rightarrow>
          let pdb1 = (scope_pdb E pod pdb)\<lparr>pdb_max_unavailable := Some pdb_open\<rparr>
          in Inr (pdb1\<lparr>pdb_annotations := (pdb_annotations pdb1)(BypassOwner \<mapsto> BypassOwnerValue sub,
                 BypassExpiration \<mapsto> format_expiration E (now + LeaseDurationForPod (Some pod)))\<rparr>)))"

subsection \<open>User-created PDBs\<close>

definition ListUserCreatedPDBs :: "env \<Rightarrow> 's client \<Rightarrow> 's \<Rightarrow> string \<Rightarrow> api_error + pdb list" where
  "ListUserCreatedPDBs E C s namespace =
     (case list_pdbs C s namespace of
        Inl err \<Rightarrow> Inl (wrap_error (''failed to list PodDisruptionBudgets in namespace '' @ namespace @ '': '') err)
      | Inr items \<Rightarrow> Inr (filter (\<lambda>b. \<not> IsWorkloadClassManagedPDB E (Some b)) items))"

definition user_pdb_covers :: "env \<Rightarrow> pod \<Rightarrow> pdb \<Rightarrow> bool" where
  "user_pdb_covers E p b =
     (if pdb_namespace b \<noteq> pod_namespace p \<or> IsWorkloadClassManagedPDB E (Some b) \<or> pdb_selector b = None then False
      else case as_selector E (pdb_selector b) of Inl err \<Rightarrow> False | Inr sel_matches \<Rightarrow> sel_matches (pod_labels p))"

definition IsPodCoveredByUserPDB :: "env \<Rightarrow> pod option \<Rightarrow> pdb list \<Rightarrow> bool" where
  "IsPodCoveredByUserPDB E p user_pdbs =
     (case p of None \<Rightarrow> False | Some pod \<Rightarrow> list_ex (user_pdb_covers E pod) user_pdbs)"

subsection \<open>Names, proved\<close>

lemma hex_digit_inj: "a < 16 \<Longrightarrow> b < 16 \<Longrightarrow> hex_digit a = hex_digit b \<Longrightarrow> a = b"
proof -
  assume "a < 16" "b < 16" "hex_digit a = hex_digit b"
  then have "(of_char (hex_digit a) :: nat) = of_char (hex_digit b)" by simp
  then show "a = b"
    using \<open>a < 16\<close> \<open>b < 16\<close> by (auto simp: hex_digit_def digit_char_def split: if_splits)
qed

lemma hex_byte_inj: "hex_byte c = hex_byte d \<Longrightarrow> c = d"
proof -
  assume eq: "hex_byte c = hex_byte d"
  let ?c = "of_char c :: nat" and ?d = "of_char d :: nat"
  have "?c < 256" "?d < 256" by simp_all
  then have "?c div 16 < 16" "?d div 16 < 16" by linarith+
  then have "?c div 16 = ?d div 16" "?c mod 16 = ?d mod 16"
    using eq by (auto simp: hex_byte_def intro!: hex_digit_inj)
  then have "?c = ?d" by (metis div_mult_mod_eq)
  then show "c = d" by simp
qed

lemma length_hex_byte: "length (hex_byte c) = 2"
  by (simp add: hex_byte_def)

lemma hex_concat_length: "length (concat (map hex_byte cs)) = 2 * length cs"
  by (induction cs) (simp_all add: hex_byte_def)

lemma hex_concat_inj: "concat (map hex_byte cs) = concat (map hex_byte ds) \<Longrightarrow> cs = ds"
proof (induction cs arbitrary: ds)
  case Nil
  then have "2 * length ds = 0" by (simp flip: hex_concat_length)
  then show ?case by simp
next
  case (Cons c cs)
  obtain d ds' where ds: "ds = d # ds'"
    using Cons.prems by (cases ds) (simp_all add: hex_byte_def)
  then have "hex_byte c = hex_byte d" "concat (map hex_byte cs) = concat (map hex_byte ds')"
    using Cons.prems append_eq_append_conv [of "hex_byte c" "hex_byte d" "concat (map hex_byte cs)" "concat (map hex_byte ds')"]
    by (simp_all add: length_hex_byte)
  then show ?case using ds Cons.IH hex_byte_inj by blast
qed

lemma length_pdb_prefix: "length PDBNamePrefix = 9"
  by simp

lemma PDBName_short: "length p \<le> 244 \<Longrightarrow> PDBName E p = PDBNamePrefix @ p"
  by (simp add: PDBName_def)

lemma PDBName_long:
  assumes "244 < length p"
  shows "\<exists>pre. PDBName E p = pre @ CHR ''-'' # concat (map hex_byte (take 4 (sha256 E p))) \<and> length pre \<le> 244 + 8 - 2 * min 4 (length (sha256 E p))"
proof -
  let ?suffix = "CHR ''-'' # concat (map hex_byte (take 4 (sha256 E p)))"
  let ?pre = "trim_right (take (MaxPDBNameLength - length ?suffix) (PDBNamePrefix @ p)) ''-.''"
  have "length ?suffix = 1 + 2 * min 4 (length (sha256 E p))"
    by (simp add: hex_concat_length)
  moreover have "length ?pre \<le> MaxPDBNameLength - length ?suffix"
    using length_trim_right [of "take (MaxPDBNameLength - length ?suffix) (PDBNamePrefix @ p)" "''-.''"] by simp
  moreover have "PDBName E p = ?pre @ ?suffix"
    using assms by (simp add: PDBName_def Let_def)
  ultimately show ?thesis by (intro exI [of _ ?pre]) simp
qed

lemma PDBName_fits: "length (PDBName E p) \<le> MaxPDBNameLength"
proof (cases "length p \<le> 244")
  case True
  then show ?thesis by (simp add: PDBName_short)
next
  case False
  then obtain pre where "PDBName E p = pre @ CHR ''-'' # concat (map hex_byte (take 4 (sha256 E p)))"
    "length pre \<le> 244 + 8 - 2 * min 4 (length (sha256 E p))"
    using PDBName_long [of p E] by auto
  then show ?thesis by (simp add: hex_concat_length)
qed

lemma PodNameFromPDBName_PDBName: "length p \<le> 244 \<Longrightarrow> PodNameFromPDBName (PDBName E p) = p"
  unfolding PodNameFromPDBName_def by (simp only: PDBName_short trim_prefix_append)

text \<open>C38: A PDB name never exceeds the 253 bytes of an object name. A Pod name of up to 244 bytes is
  read back from it, so such names never collide; two longer names get the same PDB name only if the
  first four bytes of their hashes agree.\<close>

theorem PDBName_spec:
  "length (PDBName E p) \<le> MaxPDBNameLength \<and>
   (length p \<le> 244 \<longrightarrow> PodNameFromPDBName (PDBName E p) = p) \<and>
   (244 < length p \<longrightarrow> 244 < length q \<longrightarrow> 4 \<le> length (sha256 E p) \<longrightarrow> 4 \<le> length (sha256 E q) \<longrightarrow>
     PDBName E p = PDBName E q \<longrightarrow> take 4 (sha256 E p) = take 4 (sha256 E q))"
proof -
  have "take 4 (sha256 E p) = take 4 (sha256 E q)"
    if long: "244 < length p" "244 < length q" and hash: "4 \<le> length (sha256 E p)" "4 \<le> length (sha256 E q)"
      and eq: "PDBName E p = PDBName E q"
  proof -
    let ?h = "\<lambda>x. concat (map hex_byte (take 4 (sha256 E x)))"
    obtain a b where "PDBName E p = a @ CHR ''-'' # ?h p" "PDBName E q = b @ CHR ''-'' # ?h q"
      using PDBName_long long by meson
    moreover have "length (CHR ''-'' # ?h p) = length (CHR ''-'' # ?h q)"
      using hash by (simp add: hex_concat_length)
    ultimately have "?h p = ?h q" using eq by (metis append_eq_append_conv list.inject)
    then show ?thesis by (rule hex_concat_inj)
  qed
  then show ?thesis using PDBName_fits PodNameFromPDBName_PDBName by blast
qed

lemma PDBName_spec_witness:
  "PodNameFromPDBName (PDBName ref_env ''web-0'') = ''web-0'' \<and> length (PDBName ref_env (replicate 300 (CHR ''a''))) \<le> 253"
  using PDBName_spec [of ref_env "''web-0''" "''web-0''"] PDBName_spec [of ref_env "replicate 300 (CHR ''a'')" "''web-0''"]
  by simp

subsection \<open>The lease as a lock\<close>

text \<open>The abstract state of a PDB's lease: who holds it, for the Pod, at an instant.\<close>

definition lease_holder :: "env \<Rightarrow> go_time \<Rightarrow> pdb \<Rightarrow> pod \<Rightarrow> string option" where
  "lease_holder E now b p =
     (if map_get (pdb_labels b) PodUIDLabel = pod_uid p \<and> map_get (pdb_annotations b) BypassOwner \<noteq> '''' \<and>
         0 < LeaseTimeRemaining E now (Some b)
      then Some (map_get (pdb_annotations b) BypassOwner) else None)"

lemma AllowLease_holder:
  "AllowLease E now (Some b) (Some p) \<longleftrightarrow> IsWorkloadClassManagedPDB E (Some b) \<and> lease_holder E now b p = None"
  by (auto simp: AllowLease_def lease_holder_def LeaseExpired_def)

lemma SubjectAlreadyLeasing_holder:
  "SubjectAlreadyLeasing E now (Some b) (Some p) sub \<longleftrightarrow>
     IsWorkloadClassManagedPDB E (Some b) \<and> lease_holder E now b p = Some (BypassOwnerValue sub)"
  by (auto simp: SubjectAlreadyLeasing_def lease_holder_def LeaseExpired_def Let_def BypassOwnerValue_def)

text \<open>Subjects the CRD admits: Users and Groups without a namespace, ServiceAccounts in a namespace.\<close>

definition valid_subject :: "subject \<Rightarrow> bool" where
  "valid_subject sub =
     (if sub_kind sub = ''User'' \<or> sub_kind sub = ''Group'' then sub_namespace sub = ''''
      else sub_kind sub = ''ServiceAccount'' \<and> CHR '':'' \<notin> set (sub_namespace sub))"

lemma split_at_colon:
  "CHR '':'' \<notin> set a \<Longrightarrow> CHR '':'' \<notin> set b \<Longrightarrow> a @ CHR '':'' # x = b @ CHR '':'' # y \<longleftrightarrow> a = b \<and> x = y"
proof (induction a arbitrary: b)
  case Nil
  then show ?case by (cases b) auto
next
  case (Cons c a)
  then show ?case by (cases b) auto
qed

lemma BypassOwnerValue_inj:
  assumes "valid_subject a" "valid_subject b"
  shows "BypassOwnerValue a = BypassOwnerValue b \<longleftrightarrow> a = b"
proof -
  have "(''system:serviceaccount:'' @ sub_namespace a @ '':'' @ sub_name a =
      ''system:serviceaccount:'' @ sub_namespace b @ '':'' @ sub_name b) \<longleftrightarrow>
      sub_namespace a = sub_namespace b \<and> sub_name a = sub_name b"
    if "CHR '':'' \<notin> set (sub_namespace a)" "CHR '':'' \<notin> set (sub_namespace b)"
    using split_at_colon [OF that, of "sub_name a" "sub_name b"] by simp
  moreover have "a = b \<longleftrightarrow> sub_kind a = sub_kind b \<and> sub_name a = sub_name b \<and> sub_namespace a = sub_namespace b"
    by (cases a; cases b) simp
  ultimately show ?thesis
    using assms by (auto simp: valid_subject_def BypassOwnerValue_def split: if_splits)
qed

lemma LeaseDurationForPod_pos:
  assumes "\<And>g. pod_deletion_grace p = Some g \<Longrightarrow> g < 2 ^ 33" "\<And>g. pod_grace p = Some g \<Longrightarrow> g < 2 ^ 33"
  shows "0 < LeaseDurationForPod (Some p)"
proof -
  have "0 < secs_duration g" if "0 < g" "g < 2 ^ 33" for g
  proof -
    have "i64 (g * 1000000000) = g * 1000000000" using that by (intro i64_id) auto
    then show ?thesis using that by (simp add: secs_duration_def second_def)
  qed
  then show ?thesis
    using assms by (auto simp: LeaseDurationForPod_def DefaultLeaseDuration_def second_def split: option.split)
qed

lemma LeaseTimeRemaining_lease:
  assumes "pdb_annotations b BypassExpiration = Some x" "parse_expiration E x = Some e"
  shows "0 < LeaseTimeRemaining E now (Some b) \<longleftrightarrow> now < e"
  using assms by (simp add: LeaseTimeRemaining_def less_max_iff_disj time_sub_pos)

text \<open>The recorded expiry: the Pod's termination grace after the grant.\<close>

definition lease_expiry :: "go_time \<Rightarrow> pod \<Rightarrow> go_time" where
  "lease_expiry now p = now + LeaseDurationForPod (Some p)"

lemma PDBWithLease_holder:
  assumes "PDBWithLease E now (Some b) (Some p) sub = Inr b'" "expiration_law E"
    and "0 \<le> now + LeaseDurationForPod (Some p)" "now + LeaseDurationForPod (Some p) < end_of_years"
  shows "lease_holder E t b' p =
    (if t < lease_expiry now p then Some (BypassOwnerValue sub) else None)"
proof -
  have b': "pdb_annotations b' BypassOwner = Some (BypassOwnerValue sub)"
    "pdb_annotations b' BypassExpiration = Some (format_expiration E (now + LeaseDurationForPod (Some p)))"
    "pdb_labels b' PodUIDLabel = Some (pod_uid p)"
    using assms(1) by (auto simp: PDBWithLease_def scope_pdb_def Let_def)
  have "parse_expiration E (format_expiration E (now + LeaseDurationForPod (Some p))) =
      Some (lease_expiry now p)"
    using assms(2-4) by (simp add: expiration_law_def lease_expiry_def)
  from LeaseTimeRemaining_lease [OF b'(2) this] show ?thesis
    by (simp add: lease_holder_def map_get_def b' BypassOwnerValue_def)
qed

text \<open>C25: Granting a lease locks the PDB: from then until the recorded expiry (the grant time plus the
  Pod's termination grace, which has to lie in the years 1 to 9999 that the annotation can hold), that subject and no other valid subject holds it, so
  its retry is recognised and no further lease is allowed; after the expiry a lease is allowed again.
  The PDB is open, selects exactly this Pod and keeps its owners.\<close>

theorem PDBWithLease_locks:
  assumes "PDBWithLease E now (Some b) (Some p) sub = Inr b'" "expiration_law E"
    and "0 \<le> now + LeaseDurationForPod (Some p)" "now + LeaseDurationForPod (Some p) < end_of_years"
    and "IsWorkloadClassManagedPDB E (Some b)" "valid_subject sub" "valid_subject x"
  shows "(SubjectAlreadyLeasing E t (Some b') (Some p) x \<longleftrightarrow>
      x = sub \<and> t < lease_expiry now p) \<and>
    (AllowLease E t (Some b') (Some p) \<longleftrightarrow> lease_expiry now p \<le> t) \<and>
    IsPDBOpen (Some b') \<and> pdb_selector b' = Some (pod_uid_selector p) \<and> pdb_owners b' = pdb_owners b"
proof -
  have owners: "pdb_owners b' = pdb_owners b" and "IsPDBOpen (Some b')" "pdb_selector b' = Some (pod_uid_selector p)"
    using assms(1) by (auto simp: PDBWithLease_def scope_pdb_def Let_def IsPDBOpen_def pdb_open_def)
  moreover have "IsWorkloadClassManagedPDB E (Some b')"
    using assms(5) owners by (simp add: IsWorkloadClassManagedPDB_def)
  ultimately show ?thesis
    using PDBWithLease_holder [OF assms(1-4)] BypassOwnerValue_inj [OF assms(6,7)]
    by (auto simp: SubjectAlreadyLeasing_holder AllowLease_holder)
qed

definition sample_owner :: owner_ref where
  "sample_owner = \<lparr>or_kind = ''WorkloadClass'', or_name = ''web'', or_uid = ''u1'', or_controller = Some True\<rparr>"

definition sample_pdb :: pdb where
  "sample_pdb = (PDBBase ref_env (Some sample_pod))\<lparr>pdb_version := ''1'', pdb_owners := [sample_owner],
     pdb_selector := Some (pod_uid_selector sample_pod), pdb_max_unavailable := Some pdb_closed,
     pdb_unhealthy := Some IfHealthyBudget\<rparr>"

definition sample_subject :: subject where
  "sample_subject = \<lparr>sub_kind = ''User'', sub_name = ''ops'', sub_namespace = ''''\<rparr>"

lemma sample_pdb_managed: "IsWorkloadClassManagedPDB ref_env (Some sample_pdb)"
  by (simp add: sample_pdb_def sample_owner_def IsWorkloadClassManagedPDB_def ref_controller_def)

lemma sample_lease_duration: "LeaseDurationForPod (Some sample_pod) = 30000000000"
  by (simp add: LeaseDurationForPod_def sample_pod_def DefaultLeaseDuration_def second_def)

lemma PDBWithLease_locks_witness:
  "\<exists>b. PDBWithLease ref_env 5 (Some sample_pdb) (Some sample_pod) sample_subject = Inr b \<and>
     SubjectAlreadyLeasing ref_env 30000000004 (Some b) (Some sample_pod) sample_subject \<and>
     \<not> AllowLease ref_env 30000000004 (Some b) (Some sample_pod) \<and>
     AllowLease ref_env 30000000005 (Some b) (Some sample_pod)"
proof -
  obtain b where b: "PDBWithLease ref_env 5 (Some sample_pdb) (Some sample_pod) sample_subject = Inr b"
    by (simp add: PDBWithLease_def Let_def)
  have valid: "valid_subject sample_subject" by (simp add: valid_subject_def sample_subject_def)
  show ?thesis
    using b PDBWithLease_locks [OF b expiration_law_ref_env _ _ sample_pdb_managed valid valid, of 30000000004]
      PDBWithLease_locks [OF b expiration_law_ref_env _ _ sample_pdb_managed valid valid, of 30000000005]
    by (simp add: lease_expiry_def sample_lease_duration end_of_years_def second_def)
qed

definition opens :: "workload_class \<Rightarrow> bool \<Rightarrow> bool" where
  "opens wc valid = (\<not> valid \<or> wc_readiness wc = ReadinessReady \<or> wc_readiness wc = ReadinessOverdue)"

lemma readiness_max_unavailable_table:
  "readiness_max_unavailable r =
    (if r = ReadinessReady \<or> r = ReadinessOverdue then Some pdb_open
     else if r = ReadinessNotReady then Some pdb_closed else None)"
  by (simp add: readiness_max_unavailable_def)

lemma SyncPDB_result:
  assumes "SyncPDBWithWorkloadClass E (Some wc) (Some p) (Some b) valid = Inr b'"
  shows "b' = (scope_pdb E p b)\<lparr>pdb_annotations := (pdb_annotations b)(BypassOwner := None, BypassExpiration := None),
    pdb_max_unavailable := Some (if opens wc valid then pdb_open else pdb_closed)\<rparr>"
  using assms unfolding SyncPDBWithWorkloadClass_def Let_def opens_def readiness_max_unavailable_table
  by (cases valid; cases "wc_readiness wc = ReadinessReady"; cases "wc_readiness wc = ReadinessOverdue";
      cases "wc_readiness wc = ReadinessNotReady")
     (simp_all add: scope_pdb_def)

lemma SyncPDB_total: "\<exists>b'. SyncPDBWithWorkloadClass E (Some wc) (Some p) (Some b) valid = Inr b'"
  by (simp add: SyncPDBWithWorkloadClass_def Let_def split: option.split)

text \<open>C35: Synchronising a PDB with its WorkloadClass clears every lease on it and lets the Pod be
  evicted exactly when the WorkloadClass is not validated, or is ready or overdue for disruption;
  otherwise the PDB admits no voluntary disruption at all. The PDB covers its Pod instance only.\<close>

theorem SyncPDBWithWorkloadClass_spec:
  assumes "SyncPDBWithWorkloadClass E (Some wc) (Some p) (Some b) valid = Inr b'"
  shows "(IsPDBOpen (Some b') \<longleftrightarrow> opens wc valid) \<and>
    (\<not> IsPDBOpen (Some b') \<longrightarrow> pdb_max_unavailable b' = Some (IntVal 0)) \<and>
    lease_holder E now b' q = None \<and>
    pdb_labels b' = (pdb_labels b)(PodUIDLabel \<mapsto> pod_uid p) \<and>
    pdb_selector b' = Some (pod_uid_selector p) \<and> pdb_owners b' = pdb_owners b"
proof -
  have annotations: "pdb_annotations b' = (pdb_annotations b)(BypassOwner := None, BypassExpiration := None)"
    using SyncPDB_result [OF assms] by (simp add: scope_pdb_def)
  have "pdb_annotations b' BypassOwner = None"
    unfolding annotations by simp
  then have "lease_holder E now b' q = None"
    by (simp add: lease_holder_def map_get_def)
  then show ?thesis
    using SyncPDB_result [OF assms] by (simp add: scope_pdb_def IsPDBOpen_def pdb_open_def pdb_closed_def)
qed

lemma SyncPDBWithWorkloadClass_spec_witness:
  "\<exists>b. SyncPDBWithWorkloadClass ref_env (Some sample_wc) (Some sample_pod) (Some sample_pdb) True = Inr b \<and>
     \<not> IsPDBOpen (Some b) \<and> pdb_max_unavailable b = Some (IntVal 0)"
proof -
  obtain b where b: "SyncPDBWithWorkloadClass ref_env (Some sample_wc) (Some sample_pod) (Some sample_pdb) True = Inr b"
    using SyncPDB_total by blast
  then show ?thesis
    using SyncPDBWithWorkloadClass_spec [OF b] by (simp add: opens_def sample_wc_def)
qed

end
