(* ===== verification/Lease_Tracker.thy ===== *)
theory Lease_Tracker
  imports Utils_Basic Reference_Env "HOL-Library.AList"
begin

text \<open>
  \<open>internal/utils/lease_tracker.go\<close>: the in-memory hand-over of lease requests from the
  disruption webhook to the WorkloadClass controller. The inner Go map (Pod name to lease) is
  an association list, because \<open>Drain\<close> iterates over it; the event channel is the list of keys
  it holds, oldest first, with its capacity. Each mutex-protected section is one function.
\<close>

record pending_lease =
  pl_pod_name :: string
  pl_pod_uid :: string
  pl_subject :: subject

record tracker =
  tr_pending :: "namespaced_name \<rightharpoonup> (string \<times> pending_lease) list"
  tr_events :: "namespaced_name list"
  tr_capacity :: int

abbreviation DefaultPendingLeaseBufferSize :: int where
  "DefaultPendingLeaseBufferSize \<equiv> 1024"

definition NewPendingLeaseTracker :: "int \<Rightarrow> tracker" where
  "NewPendingLeaseTracker buffer_size =
     (let size = (if buffer_size \<le> 0 then DefaultPendingLeaseBufferSize else buffer_size)
      in \<lparr>tr_pending = Map.empty, tr_events = [], tr_capacity = size\<rparr>)"

definition signal :: "namespaced_name \<Rightarrow> tracker \<Rightarrow> bool \<times> tracker" where
  "signal wc_key t =
     (if int (length (tr_events t)) < tr_capacity t
      then (True, t\<lparr>tr_events := tr_events t @ [wc_key]\<rparr>)
      else (False, t))"

text \<open>The section of \<open>Enqueue\<close> under the mutex.\<close>

definition record_lease :: "namespaced_name \<Rightarrow> string \<Rightarrow> string \<Rightarrow> subject \<Rightarrow> tracker \<Rightarrow> tracker" where
  "record_lease wlc_key p_name p_uid sub t =
     (let leases = (case tr_pending t wlc_key of None \<Rightarrow> [] | Some l \<Rightarrow> l);
          fresh = (case map_of leases p_name of None \<Rightarrow> True | Some existing \<Rightarrow> pl_pod_uid existing \<noteq> p_uid);
          leases' = (if fresh
            then AList.update p_name \<lparr>pl_pod_name = p_name, pl_pod_uid = p_uid, pl_subject = sub\<rparr> leases
            else leases)
      in t\<lparr>tr_pending := (tr_pending t)(wlc_key \<mapsto> leases')\<rparr>)"

definition Enqueue ::
  "workload_class option \<Rightarrow> pod option \<Rightarrow> subject \<Rightarrow> tracker option \<Rightarrow> bool \<times> tracker option" where
  "Enqueue w p sub tr =
     (case (tr, w, p) of
        (Some t, Some wc, Some pod) \<Rightarrow>
          let wlc_key = (wc_namespace wc, wc_name wc);
              (sent, t') = signal wlc_key (record_lease wlc_key (pod_name pod) (pod_uid pod) sub t)
          in (sent, Some t')
      | _ \<Rightarrow> (False, tr))"

definition Drain :: "namespaced_name \<Rightarrow> tracker option \<Rightarrow> pending_lease list \<times> tracker option" where
  "Drain wc_key tr =
     (case tr of None \<Rightarrow> ([], None)
      | Some t \<Rightarrow>
          let leases = (case tr_pending t wc_key of None \<Rightarrow> [] | Some l \<Rightarrow> l);
              t' = t\<lparr>tr_pending := (tr_pending t)(wc_key := None)\<rparr>
          in if length leases = 0 then ([], Some t')
             else (sort_key pl_pod_name (map snd leases), Some t'))"

text \<open>The controller's receive from the channel returned by \<open>Events\<close>.\<close>

definition Events :: "tracker \<Rightarrow> namespaced_name list" where
  "Events t = tr_events t"

definition receive_event :: "tracker \<Rightarrow> (namespaced_name \<times> tracker) option" where
  "receive_event t = (case Events t of [] \<Rightarrow> None | k # ks \<Rightarrow> Some (k, t\<lparr>tr_events := ks\<rparr>))"

subsection \<open>The lease store\<close>

text \<open>
  The contract between the webhook, which puts leases, and the controller, which takes all
  leases of a WorkloadClass: \<open>ok\<close> is the invariant of the store, \<open>look t k n\<close> the pending
  lease of the Pod named \<open>n\<close> under the key \<open>k\<close>.
\<close>

locale lease_store =
  fixes look :: "'t \<Rightarrow> 'k \<Rightarrow> string \<Rightarrow> pending_lease option"
    and put :: "'k \<Rightarrow> pending_lease \<Rightarrow> 't \<Rightarrow> 't"
    and take_all :: "'k \<Rightarrow> 't \<Rightarrow> pending_lease list \<times> 't"
    and ok :: "'t \<Rightarrow> bool"
  assumes put_ok: "ok t \<Longrightarrow> ok (put k l t)"
    and take_ok: "ok t \<Longrightarrow> ok (snd (take_all k t))"
    and look_name: "ok t \<Longrightarrow> look t k n = Some l \<Longrightarrow> pl_pod_name l = n"
    and look_put: "ok t \<Longrightarrow> look (put k l t) k' n =
      (if k' = k \<and> n = pl_pod_name l \<and> (\<forall>x. look t k n = Some x \<longrightarrow> pl_pod_uid x \<noteq> pl_pod_uid l)
       then Some l else look t k' n)"
    and take_sorted: "ok t \<Longrightarrow> sorted_wrt (<) (map pl_pod_name (fst (take_all k t)))"
    and take_set: "ok t \<Longrightarrow> l \<in> set (fst (take_all k t)) \<longleftrightarrow> look t k (pl_pod_name l) = Some l"
    and look_take: "ok t \<Longrightarrow> look (snd (take_all k t)) k' n = (if k' = k then None else look t k' n)"
begin

text \<open>The first subject to ask for a lease on a Pod instance keeps its request.\<close>

lemma first_wins:
  assumes "ok t" "look t k (pl_pod_name l) = Some x" "pl_pod_uid l = pl_pod_uid x"
  shows "look (put k l t) = look t"
  using assms by (intro ext) (auto simp: look_put)

lemma puts_ok: "ok t \<Longrightarrow> ok (fold (put k) ls t)"
  by (induction ls arbitrary: t) (auto simp: put_ok)

text \<open>A request survives any number of other requests for the same Pod instance or other Pods.\<close>

lemma puts_keep:
  assumes "ok t" "look t k n = Some x"
    and "\<And>l. l \<in> set ls \<Longrightarrow> pl_pod_name l = n \<Longrightarrow> pl_pod_uid l = pl_pod_uid x"
  shows "look (fold (put k) ls t) k n = Some x"
  using assms
proof (induction ls arbitrary: t)
  case (Cons l ls)
  have "look (put k l t) k n = Some x"
    using Cons.prems by (auto simp: look_put)
  then show ?case
    using Cons by (simp add: put_ok)
qed simp

lemma puts_look:
  assumes "ok t" "distinct (map pl_pod_name ls)" "\<And>l. l \<in> set ls \<Longrightarrow> look t k (pl_pod_name l) = None"
  shows "look (fold (put k) ls t) k' n =
    (case find (\<lambda>l. pl_pod_name l = n) ls of
       Some l \<Rightarrow> if k' = k then Some l else look t k' n | None \<Rightarrow> look t k' n)"
  using assms
proof (induction ls arbitrary: t)
  case (Cons l ls)
  have "look (put k l t) k (pl_pod_name x) = None" if "x \<in> set ls" for x
    using that Cons.prems by (auto simp: look_put image_iff)
  then have "look (fold (put k) ls (put k l t)) k' n =
    (case find (\<lambda>l. pl_pod_name l = n) ls of
       Some x \<Rightarrow> if k' = k then Some x else look (put k l t) k' n | None \<Rightarrow> look (put k l t) k' n)"
    using Cons by (simp add: put_ok)
  moreover have "find (\<lambda>x. pl_pod_name x = n) ls = None" if "pl_pod_name l = n"
    unfolding find_None_iff using that Cons.prems(2) by (metis distinct.simps(2) image_eqI list.set_map list.simps(9))
  ultimately show ?case
    using Cons.prems by (auto simp: look_put split: option.splits)
qed simp

text \<open>Putting back all leases that were taken restores the store.\<close>

lemma put_back:
  assumes "ok t"
  shows "look (fold (put k) (fst (take_all k t)) (snd (take_all k t))) = look t"
proof (intro ext)
  fix k' n
  let ?ls = "fst (take_all k t)"
  have distinct: "distinct (map pl_pod_name ?ls)"
    using take_sorted [OF assms] by (simp add: strict_sorted_iff)
  have look: "look (fold (put k) ?ls (snd (take_all k t))) k' n =
    (case find (\<lambda>l. pl_pod_name l = n) ?ls of
       Some l \<Rightarrow> if k' = k then Some l else look (snd (take_all k t)) k' n
     | None \<Rightarrow> look (snd (take_all k t)) k' n)"
    by (rule puts_look) (simp_all add: assms take_ok distinct look_take)
  show "look (fold (put k) ?ls (snd (take_all k t))) k' n = look t k' n"
  proof (cases "find (\<lambda>l. pl_pod_name l = n) ?ls")
    case None
    have "look t k n = None"
    proof (rule ccontr)
      assume "look t k n \<noteq> None"
      then obtain l where l: "look t k n = Some l" by blast
      then have "l \<in> set ?ls" "pl_pod_name l = n"
        using take_set [OF assms] look_name [OF assms] by auto
      with None show False by (auto simp: find_None_iff)
    qed
    then show ?thesis using look None by (simp add: look_take assms)
  next
    case (Some l)
    then have "l \<in> set ?ls" "pl_pod_name l = n" by (auto simp: find_Some_iff)
    then have "look t k n = Some l" using take_set [OF assms] by auto
    then show ?thesis using look Some by (simp add: look_take assms)
  qed
qed

end

subsection \<open>The tracker is a lease store\<close>

definition lease_of :: "tracker \<Rightarrow> namespaced_name \<Rightarrow> string \<Rightarrow> pending_lease option" where
  "lease_of t k n = (case tr_pending t k of None \<Rightarrow> None | Some ls \<Rightarrow> map_of ls n)"

text \<open>Every inner map is keyed by the Pod names of its leases.\<close>

definition tracker_ok :: "tracker \<Rightarrow> bool" where
  "tracker_ok t =
     (\<forall>k ls. tr_pending t k = Some ls \<longrightarrow> distinct (map fst ls) \<and> (\<forall>(n, l) \<in> set ls. pl_pod_name l = n))"

definition put_lease :: "namespaced_name \<Rightarrow> pending_lease \<Rightarrow> tracker \<Rightarrow> tracker" where
  "put_lease k l t = snd (signal k (record_lease k (pl_pod_name l) (pl_pod_uid l) (pl_subject l) t))"

definition take_leases :: "namespaced_name \<Rightarrow> tracker \<Rightarrow> pending_lease list \<times> tracker" where
  "take_leases k t = (case Drain k (Some t) of (ls, Some t') \<Rightarrow> (ls, t') | (ls, None) \<Rightarrow> (ls, t))"

lemma tracker_ok_map_of:
  "tracker_ok t \<longleftrightarrow>
     (\<forall>k ls. tr_pending t k = Some ls \<longrightarrow> distinct (map fst ls) \<and> (\<forall>n l. map_of ls n = Some l \<longrightarrow> pl_pod_name l = n))"
  unfolding tracker_ok_def by (auto simp: map_of_eq_Some_iff case_prod_beta; fastforce)

lemma tracker_okD:
  assumes "tracker_ok t" "tr_pending t k = Some ls"
  shows "distinct (map fst ls)" "(n, l) \<in> set ls \<Longrightarrow> pl_pod_name l = n"
    "map_of ls n = Some l \<Longrightarrow> pl_pod_name l = n"
  using assms unfolding tracker_ok_map_of by (blast, metis map_of_is_SomeI, blast)

lemma tr_pending_put: "tr_pending (put_lease k l t) = tr_pending (record_lease k (pl_pod_name l) (pl_pod_uid l) (pl_subject l) t)"
  by (simp add: put_lease_def signal_def)

lemma pending_lease_eta [simp]:
  "\<lparr>pl_pod_name = pl_pod_name l, pl_pod_uid = pl_pod_uid l, pl_subject = pl_subject l\<rparr> = l"
  by simp

lemma lease_of_put:
  "lease_of (put_lease k l t) k' n =
     (if k' = k \<and> n = pl_pod_name l \<and> (\<forall>x. lease_of t k n = Some x \<longrightarrow> pl_pod_uid x \<noteq> pl_pod_uid l)
      then Some l else lease_of t k' n)"
  by (auto simp: lease_of_def tr_pending_put record_lease_def Let_def update_conv' split: option.splits)

lemma tracker_ok_put: "tracker_ok t \<Longrightarrow> tracker_ok (put_lease k l t)"
  by (auto simp: tracker_ok_map_of tr_pending_put record_lease_def Let_def update_conv' distinct_update
      split: option.splits if_splits)

lemma take_leases_simps:
  "fst (take_leases k t) = sort_key pl_pod_name (case tr_pending t k of None \<Rightarrow> [] | Some ls \<Rightarrow> map snd ls)"
  "tr_pending (snd (take_leases k t)) = (tr_pending t)(k := None)"
  "tr_events (snd (take_leases k t)) = tr_events t"
  by (auto simp: take_leases_def Drain_def Let_def split: option.splits)

lemma tracker_ok_take: "tracker_ok t \<Longrightarrow> tracker_ok (snd (take_leases k t))"
  by (auto simp: tracker_ok_map_of take_leases_simps split: if_splits)

lemma tracker_ok_names:
  "tracker_ok t \<Longrightarrow> tr_pending t k = Some ls \<Longrightarrow> map pl_pod_name (map snd ls) = map fst ls"
  using tracker_okD(2) by (auto simp del: split_paired_All)

lemma take_leases_sorted:
  assumes "tracker_ok t"
  shows "sorted_wrt (<) (map pl_pod_name (fst (take_leases k t)))"
proof (cases "tr_pending t k")
  case (Some ls)
  then have "distinct (map pl_pod_name (map snd ls))"
    using tracker_okD(1) [OF assms Some] by (simp only: tracker_ok_names [OF assms Some])
  then have "distinct (map pl_pod_name (sort_key pl_pod_name (map snd ls)))"
    by (metis distinct_map distinct_sort set_sort)
  then show ?thesis
    using Some by (simp add: take_leases_simps strict_sorted_iff)
qed (simp add: take_leases_simps)

lemma take_leases_set:
  assumes "tracker_ok t"
  shows "l \<in> set (fst (take_leases k t)) \<longleftrightarrow> lease_of t k (pl_pod_name l) = Some l"
proof (cases "tr_pending t k")
  case None
  then show ?thesis by (simp add: take_leases_simps lease_of_def)
next
  case (Some ls)
  then have "distinct (map fst ls)" "\<forall>(n, l) \<in> set ls. pl_pod_name l = n"
    using tracker_okD [OF assms Some] by auto
  then show ?thesis
    using Some by (force simp: take_leases_simps lease_of_def map_of_eq_Some_iff)
qed

interpretation leases: lease_store lease_of put_lease take_leases tracker_ok
proof
  fix t :: tracker and k n l k'
  assume ok: "tracker_ok t"
  show "tracker_ok (put_lease k l t)" using ok by (rule tracker_ok_put)
  show "tracker_ok (snd (take_leases k t))" using ok by (rule tracker_ok_take)
  show "lease_of t k n = Some l \<Longrightarrow> pl_pod_name l = n"
    using tracker_okD(3) [OF ok] by (auto simp: lease_of_def split: option.splits)
  show "lease_of (put_lease k l t) k' n =
    (if k' = k \<and> n = pl_pod_name l \<and> (\<forall>x. lease_of t k n = Some x \<longrightarrow> pl_pod_uid x \<noteq> pl_pod_uid l)
     then Some l else lease_of t k' n)" by (rule lease_of_put)
  show "sorted_wrt (<) (map pl_pod_name (fst (take_leases k t)))" using ok by (rule take_leases_sorted)
  show "l \<in> set (fst (take_leases k t)) \<longleftrightarrow> lease_of t k (pl_pod_name l) = Some l"
    using ok by (rule take_leases_set)
  show "lease_of (snd (take_leases k t)) k' n = (if k' = k then None else lease_of t k' n)"
    by (simp add: lease_of_def take_leases_simps)
qed

subsection \<open>\<open>Enqueue\<close> and \<open>Drain\<close>\<close>

definition lease_for :: "pod \<Rightarrow> subject \<Rightarrow> pending_lease" where
  "lease_for p sub = \<lparr>pl_pod_name = pod_name p, pl_pod_uid = pod_uid p, pl_subject = sub\<rparr>"

lemma lease_for_simps [simp]:
  "pl_pod_name (lease_for p sub) = pod_name p" "pl_pod_uid (lease_for p sub) = pod_uid p"
  "pl_subject (lease_for p sub) = sub"
  by (simp_all add: lease_for_def)

lemma Enqueue_put:
  "Enqueue (Some wc) (Some p) sub (Some t) =
     (int (length (tr_events t)) < tr_capacity t, Some (put_lease (wc_namespace wc, wc_name wc) (lease_for p sub) t))"
  by (simp add: Enqueue_def put_lease_def signal_def record_lease_def Let_def)

lemma put_lease_events:
  "tr_events (put_lease k l t) =
     (if int (length (tr_events t)) < tr_capacity t then tr_events t @ [k] else tr_events t)"
  "tr_capacity (put_lease k l t) = tr_capacity t"
  by (simp_all add: put_lease_def signal_def record_lease_def Let_def)

lemma Drain_take: "Drain k (Some t) = (fst (take_leases k t), Some (snd (take_leases k t)))"
  by (simp add: take_leases_def Drain_def Let_def split: option.splits)

lemma new_tracker [simp]:
  "tracker_ok (NewPendingLeaseTracker cap)" "lease_of (NewPendingLeaseTracker cap) k n = None"
  "tr_events (NewPendingLeaseTracker cap) = []"
  by (simp_all add: tracker_ok_def lease_of_def NewPendingLeaseTracker_def Let_def)

lemma take_leases_capacity: "tr_capacity (snd (take_leases k t)) = tr_capacity t"
  by (simp add: take_leases_def Drain_def Let_def split: option.splits)

text \<open>\<open>Enqueue\<close> records the request under its WorkloadClass unless one is pending for the same
  Pod instance, which is kept (the first subject wins); a request for an earlier instance is
  replaced, no other request changes, and the wake-up event is queued unless the channel is full.\<close>

theorem Enqueue_functional:
  assumes "Enqueue (Some wc) (Some p) sub (Some t) = (sent, Some t')"
  shows "(\<forall>k n. lease_of t' k n =
      (if k = (wc_namespace wc, wc_name wc) \<and> n = pod_name p \<and>
          (\<forall>x. lease_of t k n = Some x \<longrightarrow> pl_pod_uid x \<noteq> pod_uid p)
       then Some \<lparr>pl_pod_name = pod_name p, pl_pod_uid = pod_uid p, pl_subject = sub\<rparr> else lease_of t k n)) \<and>
    sent = (int (length (Events t)) < tr_capacity t) \<and>
    Events t' = (if sent then Events t @ [(wc_namespace wc, wc_name wc)] else Events t)"
  using assms by (auto simp: Enqueue_put lease_of_put put_lease_events Events_def lease_for_def)

lemma Enqueue_functional_witness:
  "let sub = \<lparr>sub_kind = ''User'', sub_name = ''ann'', sub_namespace = ''''\<rparr>;
       t' = snd (Enqueue (Some sample_wc) (Some sample_pod) sub (Some (NewPendingLeaseTracker 1)))
   in lease_of (the t') (''prod'', ''web'') ''web-0'' =
        Some \<lparr>pl_pod_name = ''web-0'', pl_pod_uid = ''p1'', pl_subject = sub\<rparr> \<and>
      Events (the t') = [(''prod'', ''web'')]"
proof -
  let ?sub = "\<lparr>sub_kind = ''User'', sub_name = ''ann'', sub_namespace = ''''\<rparr>"
  let ?t = "NewPendingLeaseTracker 1"
  have enq: "Enqueue (Some sample_wc) (Some sample_pod) ?sub (Some ?t) =
    (True, Some (put_lease (wc_namespace sample_wc, wc_name sample_wc) (lease_for sample_pod ?sub) ?t))"
    by (simp add: Enqueue_put NewPendingLeaseTracker_def)
  show ?thesis
    using Enqueue_functional [OF enq] enq
    by (simp add: samples NewPendingLeaseTracker_def lease_of_def Events_def)
qed

text \<open>\<open>Drain\<close> hands over exactly the pending leases of the WorkloadClass, one per Pod name in
  increasing order, and forgets them while leaving every other WorkloadClass's leases and all
  events alone.\<close>

theorem Drain_functional:
  assumes "tracker_ok t" "Drain k (Some t) = (ls, Some t')"
  shows "sorted_wrt (<) (map pl_pod_name ls) \<and>
    (\<forall>l. l \<in> set ls \<longleftrightarrow> lease_of t k (pl_pod_name l) = Some l) \<and>
    (\<forall>k' n. lease_of t' k' n = (if k' = k then None else lease_of t k' n)) \<and>
    Events t' = Events t \<and> tracker_ok t'"
proof -
  have "ls = fst (take_leases k t)" "t' = snd (take_leases k t)"
    using assms(2) by (simp_all add: Drain_take)
  then show ?thesis
    using leases.take_sorted [OF assms(1), of k] leases.take_set [OF assms(1), of _ k]
      leases.look_take [OF assms(1), of k] leases.take_ok [OF assms(1), of k] take_leases_simps(3) [of k t]
    by (simp add: Events_def del: split_paired_All)
qed

lemma Drain_functional_witness:
  "let l = \<lparr>pl_pod_name = ''web-0'', pl_pod_uid = ''p1'',
         pl_subject = \<lparr>sub_kind = ''User'', sub_name = ''ann'', sub_namespace = ''''\<rparr>\<rparr>;
       r = Drain (''prod'', ''web'') (Some (put_lease (''prod'', ''web'') l (NewPendingLeaseTracker 1)))
   in l \<in> set (fst r) \<and> lease_of (the (snd r)) (''prod'', ''web'') ''web-0'' = None"
proof -
  let ?l = "\<lparr>pl_pod_name = ''web-0'', pl_pod_uid = ''p1'',
         pl_subject = \<lparr>sub_kind = ''User'', sub_name = ''ann'', sub_namespace = ''''\<rparr>\<rparr>"
  let ?t = "put_lease (''prod'', ''web'') ?l (NewPendingLeaseTracker 1)"
  have ok: "tracker_ok ?t" by (rule tracker_ok_put) simp
  have "lease_of ?t (''prod'', ''web'') (pl_pod_name ?l) = Some ?l" by (simp add: lease_of_put)
  with Drain_functional [OF ok Drain_take, of "(''prod'', ''web'')"]
  have "?l \<in> set (fst (take_leases (''prod'', ''web'') ?t))"
    by blast
  moreover have "lease_of (snd (take_leases (''prod'', ''web'') ?t)) (''prod'', ''web'') ''web-0'' = None"
    by (simp add: leases.look_take [OF ok])
  ultimately show ?thesis unfolding Let_def Drain_take by simp
qed

subsection \<open>The hand-over protocol\<close>

text \<open>
  The webhook and the controller interleave on the tracker: a request (\<open>Enqueue\<close>), the receipt
  of an event by the controller's work queue, any other watch event that queues a
  WorkloadClass, and a reconciliation that drains a queued one. \<open>ho_missed\<close> records the keys
  whose event did not fit the channel since their last reconciliation.
\<close>

record handover =
  ho_tracker :: tracker
  ho_queue :: "namespaced_name set"
  ho_missed :: "namespaced_name set"

inductive handover_step :: "handover \<Rightarrow> handover \<Rightarrow> bool" where
  request: "Enqueue (Some wc) (Some p) sub (Some (ho_tracker h)) = (sent, Some t') \<Longrightarrow>
    handover_step h (h\<lparr>ho_tracker := t',
      ho_missed := (if sent then ho_missed h else insert (wc_namespace wc, wc_name wc) (ho_missed h))\<rparr>)"
| wake: "receive_event (ho_tracker h) = Some (k, t') \<Longrightarrow>
    handover_step h (h\<lparr>ho_tracker := t', ho_queue := insert k (ho_queue h)\<rparr>)"
| watch: "handover_step h (h\<lparr>ho_queue := insert k (ho_queue h)\<rparr>)"
| reconcile: "k \<in> ho_queue h \<Longrightarrow> Drain k (Some (ho_tracker h)) = (ls, Some t') \<Longrightarrow>
    handover_step h (h\<lparr>ho_tracker := t', ho_queue := ho_queue h - {k}, ho_missed := ho_missed h - {k}\<rparr>)"

inductive handover_reachable :: "int \<Rightarrow> handover \<Rightarrow> bool" for cap :: int where
  start: "handover_reachable cap \<lparr>ho_tracker = NewPendingLeaseTracker cap, ho_queue = {}, ho_missed = {}\<rparr>"
| step: "handover_reachable cap h \<Longrightarrow> handover_step h h' \<Longrightarrow> handover_reachable cap h'"

definition handover_inv :: "handover \<Rightarrow> bool" where
  "handover_inv h =
     (tracker_ok (ho_tracker h) \<and>
      int (length (Events (ho_tracker h))) \<le> tr_capacity (ho_tracker h) \<and>
      (\<forall>k n. lease_of (ho_tracker h) k n \<noteq> None \<longrightarrow>
         k \<in> set (Events (ho_tracker h)) \<or> k \<in> ho_queue h \<or> k \<in> ho_missed h))"

lemma handover_inv_start:
  "handover_inv \<lparr>ho_tracker = NewPendingLeaseTracker cap, ho_queue = {}, ho_missed = {}\<rparr>"
  by (simp add: handover_inv_def NewPendingLeaseTracker_def Let_def tracker_ok_def lease_of_def Events_def)

lemma handover_inv_step:
  assumes "handover_step h h'" "handover_inv h"
  shows "handover_inv h'"
  using assms(1)
proof (cases rule: handover_step.cases)
  case (request wc p sub sent t')
  then have t': "t' = put_lease (wc_namespace wc, wc_name wc) (lease_for p sub) (ho_tracker h)"
    and sent: "sent = (int (length (tr_events (ho_tracker h))) < tr_capacity (ho_tracker h))"
    by (simp_all add: Enqueue_put)
  show ?thesis
    using assms(2) unfolding request(1) t' sent handover_inv_def
    by (auto simp: tracker_ok_put put_lease_events lease_of_put Events_def simp del: split_paired_All)
next
  case (wake k t')
  then have pending: "tr_pending t' = tr_pending (ho_tracker h)"
    and events: "Events (ho_tracker h) = k # Events t'" "tr_capacity t' = tr_capacity (ho_tracker h)"
    by (auto simp: receive_event_def Events_def split: list.splits)
  have "lease_of t' = lease_of (ho_tracker h)" "tracker_ok t' = tracker_ok (ho_tracker h)"
    unfolding lease_of_def tracker_ok_def pending by (rule refl)+
  then show ?thesis
    using assms(2) unfolding wake(1) handover_inv_def
    by (simp add: events del: split_paired_All not_None_eq) blast
next
  case (watch k)
  then show ?thesis using assms(2) by (auto simp: handover_inv_def simp del: split_paired_All)
next
  case (reconcile k ls t')
  then have t': "t' = snd (take_leases k (ho_tracker h))" by (simp add: Drain_take)
  have ok: "tracker_ok (ho_tracker h)" using assms(2) by (simp add: handover_inv_def)
  show ?thesis
    using assms(2) unfolding reconcile(1) t' handover_inv_def
    by (auto simp: leases.look_take [OF ok] leases.take_ok [OF ok] Events_def take_leases_simps
        take_leases_capacity simp del: split_paired_All split: if_splits)
qed

text \<open>C10: No lost wake-up: however requests, events, watches and reconciliations interleave, a
  WorkloadClass with a pending lease has an event in the channel or is queued for
  reconciliation, unless its event was dropped because the channel was full.\<close>

theorem handover_no_lost_wakeup:
  assumes "handover_reachable cap h" "lease_of (ho_tracker h) k n \<noteq> None" "k \<notin> ho_missed h"
  shows "k \<in> set (Events (ho_tracker h)) \<or> k \<in> ho_queue h"
proof -
  from assms(1) have "handover_inv h"
    by (induction rule: handover_reachable.induct) (simp_all add: handover_inv_start handover_inv_step)
  with assms(2,3) show ?thesis unfolding handover_inv_def by blast
qed

lemma handover_no_lost_wakeup_witness:
  "\<exists>h :: handover. lease_of (ho_tracker h) (''prod'', ''web'') ''web-0'' \<noteq> None \<and>
     ((''prod'', ''web'') \<in> set (Events (ho_tracker h)) \<or> (''prod'', ''web'') \<in> ho_queue h)"
proof -
  let ?sub = "\<lparr>sub_kind = ''User'', sub_name = ''ann'', sub_namespace = ''''\<rparr>"
  let ?h = "\<lparr>ho_tracker = NewPendingLeaseTracker 4, ho_queue = {}, ho_missed = {}\<rparr>"
  let ?t = "put_lease (wc_namespace sample_wc, wc_name sample_wc) (lease_for sample_pod ?sub) (ho_tracker ?h)"
  let ?h' = "?h\<lparr>ho_tracker := ?t, ho_missed := (if True then ho_missed ?h
    else insert (wc_namespace sample_wc, wc_name sample_wc) (ho_missed ?h))\<rparr>"
  have "Enqueue (Some sample_wc) (Some sample_pod) ?sub (Some (ho_tracker ?h)) = (True, Some ?t)"
    by (simp add: Enqueue_put NewPendingLeaseTracker_def)
  from handover_step.request [OF this] have reach: "handover_reachable 4 ?h'"
    by (rule handover_reachable.step [OF handover_reachable.start])
  have lease: "lease_of (ho_tracker ?h') (''prod'', ''web'') ''web-0'' \<noteq> None"
    by (simp add: lease_of_put samples)
  have event: "(''prod'', ''web'') \<in> set (Events (ho_tracker ?h')) \<or> (''prod'', ''web'') \<in> ho_queue ?h'"
    by (rule handover_no_lost_wakeup [OF reach lease]) (simp add: samples)
  show ?thesis by (rule exI [of _ ?h']) (rule conjI [OF lease event])
qed

end
