(* ===== verification/Wc_Pdbs.thy ===== *)
theory Wc_Pdbs
  imports Controller_Common Pdb Lease_Tracker
begin

text \<open>
  The Per-Pod PDB half of \<open>workloadclass_controller.go\<close>: \<open>reconcilePDBs\<close> and what it calls. An
  operation that writes takes the cluster state and returns it with its error; the lease
  tracker is threaded where leases are put back. The second half shows what happens to leases and
  PDBs: granting, waiting, claiming, cleaning up, and that no drained request is lost.
\<close>

subsection \<open>One PDB\<close>

definition protectsPods :: "string \<Rightarrow> bool \<Rightarrow> bool" where
  "protectsPods reason has_guardrails =
     (reason = ReasonValidationPassed \<or> (reason = ReasonSelectorOverlap \<and> has_guardrails))"

definition passedValidation :: "env \<Rightarrow> workload_class \<Rightarrow> bool \<Rightarrow> bool" where
  "passedValidation E wc has_guardrails =
     (case find_status_condition E (wc_conditions wc) ConditionTypeValidated of
        None \<Rightarrow> False | Some cond \<Rightarrow> protectsPods (c_reason cond) has_guardrails)"

definition claimPDB :: "env \<Rightarrow> workload_class \<Rightarrow> pdb \<Rightarrow> api_error + pdb" where
  "claimPDB E wc b =
     (if pdb_version b \<noteq> '''' \<and> \<not> IsWorkloadClassManagedPDB E (Some b) then
        Inl (OtherError (''PDB '' @ pdb_namespace b @ ''/'' @ pdb_name b @
          '' already exists and is not managed by a WorkloadClass''))
      else let owners = (case get_controller_of E (pdb_owners b) of
                Some owner \<Rightarrow> if or_uid owner \<noteq> wc_uid wc
                    then filter (\<lambda>r. or_controller r \<noteq> Some True) (pdb_owners b) else pdb_owners b
              | None \<Rightarrow> pdb_owners b)
           in case set_controller_reference E wc owners of
                Inl err \<Rightarrow> Inl err | Inr owners' \<Rightarrow> Inr (b\<lparr>pdb_owners := owners'\<rparr>))"

definition sync_mutate :: "env \<Rightarrow> workload_class \<Rightarrow> pod \<Rightarrow> bool \<Rightarrow> pdb \<Rightarrow> api_error + pdb" where
  "sync_mutate E wc p is_valid b =
     bind_result (claimPDB E wc b) (\<lambda>b'. SyncPDBWithWorkloadClass E (Some wc) (Some p) (Some b') is_valid)"

definition syncPodPDB ::
  "env \<Rightarrow> 's client \<Rightarrow> workload_class \<Rightarrow> pod \<Rightarrow> bool \<Rightarrow> 's \<Rightarrow> api_error option \<times> 's" where
  "syncPodPDB E C wc p is_valid s =
     (case create_or_update_pdb C (PDBBase E (Some p)) (sync_mutate E wc p is_valid) s of
        (Some err, s') \<Rightarrow>
          (Some (wrap_error (''failed to reconcile PDB '' @ pdb_name (PDBBase E (Some p)) @ '': '') err), s')
      | (None, s') \<Rightarrow> (None, s'))"

definition lease_mutate :: "env \<Rightarrow> go_time \<Rightarrow> workload_class \<Rightarrow> pod \<Rightarrow> subject \<Rightarrow> pdb \<Rightarrow> api_error + pdb" where
  "lease_mutate E now wc p sub b =
     bind_result (claimPDB E wc b) (\<lambda>b'. PDBWithLease E now (Some b') (Some p) sub)"

definition leasePodPDB ::
  "env \<Rightarrow> 's client \<Rightarrow> go_time \<Rightarrow> workload_class \<Rightarrow> pod \<Rightarrow> subject \<Rightarrow> 's \<Rightarrow> api_error option \<times> 's" where
  "leasePodPDB E C now wc p sub s =
     (case create_or_update_pdb C (PDBBase E (Some p)) (lease_mutate E now wc p sub) s of
        (Some err, s') \<Rightarrow>
          (Some (wrap_error (''failed to lease PDB '' @ pdb_name (PDBBase E (Some p)) @ '': '') err), s')
      | (None, s') \<Rightarrow> (None, s'))"

text \<open>The delete carries the UID and the resource version of \<open>current\<close> as preconditions.\<close>

definition deletePDB ::
  "env \<Rightarrow> 's client \<Rightarrow> workload_class \<Rightarrow> pdb \<Rightarrow> 's \<Rightarrow> api_error option \<times> 's" where
  "deletePDB E C wc b s =
     (case get_pdb C s (pdb_namespace b) (pdb_name b) of
        Inl err \<Rightarrow> (ignore_not_found err, s)
      | Inr current \<Rightarrow>
          if \<not> is_controlled_by E (pdb_owners current) (wc_uid wc) then (None, s)
          else case delete_pdb C current s of
              (None, s') \<Rightarrow> (None, s')
            | (Some err, s') \<Rightarrow>
                if is_not_found err then (None, s')
                else (Some (wrap_error (''failed to delete PDB '' @ pdb_name b @ '': '') err), s'))"

text \<open>\<open>ensurePodUIDLabel\<close>; the Pod object keeps the label it was given.\<close>

definition with_uid_label :: "pod \<Rightarrow> pod" where
  "with_uid_label p = p\<lparr>pod_labels := (pod_labels p)(PodUIDLabel \<mapsto> pod_uid p)\<rparr>"

definition ensurePodUIDLabel :: "'s client \<Rightarrow> pod \<Rightarrow> 's \<Rightarrow> (api_error + pod) \<times> 's" where
  "ensurePodUIDLabel C p s =
     (if map_get (pod_labels p) PodUIDLabel = pod_uid p then (Inr p, s)
      else case patch_pod_labels C p (pod_labels (with_uid_label p)) s of
          (Some err, s') \<Rightarrow> (Inl (wrap_error (''failed to label Pod '' @ pod_name p @ '': '') err), s')
        | (None, s') \<Rightarrow> (Inr (with_uid_label p), s'))"

definition activeLeaseRemaining :: "env \<Rightarrow> go_time \<Rightarrow> pdb option \<Rightarrow> pod \<Rightarrow> duration" where
  "activeLeaseRemaining E now b p =
     (case b of None \<Rightarrow> 0
      | Some pdb \<Rightarrow>
          if map_get (pdb_labels pdb) PodUIDLabel \<noteq> pod_uid p \<or> map_get (pdb_annotations pdb) BypassOwner = ''''
          then 0 else LeaseTimeRemaining E now (Some pdb))"

subsection \<open>One governed Pod\<close>

text \<open>What \<open>reconcilePodPDB\<close> does with the PDB it read.\<close>

datatype pod_action = KeepLease duration | GrantLease subject | Resync

definition choose_action ::
  "env \<Rightarrow> go_time \<Rightarrow> pod \<Rightarrow> pdb option \<Rightarrow> (string \<rightharpoonup> pending_lease) \<Rightarrow> pod_action" where
  "choose_action E now p existing leases =
     (let rest = (let remaining = activeLeaseRemaining E now existing p
                  in if remaining > 0 then KeepLease remaining else Resync)
      in case leases (pod_name p) of
           None \<Rightarrow> rest
         | Some lease \<Rightarrow>
             if pl_pod_uid lease \<noteq> pod_uid p then rest
             else if existing \<noteq> None \<and> SubjectAlreadyLeasing E now existing (Some p) (pl_subject lease)
               then KeepLease (LeaseTimeRemaining E now existing)
             else if existing = None \<or> AllowLease E now existing (Some p) then GrantLease (pl_subject lease)
             else rest)"

definition reconcilePodPDB ::
  "env \<Rightarrow> 's client \<Rightarrow> go_time \<Rightarrow> workload_class \<Rightarrow> pod \<Rightarrow> (string \<rightharpoonup> pending_lease) \<Rightarrow> 's
    \<Rightarrow> requeue_result \<times> 's" where
  "reconcilePodPDB E C now wc p leases s =
     (case ensurePodUIDLabel C p s of
        (Inl err, s1) \<Rightarrow> (Inl err, s1)
      | (Inr p1, s1) \<Rightarrow>
          (case (case get_pdb C s1 (pod_namespace p1) (PDBName E (pod_name p1)) of
                   Inl err \<Rightarrow> if \<not> is_not_found err
                     then Inl (wrap_error (''failed to get PDB for Pod '' @ pod_name p1 @ '': '') err) else Inr None
                 | Inr b \<Rightarrow> Inr (Some b)) of
             Inl err \<Rightarrow> (Inl err, s1)
           | Inr existing \<Rightarrow>
               (case choose_action E now p1 existing leases of
                  KeepLease d \<Rightarrow> (Inr d, s1)
                | GrantLease sub \<Rightarrow>
                    (case leasePodPDB E C now wc p1 sub s1 of
                       (Some err, s2) \<Rightarrow> (Inl err, s2) | (None, s2) \<Rightarrow> (Inr (LeaseDurationForPod (Some p1)), s2))
                | Resync \<Rightarrow>
                    (case syncPodPDB E C wc p1 True s1 of
                       (Some err, s2) \<Rightarrow> (Inl err, s2) | (None, s2) \<Rightarrow> (Inr 0, s2)))))"

subsection \<open>Finding Pods\<close>

definition getPod :: "'s client \<Rightarrow> 's \<Rightarrow> string \<Rightarrow> string \<Rightarrow> api_error + pod option" where
  "getPod C s namespace nm =
     (case get_pod C s namespace nm of
        Inl err \<Rightarrow> if is_not_found err then Inr None else Inl (wrap_error (''failed to get Pod '' @ nm @ '': '') err)
      | Inr p \<Rightarrow> Inr (Some p))"

definition getPodForPDB :: "env \<Rightarrow> 's client \<Rightarrow> 's \<Rightarrow> string \<Rightarrow> pdb \<Rightarrow> api_error + pod option" where
  "getPodForPDB E C s namespace b =
     (case getPod C s namespace (PodNameFromPDBName (pdb_name b)) of
        Inl err \<Rightarrow> Inl err
      | Inr (Some p) \<Rightarrow> Inr (Some p)
      | Inr None \<Rightarrow>
          if length (pdb_name b) < MaxPDBNameLength then Inr None
          else (case list_pods C s namespace everything of
              Inl err \<Rightarrow> Inl (wrap_error (''failed to list Pods in namespace '' @ namespace @ '': '') err)
            | Inr pods \<Rightarrow> Inr (find (\<lambda>p. PDBName E (pod_name p) = pdb_name b) pods)))"

definition governs ::
  "env \<Rightarrow> workload_class \<Rightarrow> workload_class option \<Rightarrow> workload_class list \<Rightarrow> pdb list \<Rightarrow> pod \<Rightarrow> bool" where
  "governs E wc enforced wcs user_pdbs p =
     (if \<not> IsPodActive (Some p) \<or> IsPodCoveredByUserPDB E (Some p) user_pdbs then False
      else case BestMatchWorkloadClassForPod E (Some p) enforced wcs of
          None \<Rightarrow> False | Some b \<Rightarrow> wc_name b = wc_name wc)"

definition governed_selector ::
  "env \<Rightarrow> workload_class \<Rightarrow> workload_class option \<Rightarrow> api_error + (str_map \<Rightarrow> bool) option" where
  "governed_selector E wc enforced =
     (case enforced of
        Some w \<Rightarrow> if wc_name w \<noteq> wc_name wc then Inr None else Inr (Some everything)
      | None \<Rightarrow>
          if wc_selector wc = None then Inr None
          else (case as_selector E (wc_selector wc) of
              Inl err \<Rightarrow> Inl (OtherError (''invalid podSelector: '' @ err)) | Inr sel \<Rightarrow> Inr (Some sel)))"

definition governedPods ::
  "env \<Rightarrow> 's client \<Rightarrow> 's \<Rightarrow> workload_class \<Rightarrow> workload_class option \<Rightarrow> workload_class list \<Rightarrow> pdb list
    \<Rightarrow> api_error + pod list" where
  "governedPods E C s wc enforced wcs user_pdbs =
     (case governed_selector E wc enforced of
        Inl err \<Rightarrow> Inl err
      | Inr None \<Rightarrow> Inr []
      | Inr (Some selector) \<Rightarrow>
          (case list_pods C s (wc_namespace wc) selector of
             Inl err \<Rightarrow> Inl (wrap_error ''failed to list Pods: '' err)
           | Inr pods \<Rightarrow> Inr (filter (governs E wc enforced wcs user_pdbs) pods)))"

subsection \<open>All PDBs of a WorkloadClass\<close>

definition lease_pod :: "workload_class \<Rightarrow> pending_lease \<Rightarrow> pod" where
  "lease_pod wc l =
     \<lparr>pod_name = pl_pod_name l, pod_generate_name = '''', pod_namespace = wc_namespace wc,
      pod_uid = pl_pod_uid l, pod_labels = Map.empty, pod_created = 0, pod_deletion = None,
      pod_deletion_grace = None, pod_owners = [], pod_node = '''', pod_node_selector = Map.empty,
      pod_tolerations = [], pod_affinity = None, pod_grace = None, pod_phase = '''', pod_start = None,
      pod_conditions = []\<rparr>"

definition reenqueueLeases :: "workload_class \<Rightarrow> pending_lease list \<Rightarrow> tracker option \<Rightarrow> tracker option" where
  "reenqueueLeases wc leases tr =
     fold (\<lambda>l t. snd (Enqueue (Some wc) (Some (lease_pod wc l)) (pl_subject l) t)) leases tr"

definition opt_list :: "'a option \<Rightarrow> 'a list" where
  "opt_list x = (case x of None \<Rightarrow> [] | Some a \<Rightarrow> [a])"

text \<open>\<open>openOwnedPDBs\<close>: the loop state is the errors so far and the cluster.\<close>

definition open_owned_step ::
  "env \<Rightarrow> 's client \<Rightarrow> workload_class \<Rightarrow> pdb list \<Rightarrow> pdb \<Rightarrow> api_error list \<times> 's \<Rightarrow> api_error list \<times> 's" where
  "open_owned_step E C wc user_pdbs b acc =
     (let (errs, s) = acc
      in case getPodForPDB E C s (wc_namespace wc) b of
           Inl err \<Rightarrow> (errs @ [err], s)
         | Inr p_opt \<Rightarrow>
             (let (err, s') = (case p_opt of
                  None \<Rightarrow> deletePDB E C wc b s
                | Some p \<Rightarrow>
                    if \<not> IsPodActive (Some p) \<or> IsPodCoveredByUserPDB E (Some p) user_pdbs
                    then deletePDB E C wc b s else syncPodPDB E C wc p False s)
              in (errs @ opt_list err, s')))"

definition openOwnedPDBs ::
  "env \<Rightarrow> 's client \<Rightarrow> workload_class \<Rightarrow> pdb list \<Rightarrow> pdb list \<Rightarrow> 's \<Rightarrow> api_error option \<times> 's" where
  "openOwnedPDBs E C wc owned user_pdbs s =
     (let (errs, s') = fold (open_owned_step E C wc user_pdbs) owned ([], s) in (join_errors errs, s'))"

definition lease_map :: "pending_lease list \<Rightarrow> (string \<rightharpoonup> pending_lease)" where
  "lease_map ls = fold (\<lambda>l m. m(pl_pod_name l \<mapsto> l)) ls Map.empty"

text \<open>The loop over the governed Pods.\<close>

record 's pdb_loop =
  lo_errs :: "api_error list"
  lo_requeue :: duration
  lo_state :: 's
  lo_tracker :: "tracker option"

definition governed_step ::
  "env \<Rightarrow> 's client \<Rightarrow> go_time \<Rightarrow> workload_class \<Rightarrow> (string \<rightharpoonup> pending_lease) \<Rightarrow> pod
    \<Rightarrow> 's pdb_loop \<Rightarrow> 's pdb_loop" where
  "governed_step E C now wc leases p acc =
     (case reconcilePodPDB E C now wc p leases (lo_state acc) of
        (Inl err, s') \<Rightarrow>
          acc\<lparr>lo_errs := lo_errs acc @ [err], lo_state := s',
            lo_tracker := (case leases (pod_name p) of
               Some l \<Rightarrow> if pl_pod_uid l = pod_uid p then reenqueueLeases wc [l] (lo_tracker acc) else lo_tracker acc
             | None \<Rightarrow> lo_tracker acc)\<rparr>
      | (Inr remaining, s') \<Rightarrow>
          acc\<lparr>lo_requeue := minPositiveDuration (lo_requeue acc) remaining, lo_state := s'\<rparr>)"

text \<open>Whether an owned PDB that is not of a governed Pod is left for another WorkloadClass.\<close>

definition adopted_elsewhere ::
  "env \<Rightarrow> workload_class \<Rightarrow> workload_class option \<Rightarrow> workload_class list \<Rightarrow> pdb list \<Rightarrow> bool \<Rightarrow> pod option \<Rightarrow> bool" where
  "adopted_elsewhere E wc enforced wcs user_pdbs has_guardrails p =
     (IsPodActive p \<and> \<not> IsPodCoveredByUserPDB E p user_pdbs \<and>
      (case BestMatchWorkloadClassForPod E p enforced wcs of
         None \<Rightarrow> False
       | Some b \<Rightarrow> wc_name b \<noteq> wc_name wc \<and> passedValidation E b has_guardrails))"

definition owned_step ::
  "env \<Rightarrow> 's client \<Rightarrow> workload_class \<Rightarrow> workload_class option \<Rightarrow> workload_class list \<Rightarrow> pdb list \<Rightarrow> bool
    \<Rightarrow> string set \<Rightarrow> pdb \<Rightarrow> 's pdb_loop \<Rightarrow> 's pdb_loop" where
  "owned_step E C wc enforced wcs user_pdbs has_guardrails governed_names b acc =
     (if pdb_name b \<in> governed_names then acc
      else case getPodForPDB E C (lo_state acc) (wc_namespace wc) b of
          Inl err \<Rightarrow> acc\<lparr>lo_errs := lo_errs acc @ [err]\<rparr>
        | Inr p \<Rightarrow>
            if adopted_elsewhere E wc enforced wcs user_pdbs has_guardrails p then acc
            else let (err, s') = deletePDB E C wc b (lo_state acc)
                 in acc\<lparr>lo_errs := lo_errs acc @ opt_list err, lo_state := s'\<rparr>)"

definition owned_pdbs :: "env \<Rightarrow> workload_class \<Rightarrow> pdb list \<Rightarrow> pdb list" where
  "owned_pdbs E wc pdbs = filter (\<lambda>b. is_controlled_by E (pdb_owners b) (wc_uid wc)) pdbs"

definition user_pdbs_of :: "env \<Rightarrow> workload_class \<Rightarrow> pdb list \<Rightarrow> pdb list" where
  "user_pdbs_of E wc pdbs =
     filter (\<lambda>b. \<not> is_controlled_by E (pdb_owners b) (wc_uid wc) \<and> \<not> IsWorkloadClassManagedPDB E (Some b)) pdbs"

text \<open>The part of \<open>reconcilePDBs\<close> that only reads: who governs what.\<close>

definition governance ::
  "env \<Rightarrow> 's client \<Rightarrow> 's \<Rightarrow> workload_class \<Rightarrow> pdb list
    \<Rightarrow> api_error + (workload_class option \<times> workload_class list \<times> pod list)" where
  "governance E C s wc user_pdbs =
     (case NamespaceEnforcedWorkloadClass C s (wc_namespace wc) of
        Inl err \<Rightarrow> Inl err
      | Inr enforced \<Rightarrow>
          (case list_wcs C s (wc_namespace wc) of
             Inl err \<Rightarrow> Inl (wrap_error ''failed to list WorkloadClasses: '' err)
           | Inr wcs \<Rightarrow>
               (case governedPods E C s wc enforced wcs user_pdbs of
                  Inl err \<Rightarrow> Inl err | Inr governed \<Rightarrow> Inr (enforced, wcs, governed))))"

text \<open>The result: the error or the requeue delay, the cluster and the tracker.\<close>

definition reconcilePDBs ::
  "env \<Rightarrow> 's client \<Rightarrow> go_time \<Rightarrow> workload_class \<Rightarrow> condition \<Rightarrow> bool \<Rightarrow> pending_lease list \<Rightarrow> 's \<Rightarrow> tracker option
    \<Rightarrow> requeue_result \<times> 's \<times> tracker option" where
  "reconcilePDBs E C now wc cond has_guardrails pending s tr =
     (if \<not> time_unset (wc_deletion wc) then (Inr 0, s, tr)
      else case list_pdbs C s (wc_namespace wc) of
        Inl err \<Rightarrow> (Inl (wrap_error ''failed to list PodDisruptionBudgets: '' err), s, reenqueueLeases wc pending tr)
      | Inr pdbs \<Rightarrow>
          let owned = owned_pdbs E wc pdbs; user_pdbs = user_pdbs_of E wc pdbs
          in if \<not> protectsPods (c_reason cond) has_guardrails then
               (let (err, s') = openOwnedPDBs E C wc owned user_pdbs s
                in (case err of Some e \<Rightarrow> Inl e | None \<Rightarrow> Inr 0, s', tr))
             else case governance E C s wc user_pdbs of
                 Inl err \<Rightarrow> (Inl err, s, reenqueueLeases wc pending tr)
               | Inr (enforced, wcs, governed) \<Rightarrow>
                   let start = \<lparr>lo_errs = [], lo_requeue = 0, lo_state = s, lo_tracker = tr\<rparr>;
                       l1 = fold (governed_step E C now wc (lease_map pending)) governed start;
                       names = set (map (\<lambda>p. PDBName E (pod_name p)) governed);
                       l2 = fold (owned_step E C wc enforced wcs user_pdbs has_guardrails names) owned l1
                   in (case join_errors (lo_errs l2) of Some e \<Rightarrow> Inl e | None \<Rightarrow> Inr (lo_requeue l2),
                       lo_state l2, lo_tracker l2))"

subsection \<open>The controller respects leases\<close>

lemma activeLeaseRemaining_holder:
  "0 < activeLeaseRemaining E now (Some b) p \<longleftrightarrow> lease_holder E now b p \<noteq> None"
  by (auto simp: activeLeaseRemaining_def lease_holder_def)

lemma activeLeaseRemaining_held:
  "lease_holder E now b p = Some x \<Longrightarrow> activeLeaseRemaining E now (Some b) p = LeaseTimeRemaining E now (Some b)"
  by (auto simp: activeLeaseRemaining_def lease_holder_def split: if_splits)

text \<open>The pending lease of a Pod instance.\<close>

definition wanted_lease :: "(string \<rightharpoonup> pending_lease) \<Rightarrow> pod \<Rightarrow> subject option" where
  "wanted_lease leases p =
     (case leases (pod_name p) of None \<Rightarrow> None
      | Some l \<Rightarrow> if pl_pod_uid l = pod_uid p then Some (pl_subject l) else None)"

lemma choose_action_cases:
  "choose_action E now p existing leases =
    (case existing of
       None \<Rightarrow> (case wanted_lease leases p of Some sub \<Rightarrow> GrantLease sub | None \<Rightarrow> Resync)
     | Some b \<Rightarrow>
         (case lease_holder E now b p of
            Some x \<Rightarrow> KeepLease (LeaseTimeRemaining E now (Some b))
          | None \<Rightarrow>
              (case wanted_lease leases p of
                 Some sub \<Rightarrow> if IsWorkloadClassManagedPDB E (Some b) then GrantLease sub else Resync
               | None \<Rightarrow> Resync)))"
proof (cases existing)
  case None
  then show ?thesis
    by (simp add: choose_action_def wanted_lease_def activeLeaseRemaining_def split: option.split)
next
  case (Some b)
  show ?thesis
  proof (cases "lease_holder E now b p")
    case None
    then show ?thesis
      using activeLeaseRemaining_holder [of E now b p] Some
      by (simp add: choose_action_def wanted_lease_def SubjectAlreadyLeasing_holder AllowLease_holder split: option.split)
  next
    case (Some x)
    then have "0 < activeLeaseRemaining E now existing p" "activeLeaseRemaining E now existing p = LeaseTimeRemaining E now existing"
      using activeLeaseRemaining_holder [of E now b p] activeLeaseRemaining_held [of E now b p x] \<open>existing = Some b\<close> by auto
    then show ?thesis
      using Some \<open>existing = Some b\<close>
      by (simp add: choose_action_def Let_def wanted_lease_def SubjectAlreadyLeasing_holder AllowLease_holder split: option.split)
  qed
qed

text \<open>What the controller does with a governed Pod is decided by the state of the lease lock: a
  held lease is kept and looked at again when it expires; a free or missing PDB is granted to the
  subject whose request is pending for this Pod instance, and is otherwise synchronised.\<close>

theorem choose_action_spec:
  "choose_action E now p existing leases =
    (case existing of
       None \<Rightarrow> (case wanted_lease leases p of Some sub \<Rightarrow> GrantLease sub | None \<Rightarrow> Resync)
     | Some b \<Rightarrow>
         (case lease_holder E now b p of
            Some x \<Rightarrow> KeepLease (LeaseTimeRemaining E now (Some b))
          | None \<Rightarrow>
              (case wanted_lease leases p of
                 Some sub \<Rightarrow> if IsWorkloadClassManagedPDB E (Some b) then GrantLease sub else Resync
               | None \<Rightarrow> Resync)))"
  by (rule choose_action_cases)

lemma choose_action_spec_witness:
  "choose_action ref_env 5 sample_pod (Some sample_pdb)
     [''web-0'' \<mapsto> \<lparr>pl_pod_name = ''web-0'', pl_pod_uid = ''p1'', pl_subject = sample_subject\<rparr>] = GrantLease sample_subject"
  using choose_action_spec [of ref_env 5 sample_pod "Some sample_pdb"] sample_pdb_managed
  by (simp add: wanted_lease_def lease_holder_def map_get_def sample_pod_def sample_pdb_def PDBBase_def empty_pdb_def)

lemma ensurePodUIDLabel_done:
  "map_get (pod_labels p) PodUIDLabel = pod_uid p \<Longrightarrow> ensurePodUIDLabel C p s = (Inr p, s)"
  by (simp add: ensurePodUIDLabel_def)

text \<open>While a lease is active, reconciling the Pod touches nothing, whoever reconciles it and
  whatever leases are pending, and asks to be run again exactly when the lease expires.\<close>

theorem reconcilePodPDB_active_lease:
  assumes "map_get (pod_labels p) PodUIDLabel = pod_uid p"
    and "get_pdb C s (pod_namespace p) (PDBName E (pod_name p)) = Inr b"
    and "lease_holder E now b p = Some x"
  shows "reconcilePodPDB E C now wc p leases s = (Inr (LeaseTimeRemaining E now (Some b)), s) \<and>
    0 < LeaseTimeRemaining E now (Some b)"
proof -
  have "choose_action E now p (Some b) leases = KeepLease (LeaseTimeRemaining E now (Some b))"
    by (simp add: choose_action_cases assms(3))
  moreover have "0 < LeaseTimeRemaining E now (Some b)"
    using assms(3) by (auto simp: lease_holder_def split: if_splits)
  ultimately show ?thesis
    by (simp add: reconcilePodPDB_def ensurePodUIDLabel_done assms(1,2))
qed

subsection \<open>Claiming a PDB\<close>

text \<open>Claiming a PDB never takes one from a user: a stored PDB that no WorkloadClass controls is
  refused. A PDB that another WorkloadClass controls is taken over, and after a claim the claiming
  WorkloadClass controls the PDB, of which only the owner references changed.\<close>

theorem claimPDB_spec:
  assumes "owner_laws E"
  shows "(pdb_version b \<noteq> '''' \<longrightarrow> \<not> IsWorkloadClassManagedPDB E (Some b) \<longrightarrow> (\<exists>err. claimPDB E wc b = Inl err)) \<and>
    (\<forall>r. get_controller_of E (pdb_owners b) = Some r \<longrightarrow> or_kind r = ''WorkloadClass'' \<longrightarrow> or_uid r \<noteq> wc_uid wc \<longrightarrow>
       (\<exists>b'. claimPDB E wc b = Inr b')) \<and>
    (\<forall>b'. claimPDB E wc b = Inr b' \<longrightarrow>
       is_controlled_by E (pdb_owners b') (wc_uid wc) \<and> IsWorkloadClassManagedPDB E (Some b') \<and>
       (\<exists>owners. b' = b\<lparr>pdb_owners := owners\<rparr>))"
proof (intro conjI)
  have free: "get_controller_of E (filter (\<lambda>r. or_controller r \<noteq> Some True) rs) = None" for rs
    using assms by (simp add: owner_laws_def find_None_iff)
  show "pdb_version b \<noteq> '''' \<longrightarrow> \<not> IsWorkloadClassManagedPDB E (Some b) \<longrightarrow> (\<exists>err. claimPDB E wc b = Inl err)"
    by (simp add: claimPDB_def)
  show "\<forall>r. get_controller_of E (pdb_owners b) = Some r \<longrightarrow> or_kind r = ''WorkloadClass'' \<longrightarrow> or_uid r \<noteq> wc_uid wc \<longrightarrow>
       (\<exists>b'. claimPDB E wc b = Inr b')"
  proof (intro allI impI)
    fix r
    assume r: "get_controller_of E (pdb_owners b) = Some r" "or_kind r = ''WorkloadClass''" "or_uid r \<noteq> wc_uid wc"
    obtain rs where "set_controller_reference E wc (filter (\<lambda>r. or_controller r \<noteq> Some True) (pdb_owners b)) = Inr rs"
      using assms free unfolding owner_laws_def by blast
    then show "\<exists>b'. claimPDB E wc b = Inr b'"
      using r by (simp add: claimPDB_def IsWorkloadClassManagedPDB_def)
  qed
  show "\<forall>b'. claimPDB E wc b = Inr b' \<longrightarrow>
       is_controlled_by E (pdb_owners b') (wc_uid wc) \<and> IsWorkloadClassManagedPDB E (Some b') \<and>
       (\<exists>owners. b' = b\<lparr>pdb_owners := owners\<rparr>)"
  proof (intro allI impI)
    fix b'
    assume "claimPDB E wc b = Inr b'"
    then obtain rs rs' where rs: "set_controller_reference E wc rs = Inr rs'" "b' = b\<lparr>pdb_owners := rs'\<rparr>"
      by (auto simp: claimPDB_def Let_def split: if_splits sum.splits)
    then obtain r where "get_controller_of E rs' = Some r" "or_uid r = wc_uid wc" "or_kind r = ''WorkloadClass''"
      using assms unfolding owner_laws_def by blast
    moreover from this have "is_controlled_by E rs' (wc_uid wc)"
      using assms by (simp add: owner_laws_def)
    ultimately show "is_controlled_by E (pdb_owners b') (wc_uid wc) \<and> IsWorkloadClassManagedPDB E (Some b') \<and>
       (\<exists>owners. b' = b\<lparr>pdb_owners := owners\<rparr>)"
      using rs(2) by (auto simp: IsWorkloadClassManagedPDB_def)
  qed
qed

lemma claimPDB_spec_witness:
  "(\<exists>b. claimPDB ref_env (sample_wc\<lparr>wc_uid := ''u2''\<rparr>) sample_pdb = Inr b) \<and>
   (\<exists>err. claimPDB ref_env sample_wc (sample_pdb\<lparr>pdb_owners := []\<rparr>) = Inl err)"
  using claimPDB_spec [OF owner_laws_ref_env, of sample_pdb "sample_wc\<lparr>wc_uid := ''u2''\<rparr>"]
    claimPDB_spec [OF owner_laws_ref_env, of "sample_pdb\<lparr>pdb_owners := []\<rparr>" sample_wc]
  by (simp add: sample_pdb_def sample_owner_def ref_controller_def IsWorkloadClassManagedPDB_def)

subsection \<open>Granting a lease through the API server\<close>

text \<open>What is relied on of the API server for PDBs: reads return the object of that key, and
  \<open>CreateOrUpdate\<close> applies the mutation to the object read (or to the base) and stores the result.\<close>

definition keeps_key :: "pdb \<Rightarrow> (pdb \<Rightarrow> api_error + pdb) \<Rightarrow> bool" where
  "keeps_key base f =
     (\<forall>x y. same_pdb base x \<longrightarrow> f x = Inr y \<longrightarrow> same_pdb base y)"

definition pdb_store_laws :: "'s client \<Rightarrow> bool" where
  "pdb_store_laws C =
     ((\<forall>s ns nm b. get_pdb C s ns nm = Inr b \<longrightarrow> pdb_namespace b = ns \<and> pdb_name b = nm) \<and>
      (\<forall>s s' base f. create_or_update_pdb C base f s = (None, s') \<longrightarrow> keeps_key base f \<longrightarrow>
        (\<exists>b0 b1 v u. (case get_pdb C s (pdb_namespace base) (pdb_name base) of
              Inr b \<Rightarrow> b0 = b | Inl e \<Rightarrow> is_not_found e \<and> b0 = base) \<and>
           f b0 = Inr b1 \<and>
           get_pdb C s' (pdb_namespace base) (pdb_name base) = Inr (b1\<lparr>pdb_version := v, pdb_uid := u\<rparr>))))"

lemma same_pdb_refl: "same_pdb b b"
  by (simp add: same_pdb_def)

lemma pdb_store_laws_ref: "pdb_store_laws ref_client"
proof -
  have read: "pdb_namespace b = ns \<and> pdb_name b = nm" if "get_pdb ref_client s ns nm = Inr b" for s ns nm b
    using that by (auto simp: fetch_def dest!: find_SomeD split: option.splits)
  have upsert: "\<exists>b0 b1 v u. (case get_pdb ref_client s (pdb_namespace base) (pdb_name base) of
              Inr b \<Rightarrow> b0 = b | Inl e \<Rightarrow> is_not_found e \<and> b0 = base) \<and> f b0 = Inr b1 \<and>
           get_pdb ref_client s' (pdb_namespace base) (pdb_name base) = Inr (b1\<lparr>pdb_version := v, pdb_uid := u\<rparr>)"
    if up: "create_or_update_pdb ref_client base f s = (None, s')" and keeps: "keeps_key base f" for s s' base f
  proof -
    let ?P = "\<lambda>b. pdb_namespace b = pdb_namespace base \<and> pdb_name b = pdb_name base"
    have P: "?P = same_pdb base" by (auto simp: same_pdb_def)
    have P': "?P = same_pdb b" if "same_pdb base b" for b using that by (auto simp: same_pdb_def)
    show ?thesis
    proof (cases "find ?P (k_pdbs s)")
      case None
      then obtain b1 where b1: "f base = Inr b1" "s' = s\<lparr>k_pdbs := k_pdbs s @ [b1\<lparr>pdb_version := ''1''\<rparr>]\<rparr>"
        using up by (auto simp: ref_upsert_def P split: sum.splits)
      then have "same_pdb base b1"
        using keeps same_pdb_refl unfolding keeps_key_def by blast
      then have "same_pdb base (b1\<lparr>pdb_version := ''1''\<rparr>)" by (simp add: same_pdb_def)
      then have "find ?P (k_pdbs s') = Some (b1\<lparr>pdb_version := ''1''\<rparr>)"
        using None unfolding b1(2) P by (simp add: find_snoc)
      then show ?thesis
        using None b1(1) by (intro exI [of _ base] exI [of _ b1] exI [of _ "''1''"] exI [of _ "pdb_uid b1"]) simp
    next
      case (Some x)
      then obtain b1 where b1: "f x = Inr b1" "s' = s\<lparr>k_pdbs := replace_by same_pdb b1 (k_pdbs s)\<rparr>"
        using up by (auto simp: ref_upsert_def P split: sum.splits)
      have "same_pdb base x" using find_SomeD [OF Some] by (auto simp: same_pdb_def)
      then have "same_pdb base b1" using keeps b1(1) by (auto simp: keeps_key_def)
      then have "find ?P (k_pdbs s') = Some b1"
        using Some find_replace_by [of same_pdb b1 "k_pdbs s" x] same_pdb_refl
        unfolding P' [OF \<open>same_pdb base b1\<close>] b1(2) by simp
      then show ?thesis
        using Some b1(1) by (intro exI [of _ x] exI [of _ b1] exI [of _ "pdb_version b1"] exI [of _ "pdb_uid b1"]) simp
    qed
  qed
  show ?thesis unfolding pdb_store_laws_def using read upsert by blast
qed

lemma claimPDB_Inr:
  "claimPDB E wc b = Inr b' \<Longrightarrow> \<exists>owners. b' = b\<lparr>pdb_owners := owners\<rparr>"
  by (auto simp: claimPDB_def Let_def split: if_splits sum.splits)

lemma claimPDB_managed:
  assumes "owner_laws E" "claimPDB E wc b = Inr b'"
  shows "IsWorkloadClassManagedPDB E (Some b')" "is_controlled_by E (pdb_owners b') (wc_uid wc)"
proof -
  obtain rs rs' where "set_controller_reference E wc rs = Inr rs'" "b' = b\<lparr>pdb_owners := rs'\<rparr>"
    using assms(2) by (auto simp: claimPDB_def Let_def split: if_splits sum.splits)
  moreover from this obtain r where "get_controller_of E rs' = Some r" "or_uid r = wc_uid wc" "or_kind r = ''WorkloadClass''"
    using assms(1) unfolding owner_laws_def by blast
  ultimately show "IsWorkloadClassManagedPDB E (Some b')" "is_controlled_by E (pdb_owners b') (wc_uid wc)"
    using assms(1) by (simp_all add: owner_laws_def IsWorkloadClassManagedPDB_def)
qed

lemma lease_mutate_Inr:
  assumes "lease_mutate E now wc p sub b = Inr b'"
  obtains b1 where "claimPDB E wc b = Inr b1" "PDBWithLease E now (Some b1) (Some p) sub = Inr b'"
  using assms by (auto simp: lease_mutate_def bind_result_Inr_iff)

lemma PDBWithLease_Inr:
  assumes "PDBWithLease E now (Some b) (Some p) sub = Inr b'"
  shows "pdb_owners b' = pdb_owners b" "IsPDBOpen (Some b')"
    "pdb_name b' = (if pdb_name b = '''' then PDBName E (pod_name p) else pdb_name b)"
    "pdb_namespace b' = (if pdb_namespace b = '''' then pod_namespace p else pdb_namespace b)"
  using assms by (auto simp: PDBWithLease_def Let_def scope_pdb_def IsPDBOpen_def pdb_open_def)

lemma PDBBase_key [simp]:
  "pdb_name (PDBBase E (Some p)) = PDBName E (pod_name p)" "pdb_namespace (PDBBase E (Some p)) = pod_namespace p"
  by (simp_all add: PDBBase_def)

lemma lease_mutate_keeps_key: "keeps_key (PDBBase E (Some p)) (lease_mutate E now wc p sub)"
  unfolding keeps_key_def
proof (intro allI impI)
  fix x y
  assume same: "same_pdb (PDBBase E (Some p)) x" and "lease_mutate E now wc p sub x = Inr y"
  then obtain b1 where "claimPDB E wc x = Inr b1" "PDBWithLease E now (Some b1) (Some p) sub = Inr y"
    using lease_mutate_Inr by blast
  then show "same_pdb (PDBBase E (Some p)) y"
    using same claimPDB_Inr [of E wc x b1] PDBWithLease_Inr(3,4) [of E now b1 p sub y] by (auto simp: same_pdb_def)
qed

lemma lease_holder_version [simp]: "lease_holder E t (b\<lparr>pdb_version := v, pdb_uid := u\<rparr>) p = lease_holder E t b p"
  by (simp add: lease_holder_def LeaseTimeRemaining_def)

lemma IsPDBOpen_version [simp]: "IsPDBOpen (Some (b\<lparr>pdb_version := v, pdb_uid := u\<rparr>)) = IsPDBOpen (Some b)"
  by (simp add: IsPDBOpen_def)

lemma IsWorkloadClassManagedPDB_version [simp]:
  "IsWorkloadClassManagedPDB E (Some (b\<lparr>pdb_version := v, pdb_uid := u\<rparr>)) = IsWorkloadClassManagedPDB E (Some b)"
  by (simp add: IsWorkloadClassManagedPDB_def)

text \<open>A PDB a lease can be granted on: absent, or managed and not held.\<close>

definition lease_free :: "env \<Rightarrow> 's client \<Rightarrow> go_time \<Rightarrow> pod \<Rightarrow> 's \<Rightarrow> bool" where
  "lease_free E C now p s =
     (case get_pdb C s (pod_namespace p) (PDBName E (pod_name p)) of
        Inl err \<Rightarrow> is_not_found err
      | Inr b \<Rightarrow> IsWorkloadClassManagedPDB E (Some b) \<and> lease_holder E now b p = None)"

lemma leasePodPDB_stores:
  assumes "pdb_store_laws C" "expiration_law E" "owner_laws E"
    and "leasePodPDB E C now wc p sub s = (None, s')"
    and "0 \<le> now + LeaseDurationForPod (Some p)" "now + LeaseDurationForPod (Some p) < end_of_years"
  shows "\<exists>b. get_pdb C s' (pod_namespace p) (PDBName E (pod_name p)) = Inr b \<and>
    IsWorkloadClassManagedPDB E (Some b) \<and> IsPDBOpen (Some b) \<and>
    (\<forall>t. lease_holder E t b p =
      (if t < lease_expiry now p then Some (BypassOwnerValue sub) else None))"
proof -
  have "create_or_update_pdb C (PDBBase E (Some p)) (lease_mutate E now wc p sub) s = (None, s')"
    using assms(4) by (auto simp: leasePodPDB_def split: prod.splits option.splits)
  then obtain b0 b1 v u where b1: "lease_mutate E now wc p sub b0 = Inr b1"
    "get_pdb C s' (pod_namespace p) (PDBName E (pod_name p)) = Inr (b1\<lparr>pdb_version := v, pdb_uid := u\<rparr>)"
    using assms(1) lease_mutate_keeps_key unfolding pdb_store_laws_def PDBBase_key by (metis PDBBase_key)
  then obtain c where c: "claimPDB E wc b0 = Inr c" "PDBWithLease E now (Some c) (Some p) sub = Inr b1"
    using lease_mutate_Inr by blast
  have "IsWorkloadClassManagedPDB E (Some b1)"
    using claimPDB_managed(1) [OF assms(3) c(1)] PDBWithLease_Inr(1) [OF c(2)] by (simp add: IsWorkloadClassManagedPDB_def)
  then show ?thesis
    using b1(2) PDBWithLease_Inr(2) [OF c(2)] PDBWithLease_holder [OF c(2) assms(2,5,6)] by simp
qed

lemma reconcilePodPDB_granted:
  assumes "pdb_store_laws C" "expiration_law E" "owner_laws E"
    and "map_get (pod_labels p) PodUIDLabel = pod_uid p" "wanted_lease leases p = Some sub" "lease_free E C now p s"
    and "reconcilePodPDB E C now wc p leases s = (Inr d, s')"
    and "0 \<le> now + LeaseDurationForPod (Some p)" "now + LeaseDurationForPod (Some p) < end_of_years"
  shows "d = LeaseDurationForPod (Some p) \<and>
    (\<exists>b. get_pdb C s' (pod_namespace p) (PDBName E (pod_name p)) = Inr b \<and>
       IsWorkloadClassManagedPDB E (Some b) \<and> IsPDBOpen (Some b) \<and>
       (\<forall>t. lease_holder E t b p =
         (if t < lease_expiry now p then Some (BypassOwnerValue sub) else None)))"
proof -
  have "leasePodPDB E C now wc p sub s = (None, s') \<and> d = LeaseDurationForPod (Some p)"
  proof (cases "get_pdb C s (pod_namespace p) (PDBName E (pod_name p))")
    case (Inl err)
    then show ?thesis
      using assms(5,6,7) by (auto simp: lease_free_def reconcilePodPDB_def ensurePodUIDLabel_done assms(4) choose_action_cases
          split: prod.splits option.splits)
  next
    case (Inr b)
    then show ?thesis
      using assms(5,6,7) by (auto simp: lease_free_def reconcilePodPDB_def ensurePodUIDLabel_done assms(4) choose_action_cases
          split: prod.splits option.splits)
  qed
  then show ?thesis
    using leasePodPDB_stores [OF assms(1-3) _ assms(8,9)] by blast
qed

text \<open>A pending lease request is granted: when the Pod instance it names is governed and its PDB is
  absent or free, a successful reconciliation stores a managed, open PDB that the requesting subject
  holds until the grant time plus the Pod's termination grace, and asks to be run
  again after that grace.\<close>

theorem reconcilePodPDB_grants:
  assumes "pdb_store_laws C" "expiration_law E" "owner_laws E"
    and "map_get (pod_labels p) PodUIDLabel = pod_uid p" "wanted_lease leases p = Some sub" "lease_free E C now p s"
    and "reconcilePodPDB E C now wc p leases s = (Inr d, s')"
    and "0 \<le> now + LeaseDurationForPod (Some p)" "now + LeaseDurationForPod (Some p) < end_of_years"
  shows "d = LeaseDurationForPod (Some p) \<and>
    (\<exists>b. get_pdb C s' (pod_namespace p) (PDBName E (pod_name p)) = Inr b \<and>
       IsWorkloadClassManagedPDB E (Some b) \<and> IsPDBOpen (Some b) \<and>
       (\<forall>t. lease_holder E t b p =
         (if t < lease_expiry now p then Some (BypassOwnerValue sub) else None)))"
  by (rule reconcilePodPDB_granted [OF assms])

definition labelled_pod :: pod where
  "labelled_pod = with_uid_label sample_pod"

definition sample_leases :: "string \<rightharpoonup> pending_lease" where
  "sample_leases = [''web-0'' \<mapsto> \<lparr>pl_pod_name = ''web-0'', pl_pod_uid = ''p1'', pl_subject = sample_subject\<rparr>]"

lemma labelled_pod_simps [simp]:
  "pod_name labelled_pod = ''web-0''" "pod_uid labelled_pod = ''p1''" "pod_namespace labelled_pod = ''prod''"
  "map_get (pod_labels labelled_pod) PodUIDLabel = ''p1''" "LeaseDurationForPod (Some labelled_pod) = 30000000000"
  by (simp_all add: labelled_pod_def with_uid_label_def sample_pod_def map_get_def LeaseDurationForPod_def
      DefaultLeaseDuration_def second_def)

lemma sample_leases_wanted: "wanted_lease sample_leases labelled_pod = Some sample_subject"
  by (simp add: wanted_lease_def sample_leases_def)

lemma sample_cluster_pdbs [simp]: "k_pdbs sample_cluster = []"
  by (simp add: sample_cluster_def empty_cluster_def)

lemma sample_grant:
  "\<exists>s'. reconcilePodPDB ref_env ref_client 5 sample_wc labelled_pod sample_leases sample_cluster = (Inr 30000000000, s')"
proof -
  have "claimPDB ref_env sample_wc (PDBBase ref_env (Some labelled_pod)) =
      Inr ((PDBBase ref_env (Some labelled_pod))\<lparr>pdb_owners := [sample_owner]\<rparr>)"
    by (simp add: claimPDB_def PDBBase_def empty_pdb_def ref_controller_def ref_set_controller_def sample_owner_def
        sample_wc_def)
  then have "\<exists>b. lease_mutate ref_env 5 sample_wc labelled_pod sample_subject (PDBBase ref_env (Some labelled_pod)) = Inr b"
    by (simp add: lease_mutate_def PDBWithLease_def Let_def)
  then have "\<exists>s'. leasePodPDB ref_env ref_client 5 sample_wc labelled_pod sample_subject sample_cluster = (None, s')"
    by (auto simp: leasePodPDB_def ref_upsert_def)
  then show ?thesis
    by (auto simp: reconcilePodPDB_def ensurePodUIDLabel_done choose_action_cases sample_leases_wanted)
qed

lemma reconcilePodPDB_grants_witness:
  "\<exists>b s'. reconcilePodPDB ref_env ref_client 5 sample_wc labelled_pod sample_leases sample_cluster = (Inr 30000000000, s') \<and>
     get_pdb ref_client s' ''prod'' (PDBName ref_env ''web-0'') = Inr b \<and>
     lease_holder ref_env 6 b labelled_pod = Some (BypassOwnerValue sample_subject)"
proof -
  obtain s' where s': "reconcilePodPDB ref_env ref_client 5 sample_wc labelled_pod sample_leases sample_cluster = (Inr 30000000000, s')"
    using sample_grant by blast
  have free: "lease_free ref_env ref_client 5 labelled_pod sample_cluster"
    by (simp add: lease_free_def)
  have expiry: "lease_expiry 5 labelled_pod = 30000000005"
    by (simp add: lease_expiry_def second_def)
  from reconcilePodPDB_grants [OF pdb_store_laws_ref expiration_law_ref_env owner_laws_ref_env _ sample_leases_wanted free s']
  have "\<exists>b. get_pdb ref_client s' (pod_namespace labelled_pod) (PDBName ref_env (pod_name labelled_pod)) = Inr b \<and>
      IsWorkloadClassManagedPDB ref_env (Some b) \<and> IsPDBOpen (Some b) \<and>
      (\<forall>t. lease_holder ref_env t b labelled_pod =
        (if t < lease_expiry 5 labelled_pod then Some (BypassOwnerValue sample_subject) else None))"
    by (simp add: end_of_years_def second_def)
  then obtain b where "get_pdb ref_client s' ''prod'' (PDBName ref_env ''web-0'') = Inr b"
    "lease_holder ref_env 6 b labelled_pod = Some (BypassOwnerValue sample_subject)"
    unfolding expiry labelled_pod_simps by auto
  then show ?thesis using s' by auto
qed

lemma reconcilePodPDB_active_lease_witness:
  "reconcilePodPDB ref_env ref_client 5 sample_wc labelled_pod sample_leases
     (sample_cluster\<lparr>k_pdbs := [sample_pdb\<lparr>pdb_annotations := [BypassOwner \<mapsto> ''user:ops'', BypassExpiration \<mapsto> ''9'']\<rparr>]\<rparr>) =
   (Inr 8999999995, sample_cluster\<lparr>k_pdbs := [sample_pdb\<lparr>pdb_annotations := [BypassOwner \<mapsto> ''user:ops'', BypassExpiration \<mapsto> ''9'']\<rparr>]\<rparr>)"
proof -
  let ?b = "sample_pdb\<lparr>pdb_annotations := [BypassOwner \<mapsto> ''user:ops'', BypassExpiration \<mapsto> ''9'']\<rparr>"
  let ?s = "sample_cluster\<lparr>k_pdbs := [?b]\<rparr>"
  have atoi: "atoi ''9'' = Some 9"
    by (simp add: atoi_def digits_val_def digit_val_def is_digit_def min_i64_def max_i64_def)
  have remaining: "LeaseTimeRemaining ref_env 5 (Some ?b) = 8999999995"
    by (simp add: LeaseTimeRemaining_def atoi second_def time_sub_id)
  have "lease_holder ref_env 5 ?b labelled_pod = Some ''user:ops''"
    by (simp add: lease_holder_def remaining) (simp add: map_get_def sample_pdb_def PDBBase_def empty_pdb_def sample_pod_def)
  moreover have "get_pdb ref_client ?s (pod_namespace labelled_pod) (PDBName ref_env (pod_name labelled_pod)) = Inr ?b"
    by (simp add: sample_pdb_def PDBBase_def empty_pdb_def sample_pod_def)
  ultimately show ?thesis
    using reconcilePodPDB_active_lease [of labelled_pod ref_client ?s ref_env ?b 5 "''user:ops''" sample_wc sample_leases]
    by (simp add: remaining)
qed

subsection \<open>No lease request is lost\<close>

lemma Enqueue_lease_pod:
  "Enqueue (Some wc) (Some (lease_pod wc l)) (pl_subject l) (Some t) =
     (int (length (tr_events t)) < tr_capacity t, Some (put_lease (wc_key wc) l t))"
  by (simp add: Enqueue_put lease_for_def lease_pod_def wc_key_def)

lemma reenqueue_put: "reenqueueLeases wc ls (Some t) = Some (fold (put_lease (wc_key wc)) ls t)"
  by (induction ls arbitrary: t) (simp_all add: reenqueueLeases_def Enqueue_lease_pod)

lemma reenqueue_Drain:
  assumes "tracker_ok t" "Drain (wc_key wc) (Some t) = (ls, tr)"
  shows "\<exists>t'. reenqueueLeases wc ls tr = Some t' \<and> lease_of t' = lease_of t"
  using assms leases.put_back [OF assms(1), of "wc_key wc"] by (auto simp: Drain_take reenqueue_put)

lemma lease_map_mem:
  "distinct (map pl_pod_name ls) \<Longrightarrow> l \<in> set ls \<Longrightarrow> lease_map ls (pl_pod_name l) = Some l"
proof (induction ls rule: rev_induct)
  case (snoc x xs)
  then show ?case by (auto simp: lease_map_def) (metis imageI)
qed simp

lemma lease_map_set: "lease_map ls n = Some l \<Longrightarrow> l \<in> set ls \<and> pl_pod_name l = n"
  by (induction ls rule: rev_induct) (auto simp: lease_map_def split: if_splits)

text \<open>The loop over the governed Pods keeps every lease of a Pod instance it fails on.\<close>

definition kept :: "workload_class \<Rightarrow> (string \<rightharpoonup> pending_lease) \<Rightarrow> tracker \<Rightarrow> bool" where
  "kept wc leases t =
     (tracker_ok t \<and> (\<forall>n x. lease_of t (wc_key wc) n = Some x \<longrightarrow> leases n = Some x))"

text \<open>The loop reached the Pod and reconciled it without error.\<close>

definition pod_reconciled ::
  "env \<Rightarrow> 's client \<Rightarrow> go_time \<Rightarrow> workload_class \<Rightarrow> (string \<rightharpoonup> pending_lease) \<Rightarrow> 's pdb_loop \<Rightarrow> pod list \<Rightarrow> pod \<Rightarrow> bool" where
  "pod_reconciled E C now wc leases acc ps p =
     (\<exists>ps1 ps2 d s'. ps = ps1 @ p # ps2 \<and>
        reconcilePodPDB E C now wc p leases (lo_state (fold (governed_step E C now wc leases) ps1 acc)) = (Inr d, s'))"

lemma pod_reconciled_Cons:
  "pod_reconciled E C now wc leases (governed_step E C now wc leases q acc) ps p \<Longrightarrow>
   pod_reconciled E C now wc leases acc (q # ps) p"
  unfolding pod_reconciled_def by (metis append_Cons comp_apply fold_simps(2))

lemma pod_reconciled_head:
  "reconcilePodPDB E C now wc p leases (lo_state acc) = (Inr d, s') \<Longrightarrow> pod_reconciled E C now wc leases acc (p # ps) p"
  unfolding pod_reconciled_def by (metis append_Nil fold_simps(1))

lemma governed_step_tracker:
  assumes "lo_tracker acc = Some t" "kept wc leases t" "\<And>n l. leases n = Some l \<Longrightarrow> pl_pod_name l = n"
  shows "\<exists>t'. lo_tracker (governed_step E C now wc leases p acc) = Some t' \<and> kept wc leases t' \<and>
    (\<forall>n x. lease_of t (wc_key wc) n = Some x \<longrightarrow> lease_of t' (wc_key wc) n = Some x) \<and>
    (\<forall>l e s'. reconcilePodPDB E C now wc p leases (lo_state acc) = (Inl e, s') \<longrightarrow> leases (pod_name p) = Some l \<longrightarrow>
       pl_pod_uid l = pod_uid p \<longrightarrow> lease_of t' (wc_key wc) (pod_name p) = Some l)"
proof (cases "reconcilePodPDB E C now wc p leases (lo_state acc)")
  case (Pair r s')
  show ?thesis
  proof (cases r)
    case (Inr d)
    then show ?thesis using assms Pair by (simp add: governed_step_def)
  next
    case (Inl e)
    show ?thesis
    proof (cases "leases (pod_name p)")
      case None
      then show ?thesis using assms Pair Inl by (simp add: governed_step_def)
    next
      case (Some l)
      have name: "pl_pod_name l = pod_name p" using assms(3) Some .
      have "lease_of (put_lease (wc_key wc) l t) (wc_key wc) n =
          (if n = pod_name p then Some l else lease_of t (wc_key wc) n)" for n
        using assms(2) Some name unfolding kept_def lease_of_put by auto
      moreover have "tracker_ok (put_lease (wc_key wc) l t)"
        using assms(2) by (simp add: kept_def tracker_ok_put)
      ultimately show ?thesis
        using assms Pair Inl Some by (auto simp: governed_step_def reenqueue_put kept_def)
    qed
  qed
qed

lemma governed_fold_tracker:
  assumes "lo_tracker acc = Some t" "kept wc leases t" "\<And>n l. leases n = Some l \<Longrightarrow> pl_pod_name l = n"
  shows "\<exists>t'. lo_tracker (fold (governed_step E C now wc leases) ps acc) = Some t' \<and> kept wc leases t' \<and>
    (\<forall>n x. lease_of t (wc_key wc) n = Some x \<longrightarrow> lease_of t' (wc_key wc) n = Some x) \<and>
    (\<forall>p l. p \<in> set ps \<longrightarrow> leases (pod_name p) = Some l \<longrightarrow> pl_pod_uid l = pod_uid p \<longrightarrow>
       lease_of t' (wc_key wc) (pod_name p) = Some l \<or> pod_reconciled E C now wc leases acc ps p)"
  using assms(1,2)
proof (induction ps arbitrary: acc t)
  case Nil
  then show ?case by simp
next
  case (Cons p ps)
  from governed_step_tracker [OF Cons.prems assms(3)]
  obtain t1 where t1: "lo_tracker (governed_step E C now wc leases p acc) = Some t1" "kept wc leases t1"
    "\<forall>n x. lease_of t (wc_key wc) n = Some x \<longrightarrow> lease_of t1 (wc_key wc) n = Some x"
    "\<forall>l e s'. reconcilePodPDB E C now wc p leases (lo_state acc) = (Inl e, s') \<longrightarrow> leases (pod_name p) = Some l \<longrightarrow>
       pl_pod_uid l = pod_uid p \<longrightarrow> lease_of t1 (wc_key wc) (pod_name p) = Some l"
    by blast
  from Cons.IH [OF t1(1,2)] obtain t2 where t2:
    "lo_tracker (fold (governed_step E C now wc leases) ps (governed_step E C now wc leases p acc)) = Some t2"
    "kept wc leases t2" "\<forall>n x. lease_of t1 (wc_key wc) n = Some x \<longrightarrow> lease_of t2 (wc_key wc) n = Some x"
    "\<forall>q l. q \<in> set ps \<longrightarrow> leases (pod_name q) = Some l \<longrightarrow> pl_pod_uid l = pod_uid q \<longrightarrow>
       lease_of t2 (wc_key wc) (pod_name q) = Some l \<or>
       pod_reconciled E C now wc leases (governed_step E C now wc leases p acc) ps q"
    by blast
  have head: "lease_of t2 (wc_key wc) (pod_name p) = Some l \<or> pod_reconciled E C now wc leases acc (p # ps) p"
    if "leases (pod_name p) = Some l" "pl_pod_uid l = pod_uid p" for l
  proof (cases "reconcilePodPDB E C now wc p leases (lo_state acc)")
    case (Pair r s')
    show ?thesis
    proof (cases r)
      case (Inl e)
      then have "lease_of t1 (wc_key wc) (pod_name p) = Some l" using t1(4) that Pair by simp
      then show ?thesis using t2(3) by simp
    next
      case (Inr d)
      then show ?thesis using pod_reconciled_head [OF Pair [unfolded Inr]] by blast
    qed
  qed
  have "lease_of t2 (wc_key wc) (pod_name q) = Some l \<or> pod_reconciled E C now wc leases acc (p # ps) q"
    if "q \<in> set (p # ps)" "leases (pod_name q) = Some l" "pl_pod_uid l = pod_uid q" for q l
  proof (cases "q \<in> set ps")
    case True
    then have "lease_of t2 (wc_key wc) (pod_name q) = Some l \<or>
        pod_reconciled E C now wc leases (governed_step E C now wc leases p acc) ps q"
      using that t2(4) by blast
    then show ?thesis using pod_reconciled_Cons by blast
  next
    case False
    then have "q = p" using that(1) by simp
    then show ?thesis using head that(2,3) by simp
  qed
  then show ?case
    using t1(3) t2(1-3) by (intro exI [of _ t2]) simp
qed

lemma owned_fold_tracker [simp]:
  "lo_tracker (fold (owned_step E C wc enforced wcs user_pdbs g names) bs acc) = lo_tracker acc"
  by (induction bs arbitrary: acc) (simp_all add: owned_step_def split: sum.splits prod.splits)

definition loop_start :: "'s \<Rightarrow> tracker option \<Rightarrow> 's pdb_loop" where
  "loop_start s tr = \<lparr>lo_errs = [], lo_requeue = 0, lo_state = s, lo_tracker = tr\<rparr>"

lemma reconcilePDBs_tracker:
  assumes "reconcilePDBs E C now wc cond g pending s tr = (r, s', tr')"
    and "time_unset (wc_deletion wc)" "protectsPods (c_reason cond) g"
  shows "tr' = reenqueueLeases wc pending tr \<or>
    (\<exists>pdbs enforced wcs governed. list_pdbs C s (wc_namespace wc) = Inr pdbs \<and>
       governance E C s wc (user_pdbs_of E wc pdbs) = Inr (enforced, wcs, governed) \<and>
       tr' = lo_tracker (fold (governed_step E C now wc (lease_map pending)) governed (loop_start s tr)))"
  using assms unfolding reconcilePDBs_def loop_start_def
  by (auto simp: Let_def split: sum.splits prod.splits)

text \<open>Why a drained request need not be kept.\<close>

definition lease_done ::
  "env \<Rightarrow> 's client \<Rightarrow> go_time \<Rightarrow> workload_class \<Rightarrow> condition \<Rightarrow> bool \<Rightarrow> pending_lease list \<Rightarrow> 's \<Rightarrow> tracker option
    \<Rightarrow> pending_lease \<Rightarrow> bool" where
  "lease_done E C now wc cond g pending s tr l =
    (\<not> time_unset (wc_deletion wc) \<or> \<not> protectsPods (c_reason cond) g \<or>
     (\<exists>pdbs enforced wcs governed. list_pdbs C s (wc_namespace wc) = Inr pdbs \<and>
        governance E C s wc (user_pdbs_of E wc pdbs) = Inr (enforced, wcs, governed) \<and>
        (\<forall>p \<in> set governed. pod_name p = pl_pod_name l \<longrightarrow> pod_uid p = pl_pod_uid l \<longrightarrow>
           pod_reconciled E C now wc (lease_map pending) (loop_start s tr) governed p)))"

lemma reconcilePDBs_kept:
  assumes "tracker_ok t" "Drain (wc_key wc) (Some t) = (pending, tr)"
    and "reconcilePDBs E C now wc cond g pending s tr = (r, s', tr')" "l \<in> set pending"
  shows "(\<exists>t'. tr' = Some t' \<and> lease_of t' (wc_key wc) (pl_pod_name l) = Some l) \<or>
    lease_done E C now wc cond g pending s tr l"
proof -
  let ?k = "wc_key wc"
  have pending: "pending = fst (take_leases ?k t)" "tr = Some (snd (take_leases ?k t))"
    using assms(2) by (simp_all add: Drain_take)
  have "lease_of t ?k (pl_pod_name l) = Some l"
    using assms(1,4) leases.take_set pending(1) by blast
  moreover have "\<exists>t'. reenqueueLeases wc pending tr = Some t' \<and> lease_of t' = lease_of t"
    using reenqueue_Drain [OF assms(1,2)] .
  moreover have "(\<exists>t'. lo_tracker (fold (governed_step E C now wc (lease_map pending)) governed (loop_start s tr)) = Some t' \<and>
       lease_of t' ?k (pl_pod_name l) = Some l) \<or>
     pod_reconciled E C now wc (lease_map pending) (loop_start s tr) governed p"
    if p: "p \<in> set governed" "pod_name p = pl_pod_name l" "pod_uid p = pl_pod_uid l" for governed p
  proof -
    have "kept wc (lease_map pending) (snd (take_leases ?k t))"
      using assms(1) by (simp add: kept_def leases.take_ok leases.look_take)
    moreover have "lo_tracker (loop_start s tr) = Some (snd (take_leases ?k t))"
      by (simp add: loop_start_def pending(2))
    moreover have "lease_map pending (pod_name p) = Some l"
      using leases.take_sorted [OF assms(1), of ?k] assms(4) p(2) pending(1)
      by (simp add: lease_map_mem strict_sorted_iff)
    ultimately show ?thesis
      using governed_fold_tracker [of "loop_start s tr" _ wc "lease_map pending" E C now governed] lease_map_set p by metis
  qed
  ultimately show ?thesis
    using reconcilePDBs_tracker [OF assms(3)] unfolding lease_done_def by metis
qed

text \<open>C8: No lease request is lost. After the requests of a WorkloadClass were drained and its PDBs
  reconciled, each drained request is pending again, unless the WorkloadClass is being deleted or
  does not protect its Pods, or the request's Pod instance is not governed or was reconciled without
  error.\<close>

theorem reconcilePDBs_keeps_leases:
  assumes "tracker_ok t" "Drain (wc_key wc) (Some t) = (pending, tr)"
    and "reconcilePDBs E C now wc cond g pending s tr = (r, s', tr')" "l \<in> set pending"
  shows "(\<exists>t'. tr' = Some t' \<and> lease_of t' (wc_key wc) (pl_pod_name l) = Some l) \<or>
    lease_done E C now wc cond g pending s tr l"
  by (rule reconcilePDBs_kept [OF assms])

definition failing_client :: "cluster client" where
  "failing_client = ref_client\<lparr>list_pdbs := \<lambda>s ns. Inl (OtherError ''timeout'')\<rparr>"

definition passed_condition :: condition where
  "passed_condition = \<lparr>c_type = ConditionTypeValidated, c_status = ConditionTrue, c_reason = ReasonValidationPassed,
     c_message = '''', c_observed = 1, c_transition = 0\<rparr>"

lemma reconcilePDBs_keeps_leases_witness:
  "let l = lease_for sample_pod sample_subject;
       (pending, tr) = Drain (wc_key sample_wc) (snd (Enqueue (Some sample_wc) (Some sample_pod) sample_subject (Some (NewPendingLeaseTracker 8))));
       (r, s, tr') = reconcilePDBs ref_env failing_client 5 sample_wc passed_condition True pending sample_cluster tr
   in \<exists>t'. tr' = Some t' \<and> lease_of t' (wc_key sample_wc) ''web-0'' = Some l"
proof -
  let ?l = "lease_for sample_pod sample_subject" and ?k = "wc_key sample_wc"
  let ?t = "put_lease ?k ?l (NewPendingLeaseTracker 8)"
  obtain pending tr where drain: "Drain ?k (Some ?t) = (pending, tr)" by (cases "Drain ?k (Some ?t)")
  obtain r s tr' where rec: "reconcilePDBs ref_env failing_client 5 sample_wc passed_condition True pending sample_cluster tr = (r, s, tr')"
    by (metis prod_cases3)
  have ok: "tracker_ok ?t" by (simp add: tracker_ok_put)
  have name: "pl_pod_name ?l = ''web-0''" by (simp add: sample_pod_def)
  have "lease_of ?t ?k (pl_pod_name ?l) = Some ?l" by (simp add: lease_of_put)
  then have "?l \<in> set (fst (take_leases ?k ?t))" by (rule iffD2 [OF leases.take_set [OF ok]])
  then have "?l \<in> set pending" using drain by (simp add: Drain_take)
  from reconcilePDBs_keeps_leases [OF ok drain rec this]
  have "\<exists>t'. tr' = Some t' \<and> lease_of t' ?k ''web-0'' = Some ?l"
    unfolding name lease_done_def by (simp add: failing_client_def passed_condition_def protectsPods_def sample_wc_def)
  moreover have "snd (Enqueue (Some sample_wc) (Some sample_pod) sample_subject (Some (NewPendingLeaseTracker 8))) = Some ?t"
    by (simp add: Enqueue_put wc_key_def)
  ultimately show ?thesis
    using drain rec by simp
qed

subsection \<open>Deleting PDBs\<close>

text \<open>What is relied on of a delete: the objects under other keys are not touched.\<close>

definition delete_law :: "'s client \<Rightarrow> bool" where
  "delete_law C =
     ((\<forall>s ns nm b. get_pdb C s ns nm = Inr b \<longrightarrow> pdb_namespace b = ns \<and> pdb_name b = nm) \<and>
      (\<forall>b s ns nm. (ns, nm) \<noteq> (pdb_namespace b, pdb_name b) \<longrightarrow>
         get_pdb C (snd (delete_pdb C b s)) ns nm = get_pdb C s ns nm))"

lemma find_filter_same:
  "(\<And>x. P x \<Longrightarrow> Q x) \<Longrightarrow> find P (filter Q xs) = find P xs"
  by (induction xs) auto

lemma delete_law_ref: "delete_law ref_client"
proof -
  have "find (\<lambda>x. pdb_namespace x = ns \<and> pdb_name x = nm) (filter (\<lambda>x. \<not> same_pdb b x) xs) =
      find (\<lambda>x. pdb_namespace x = ns \<and> pdb_name x = nm) xs"
    if "(ns, nm) \<noteq> (pdb_namespace b, pdb_name b)" for ns nm b xs
    by (rule find_filter_same) (use that in \<open>auto simp: same_pdb_def\<close>)
  then have "get_pdb ref_client (snd (delete_pdb ref_client b s)) ns nm = get_pdb ref_client s ns nm"
    if "(ns, nm) \<noteq> (pdb_namespace b, pdb_name b)" for ns nm b s
    using that by simp
  moreover have "\<forall>s ns nm b. get_pdb ref_client s ns nm = Inr b \<longrightarrow> pdb_namespace b = ns \<and> pdb_name b = nm"
    using pdb_store_laws_ref unfolding pdb_store_laws_def by (rule conjunct1)
  ultimately show ?thesis unfolding delete_law_def by blast
qed

lemma deletePDB_keeps:
  assumes "delete_law C" "get_pdb C s ns nm = Inr x" "\<not> is_controlled_by E (pdb_owners x) (wc_uid wc)"
  shows "get_pdb C (snd (deletePDB E C wc b s)) ns nm = Inr x"
proof (cases "get_pdb C s (pdb_namespace b) (pdb_name b)")
  case (Inl err)
  then show ?thesis using assms(2) by (simp add: deletePDB_def)
next
  case (Inr current)
  then have key: "pdb_namespace current = pdb_namespace b" "pdb_name current = pdb_name b"
    using assms(1) unfolding delete_law_def by blast+
  have state: "snd (deletePDB E C wc b s) =
      (if is_controlled_by E (pdb_owners current) (wc_uid wc) then snd (delete_pdb C current s) else s)"
    using Inr by (simp add: deletePDB_def split: prod.split option.split)
  show ?thesis
  proof (cases "is_controlled_by E (pdb_owners current) (wc_uid wc)")
    case True
    then have "(ns, nm) \<noteq> (pdb_namespace current, pdb_name current)"
      using assms(2,3) Inr key by auto
    then show ?thesis using assms(1,2) True unfolding state delete_law_def by simp
  next
    case False
    then show ?thesis using assms(2) state by simp
  qed
qed

lemma owned_step_keeps:
  assumes "delete_law C" "get_pdb C (lo_state acc) ns nm = Inr x" "\<not> is_controlled_by E (pdb_owners x) (wc_uid wc)"
  shows "get_pdb C (lo_state (owned_step E C wc enforced wcs user_pdbs g names b acc)) ns nm = Inr x"
  using assms deletePDB_keeps [OF assms, of b] by (auto simp: owned_step_def split: sum.splits prod.splits)

text \<open>C28: The clean-up of a WorkloadClass's PDBs never deletes a PDB it does not control: whatever list
  of PDBs it works from, even a stale one, a stored PDB whose controller is a user or another
  WorkloadClass is still there, unchanged, afterwards.\<close>

theorem owned_cleanup_safe:
  assumes "delete_law C" "get_pdb C (lo_state acc) ns nm = Inr x" "\<not> is_controlled_by E (pdb_owners x) (wc_uid wc)"
  shows "get_pdb C (lo_state (fold (owned_step E C wc enforced wcs user_pdbs g names) stale acc)) ns nm = Inr x"
  using assms(2)
proof (induction stale arbitrary: acc)
  case (Cons b bs)
  then show ?case using owned_step_keeps [OF assms(1) _ assms(3)] by simp
qed simp

lemma owned_cleanup_safe_witness:
  "get_pdb ref_client (lo_state (fold (owned_step ref_env ref_client (sample_wc\<lparr>wc_uid := ''u2''\<rparr>) None [] [] True {})
      [sample_pdb] (loop_start (sample_cluster\<lparr>k_pdbs := [sample_pdb]\<rparr>) None))) ''prod'' ''workload-web-0'' = Inr sample_pdb"
proof (rule owned_cleanup_safe [OF delete_law_ref])
  show "get_pdb ref_client (lo_state (loop_start (sample_cluster\<lparr>k_pdbs := [sample_pdb]\<rparr>) None)) ''prod'' ''workload-web-0'' = Inr sample_pdb"
    by (simp add: loop_start_def sample_pdb_def PDBBase_def empty_pdb_def sample_pod_def PDBName_def)
  show "\<not> is_controlled_by ref_env (pdb_owners sample_pdb) (wc_uid (sample_wc\<lparr>wc_uid := ''u2''\<rparr>))"
    by (simp add: sample_pdb_def ref_controller_def sample_owner_def)
qed

subsection \<open>A shortened name that is not recognised\<close>

text \<open>\<open>PDBName\<close> trims hyphens and dots before the hash, so a shortened name can be shorter than
  253 bytes; \<open>getPodForPDB\<close> looks a shortened name up by hash only at exactly that length. The PDB
  of such a Pod is taken for one whose Pod is gone.\<close>

definition trimmed_name :: string where
  "trimmed_name = replicate 234 (CHR ''a'') @ ''-'' @ replicate 15 (CHR ''b'')"

definition trimmed_pod :: pod where
  "trimmed_pod = sample_pod\<lparr>pod_name := trimmed_name\<rparr>"

definition trimmed_pdb :: pdb where
  "trimmed_pdb = sample_pdb\<lparr>pdb_namespace := ''prod'', pdb_name := PDBName ref_env trimmed_name\<rparr>"

lemma getPodForPDB_misses_trimmed:
  "pdb_name trimmed_pdb = PDBName ref_env (pod_name trimmed_pod) \<and>
   (case getPodForPDB ref_env ref_client (empty_cluster\<lparr>k_pods := [trimmed_pod]\<rparr>) ''prod'' trimmed_pdb of
      Inr None \<Rightarrow> True | _ \<Rightarrow> False)"
  by code_simp

end
