(* ===== verification/Wc_Controller.thy ===== *)
theory Wc_Controller
  imports Wc_Validation Wc_Readiness Wc_Pdbs
begin

text \<open>
  The reconciler of \<open>workloadclass_controller.go\<close>: validation, readiness, status update, lease
  draining and PDB reconciliation in their order, and the mappers and predicates of its watches. The
  lemmas show that the status settles and that no error loses a lease request.
\<close>

definition placement_update :: "env \<Rightarrow> go_time \<Rightarrow> workload_class \<Rightarrow> condition option \<Rightarrow> condition list \<times> bool" where
  "placement_update E now wc placement =
     (case placement of
        Some c \<Rightarrow> set_status_condition E now (wc_conditions wc) c
      | None \<Rightarrow> remove_status_condition E (wc_conditions wc) ConditionTypePlacementPluginAttached)"

text \<open>Steps 1.1 to 1.3: the final Validated condition, the WorkloadClass carrying both conditions,
  and whether its status changed.\<close>

definition validated_status ::
  "env \<Rightarrow> go_time \<Rightarrow> workload_class \<Rightarrow> guardrail list \<Rightarrow> workload_class list \<Rightarrow> condition \<times> workload_class \<times> bool" where
  "validated_status E now wc guardrails overlapping =
     (let placement = placementPluginCondition E now wc;
          (cs1, changed1) = placement_update E now wc placement;
          v0 = validatedCondition E now wc guardrails overlapping;
          v = (case reconcileConditions now (Some v0) placement of Some c \<Rightarrow> c | None \<Rightarrow> v0);
          (cs2, changed2) = set_status_condition E now cs1 v
      in (v, with_conditions wc cs2, changed1 \<or> changed2))"

definition Reconcile_WorkloadClass ::
  "env \<Rightarrow> 's client \<Rightarrow> go_time \<Rightarrow> namespaced_name \<Rightarrow> 's \<Rightarrow> tracker option
    \<Rightarrow> requeue_result \<times> 's \<times> tracker option" where
  "Reconcile_WorkloadClass E C now req s tr =
     (case get_wc C s (fst req) (snd req) of
        Inl err \<Rightarrow>
          (case ignore_not_found err of None \<Rightarrow> Inr 0 | Some e \<Rightarrow> Inl e, s,
           if is_not_found err then snd (Drain req tr) else tr)
      | Inr wc \<Rightarrow>
          (case list_guardrails C s of
             Inl err \<Rightarrow> (Inl err, s, tr)
           | Inr guardrails \<Rightarrow>
               (case overlappingWorkloadClasses E C s wc of
                  Inl err \<Rightarrow> (Inl err, s, tr)
                | Inr overlapping \<Rightarrow>
                    let (v, wc1, changed) = validated_status E now wc guardrails overlapping
                    in case calculateReadiness E C s now wc1 of
                         Inl err \<Rightarrow> (Inl err, s, tr)
                       | Inr (readiness, next_reconcile) \<Rightarrow>
                           let wc2 = with_readiness wc1 readiness;
                               (err, s1) = (if wc_readiness wc1 \<noteq> readiness \<or> changed
                                  then update_wc_status C wc2 s else (None, s))
                           in case err of
                                Some e \<Rightarrow> (Inl e, s1, tr)
                              | None \<Rightarrow>
                                  let (pending, tr1) = Drain req tr;
                                      (r, s2, tr2) = reconcilePDBs E C now wc2 v (length guardrails > 0) pending s1 tr1
                                  in (case r of Inl e \<Rightarrow> Inl e
                                      | Inr lease_requeue \<Rightarrow> Inr (minPositiveDuration next_reconcile lease_requeue),
                                      s2, tr2))))"

subsection \<open>Watches\<close>

definition workloadClassRequestsInNamespace :: "'s client \<Rightarrow> 's \<Rightarrow> string \<Rightarrow> namespaced_name list" where
  "workloadClassRequestsInNamespace C s namespace =
     (case list_wcs C s namespace of Inl err \<Rightarrow> [] | Inr items \<Rightarrow> map wc_key items)"

definition findWorkloadClassesInObjectNamespace :: "'s client \<Rightarrow> 's \<Rightarrow> namespaced_name \<Rightarrow> namespaced_name list" where
  "findWorkloadClassesInObjectNamespace C s k = workloadClassRequestsInNamespace C s (fst k)"

definition findWorkloadClassesForNamespace :: "'s client \<Rightarrow> 's \<Rightarrow> string \<Rightarrow> namespaced_name list" where
  "findWorkloadClassesForNamespace C s nm = workloadClassRequestsInNamespace C s nm"

definition findWorkloadClassesToReconcile :: "'s client \<Rightarrow> 's \<Rightarrow> namespaced_name list" where
  "findWorkloadClassesToReconcile C s =
     (case list_all_wcs C s of Inl err \<Rightarrow> [] | Inr items \<Rightarrow> map wc_key items)"

text \<open>The set of requests of \<open>findWorkloadClassesForPod\<close>; the source ranges over a Go map.\<close>

definition findWorkloadClassesForPod :: "env \<Rightarrow> 's client \<Rightarrow> 's \<Rightarrow> pod \<Rightarrow> namespaced_name set" where
  "findWorkloadClassesForPod E C s p =
     (let best = (case FindBestMatchWorkloadClass E C s False (Some p) of
            Inr (Some b, ev) \<Rightarrow> {wc_name b} | _ \<Rightarrow> {});
          owner = (case get_pdb C s (pod_namespace p) (PDBName E (pod_name p)) of
            Inl err \<Rightarrow> {}
          | Inr b \<Rightarrow> (case get_controller_of E (pdb_owners b) of
                None \<Rightarrow> {} | Some o_ref \<Rightarrow> if or_kind o_ref = ''WorkloadClass'' then {or_name o_ref} else {}))
      in (\<lambda>nm. (pod_namespace p, nm)) ` (best \<union> owner))"

definition labelsWithoutPodUID :: "str_map \<Rightarrow> str_map" where
  "labelsWithoutPodUID m = (if m PodUIDLabel = None then m else m(PodUIDLabel := None))"

definition pod_updated :: "pod \<Rightarrow> pod \<Rightarrow> bool" where
  "pod_updated old_pod new_pod =
     (if IsPodActive (Some old_pod) \<noteq> IsPodActive (Some new_pod) then True
      else if map_get (pod_labels new_pod) PodUIDLabel \<noteq> pod_uid new_pod \<and>
              map_get (pod_labels old_pod) PodUIDLabel = pod_uid old_pod then True
      else labelsWithoutPodUID (pod_labels old_pod) \<noteq> labelsWithoutPodUID (pod_labels new_pod))"

definition userPDBPredicate :: "env \<Rightarrow> pdb \<Rightarrow> bool" where
  "userPDBPredicate E b = (\<not> IsWorkloadClassManagedPDB E (Some b))"

definition namespace_created :: "str_map \<Rightarrow> bool" where
  "namespace_created ns_labels = (ns_labels EnforcedClassLabel \<noteq> None)"

definition namespace_updated :: "str_map \<Rightarrow> str_map \<Rightarrow> bool" where
  "namespace_updated old_labels new_labels =
     (map_get old_labels EnforcedClassLabel \<noteq> map_get new_labels EnforcedClassLabel)"

subsection \<open>The status settles\<close>

lemma validatedCondition_content:
  "c_type (validatedCondition E now wc gs ov) = ConditionTypeValidated"
  "wc_spec wc' = wc_spec wc \<Longrightarrow> wc_generation wc' = wc_generation wc \<Longrightarrow>
   same_content (validatedCondition E now' wc' gs ov) (validatedCondition E now wc gs ov)"
proof -
  show "c_type (validatedCondition E now wc gs ov) = ConditionTypeValidated"
    by (simp add: validatedCondition_def validated_condition_record_def Let_def)
  assume same: "wc_spec wc' = wc_spec wc" "wc_generation wc' = wc_generation wc"
  have "wc_violations E wc' gs = wc_violations E wc gs"
    using same by (simp add: wc_violations_def validateSpec_def validateAgainstGuardrails_def GuardrailViolations_def
        validateCapacityStrategy_def Let_def)
  then show "same_content (validatedCondition E now' wc' gs ov) (validatedCondition E now wc gs ov)"
    using same by (simp add: validatedCondition_def validated_condition_record_def Let_def same_content_def)
qed

text \<open>The final Validated condition, as a function of the two conditions it is made of.\<close>

definition final_validated :: "go_time \<Rightarrow> condition \<Rightarrow> condition option \<Rightarrow> condition" where
  "final_validated now v0 placement = (case reconcileConditions now (Some v0) placement of Some c \<Rightarrow> c | None \<Rightarrow> v0)"

lemma final_validated_content:
  "same_content v v' \<Longrightarrow> same_content p p' \<Longrightarrow>
   same_content (final_validated now v (Some p)) (final_validated now' v' (Some p'))"
  "same_content v v' \<Longrightarrow> same_content (final_validated now v None) (final_validated now' v' None)"
  by (simp_all add: final_validated_def reconcileConditions_def addPlacementViolation_def same_content_def Let_def)

lemma final_validated_type [simp]: "c_type (final_validated now v p) = c_type v"
  by (simp add: final_validated_def reconcileConditions_def addPlacementViolation_def Let_def split: option.split)

lemma validated_status_eq:
  "validated_status E now wc gs ov =
    (let placement = placementPluginCondition E now wc;
         v = final_validated now (validatedCondition E now wc gs ov) placement;
         cs1 = fst (placement_update E now wc placement)
     in (v, with_conditions wc (fst (set_status_condition E now cs1 v)),
         snd (placement_update E now wc placement) \<or> snd (set_status_condition E now cs1 v)))"
  by (simp add: validated_status_def final_validated_def Let_def split: prod.split)

lemma validated_status_fields:
  assumes "validated_status E now wc gs ov = (v, wc1, changed)"
  shows "wc_spec wc1 = wc_spec wc" "wc_generation wc1 = wc_generation wc" "wc_key wc1 = wc_key wc"
    "wc_deletion wc1 = wc_deletion wc"
  using assms by (auto simp: validated_status_eq Let_def)

lemma placement_settled:
  assumes laws: "condition_laws E"
    and v: "c_type v = ConditionTypeValidated"
    and wc1: "wc1 = with_conditions wc (fst (set_status_condition E now
        (fst (placement_update E now wc (placementPluginCondition E now wc))) v))"
  shows "placement_update E now' wc1 (placementPluginCondition E now' wc1) = (wc_conditions wc1, False) \<and>
    (case (placementPluginCondition E now wc, placementPluginCondition E now' wc1) of
       (None, None) \<Rightarrow> True | (Some p, Some p') \<Rightarrow> same_content p' p | _ \<Rightarrow> False)"
proof -
  let ?ty = ConditionTypePlacementPluginAttached
  let ?p = "placementPluginCondition E now wc"
  let ?cs1 = "fst (placement_update E now wc ?p)"
  have conds: "find_status_condition E (wc_conditions wc1) ?ty = find_status_condition E ?cs1 ?ty"
    unfolding wc1 using condition_lawsD(3) [OF laws, of ?ty v now ?cs1] v by simp
  show ?thesis
  proof (cases "wc_infra wc")
    case None
    then have p: "?p = None" "placementPluginCondition E now' wc1 = None"
      by (simp_all add: placementPluginCondition_def wc1)
    then have "find_status_condition E (wc_conditions wc1) ?ty = None"
      unfolding conds by (simp add: placement_update_def condition_lawsD(4) [OF laws])
    then show ?thesis using p condition_lawsD(6) [OF laws] by (simp add: placement_update_def)
  next
    case (Some ref)
    then have "\<exists>p. ?p = Some p \<and> c_type p = ?ty \<and> c_observed p = wc_generation wc"
      using condition_lawsD(1) [OF laws] by (auto simp: placementPluginCondition_def Let_def split: option.split)
    then obtain p where p: "?p = Some p" "c_type p = ?ty" "c_observed p = wc_generation wc" by blast
    then obtain x where x: "find_status_condition E (wc_conditions wc1) ?ty = Some x" "same_content x p"
      unfolding conds using condition_lawsD(2) [OF laws, of now "wc_conditions wc" p] by (auto simp: placement_update_def)
    then have "c_observed x = wc_generation wc1" "wc_infra wc1 = Some ref"
      using p(3) Some by (simp_all add: same_content_def wc1)
    then have next_p: "placementPluginCondition E now' wc1 = Some x"
      using x(1) by (simp add: placementPluginCondition_def Let_def)
    have "c_type x = ?ty" using condition_lawsD(1) [OF laws x(1)] .
    then have "set_status_condition E now' (wc_conditions wc1) x = (wc_conditions wc1, False)"
      using condition_lawsD(5) [OF laws, of "wc_conditions wc1" x x] x(1) by simp
    then show ?thesis using p(1) x(2) next_p by (simp add: placement_update_def)
  qed
qed

text \<open>C29: The reconciler does not keep itself busy: once it has written the conditions it computed,
  computing them again from the written status, at any later time and against the same guardrails and
  overlaps, gives conditions of the same content and reports no change, so the status is written no
  more.\<close>

theorem validated_status_settles:
  assumes "condition_laws E" "validated_status E now wc gs ov = (v, wc1, changed)"
  shows "\<exists>v'. validated_status E now' wc1 gs ov = (v', wc1, False) \<and> same_content v' v"
proof -
  let ?p = "placementPluginCondition E now wc" and ?p' = "placementPluginCondition E now' wc1"
  have v: "v = final_validated now (validatedCondition E now wc gs ov) ?p"
    and wc1: "wc1 = with_conditions wc (fst (set_status_condition E now (fst (placement_update E now wc ?p)) v))"
    using assms(2) by (auto simp: validated_status_eq Let_def)
  let ?v' = "final_validated now' (validatedCondition E now' wc1 gs ov) ?p'"
  have type: "c_type v = ConditionTypeValidated" "c_type ?v' = ConditionTypeValidated"
    by (simp_all add: v validatedCondition_content(1))
  have placement: "placement_update E now' wc1 ?p' = (wc_conditions wc1, False)"
    "case (?p, ?p') of (None, None) \<Rightarrow> True | (Some p, Some p') \<Rightarrow> same_content p' p | _ \<Rightarrow> False"
    using placement_settled [OF assms(1) type(1) wc1] by simp_all
  have "same_content (validatedCondition E now' wc1 gs ov) (validatedCondition E now wc gs ov)"
    by (rule validatedCondition_content) (simp_all add: wc1)
  then have content: "same_content ?v' v"
    using placement(2) final_validated_content unfolding v by (auto split: option.splits)
  obtain x where "find_status_condition E (wc_conditions wc1) ConditionTypeValidated = Some x" "same_content x v"
    using condition_lawsD(2) [OF assms(1), of now "fst (placement_update E now wc ?p)" v] type(1) wc1 by auto
  then have "set_status_condition E now' (wc_conditions wc1) ?v' = (wc_conditions wc1, False)"
    using condition_lawsD(5) [OF assms(1), of "wc_conditions wc1" ?v'] type(2) content
    by (metis same_content_sym same_content_trans)
  then have "validated_status E now' wc1 gs ov = (?v', with_conditions wc1 (wc_conditions wc1), False)"
    using placement(1) by (simp add: validated_status_eq Let_def)
  moreover have "with_conditions wc1 (wc_conditions wc1) = wc1" by (simp add: with_conditions_def)
  ultimately show ?thesis using content by auto
qed

lemma validated_status_settles_witness:
  "\<exists>v wc1 changed v'. validated_status ref_env 5 sample_wc [sample_guardrail] [] = (v, wc1, changed) \<and>
     validated_status ref_env 9 wc1 [sample_guardrail] [] = (v', wc1, False)"
proof -
  obtain v wc1 changed where "validated_status ref_env 5 sample_wc [sample_guardrail] [] = (v, wc1, changed)"
    by (metis prod_cases3)
  then show ?thesis
    using validated_status_settles [OF condition_laws_ref_env, of 5 sample_wc "[sample_guardrail]" "[]" v wc1 changed 9] by blast
qed

subsection \<open>Errors of the reconciler\<close>

text \<open>The reconciler either stops early, without having touched the tracker or a PDB, or it drains the
  requests of its WorkloadClass and reconciles the PDBs with them.\<close>

lemma Reconcile_split:
  assumes "get_key_law C" "Reconcile_WorkloadClass E C now req s tr = (r, s', tr')"
  shows "tr' = tr \<or> (\<exists>err. get_wc C s (fst req) (snd req) = Inl err \<and> is_not_found err) \<or>
    (\<exists>wc gs ov v wc1 changed readiness d pending s1 tr1 res.
       get_wc C s (fst req) (snd req) = Inr wc \<and> list_guardrails C s = Inr gs \<and>
       overlappingWorkloadClasses E C s wc = Inr ov \<and> validated_status E now wc gs ov = (v, wc1, changed) \<and>
       calculateReadiness E C s now wc1 = Inr (readiness, d) \<and>
       (if wc_readiness wc1 \<noteq> readiness \<or> changed then update_wc_status C (with_readiness wc1 readiness) s
        else (None, s)) = (None, s1) \<and>
       wc_key (with_readiness wc1 readiness) = req \<and> Drain req tr = (pending, tr1) \<and>
       reconcilePDBs E C now (with_readiness wc1 readiness) v (gs \<noteq> []) pending s1 tr1 = (res, s', tr') \<and>
       (\<forall>err. res = Inl err \<longrightarrow> r = Inl err))"
proof (cases "get_wc C s (fst req) (snd req)")
  case (Inl err)
  then show ?thesis using assms(2) by (auto simp: Reconcile_WorkloadClass_def split: if_splits)
next
  case (Inr wc)
  have key: "wc_key wc = req" using assms(1) Inr by (auto simp: get_key_law_def)
  show ?thesis
  proof (cases "list_guardrails C s")
    case (Inl err)
    then show ?thesis using assms(2) Inr by (simp add: Reconcile_WorkloadClass_def)
  next
    case gs: (Inr gs)
    show ?thesis
    proof (cases "overlappingWorkloadClasses E C s wc")
      case (Inl err)
      then show ?thesis using assms(2) Inr gs by (simp add: Reconcile_WorkloadClass_def)
    next
      case ov: (Inr ov)
      obtain v wc1 changed where status: "validated_status E now wc gs ov = (v, wc1, changed)" by (metis prod_cases3)
      show ?thesis
      proof (cases "calculateReadiness E C s now wc1")
        case (Inl err)
        then show ?thesis using assms(2) Inr gs ov status by (simp add: Reconcile_WorkloadClass_def)
      next
        case ready: (Inr rd)
        obtain readiness d where rd: "rd = (readiness, d)" by (cases rd)
        let ?wc2 = "with_readiness wc1 readiness"
        let ?upd = "if wc_readiness wc1 \<noteq> readiness \<or> changed then update_wc_status C ?wc2 s else (None, s)"
        obtain err s1 where upd: "?upd = (err, s1)" by (cases "?upd")
        obtain pending tr1 where drain: "Drain req tr = (pending, tr1)" by (cases "Drain req tr")
        obtain res s2 tr2 where pdbs: "reconcilePDBs E C now ?wc2 v (gs \<noteq> []) pending s1 tr1 = (res, s2, tr2)"
          by (metis prod_cases3)
        have result: "(r, s', tr') = (case err of Some e \<Rightarrow> (Inl e, s1, tr)
            | None \<Rightarrow> (case res of Inl e \<Rightarrow> Inl e | Inr q \<Rightarrow> Inr (minPositiveDuration d q), s2, tr2))"
          using assms(2) Inr gs ov status ready rd upd drain pdbs
          by (cases err) (simp_all add: Reconcile_WorkloadClass_def Let_def)
        show ?thesis
        proof (cases err)
          case None
          have "wc_key ?wc2 = req" using key validated_status_fields(3) [OF status] by simp
          moreover have "s' = s2" "tr' = tr2" "\<forall>err. res = Inl err \<longrightarrow> r = Inl err"
            using result None by auto
          ultimately show ?thesis
            using drain pdbs Inr gs ov status ready [unfolded rd] upd [unfolded None] by blast
        qed (use result in simp)
      qed
    qed
  qed
qed

text \<open>C20: No error of the reconciler loses a lease request: whatever fails, a request that was pending
  for the WorkloadClass is pending afterwards, unless the WorkloadClass no longer exists, or the run
  reached the PDBs, its reads having succeeded and its status having been written where it changed, and
  the reconciliation of the PDBs that ended the run dealt with the request (its Pod reconciled without
  error, or not governed, or the class does not protect Pods).\<close>

theorem Reconcile_keeps_leases:
  assumes "get_key_law C" "tracker_ok t" "lease_of t req (pl_pod_name l) = Some l"
    and "Reconcile_WorkloadClass E C now req s (Some t) = (r, s', tr')"
  shows "(\<exists>t'. tr' = Some t' \<and> lease_of t' req (pl_pod_name l) = Some l) \<or>
    (\<exists>err. get_wc C s (fst req) (snd req) = Inl err \<and> is_not_found err) \<or>
    (\<exists>wc gs ov v wc1 changed readiness d pending s1 tr1 res.
       get_wc C s (fst req) (snd req) = Inr wc \<and> list_guardrails C s = Inr gs \<and>
       overlappingWorkloadClasses E C s wc = Inr ov \<and> validated_status E now wc gs ov = (v, wc1, changed) \<and>
       calculateReadiness E C s now wc1 = Inr (readiness, d) \<and>
       (if wc_readiness wc1 \<noteq> readiness \<or> changed then update_wc_status C (with_readiness wc1 readiness) s
        else (None, s)) = (None, s1) \<and>
       Drain req (Some t) = (pending, tr1) \<and>
       reconcilePDBs E C now (with_readiness wc1 readiness) v (gs \<noteq> []) pending s1 tr1 = (res, s', tr') \<and>
       (\<forall>err. res = Inl err \<longrightarrow> r = Inl err) \<and>
       lease_done E C now (with_readiness wc1 readiness) v (gs \<noteq> []) pending s1 tr1 l)"
proof -
  consider (early) "tr' = Some t" | (gone) "\<exists>err. get_wc C s (fst req) (snd req) = Inl err \<and> is_not_found err"
    | (drained) wc gs ov v wc1 changed readiness d pending s1 tr1 res where
        "get_wc C s (fst req) (snd req) = Inr wc" "list_guardrails C s = Inr gs"
        "overlappingWorkloadClasses E C s wc = Inr ov" "validated_status E now wc gs ov = (v, wc1, changed)"
        "calculateReadiness E C s now wc1 = Inr (readiness, d)"
        "(if wc_readiness wc1 \<noteq> readiness \<or> changed then update_wc_status C (with_readiness wc1 readiness) s
          else (None, s)) = (None, s1)"
        "wc_key (with_readiness wc1 readiness) = req" "Drain req (Some t) = (pending, tr1)"
        "reconcilePDBs E C now (with_readiness wc1 readiness) v (gs \<noteq> []) pending s1 tr1 = (res, s', tr')"
        "\<forall>err. res = Inl err \<longrightarrow> r = Inl err"
    using Reconcile_split [OF assms(1,4)] by blast
  then show ?thesis
  proof cases
    case drained
    have "l \<in> set (fst (take_leases req t))" by (rule iffD2 [OF leases.take_set [OF assms(2)]]) (rule assms(3))
    then have "l \<in> set pending" using drained(8) by (simp add: Drain_take)
    then have "(\<exists>t'. tr' = Some t' \<and> lease_of t' req (pl_pod_name l) = Some l) \<or>
        lease_done E C now (with_readiness wc1 readiness) v (gs \<noteq> []) pending s1 tr1 l"
      using reconcilePDBs_kept [OF assms(2) _ drained(9)] drained(7,8) by metis
    then show ?thesis using drained(1-6,8-10) by blast
  qed (use assms(3) in auto)
qed

lemma Reconcile_keeps_leases_witness:
  "let l = lease_for sample_pod sample_subject;
       t = put_lease (''prod'', ''web'') l (NewPendingLeaseTracker 8);
       (r, s, tr') = Reconcile_WorkloadClass ref_env (ref_client\<lparr>list_guardrails := \<lambda>s. Inl (OtherError ''timeout'')\<rparr>) 5
         (''prod'', ''web'') sample_cluster (Some t)
   in \<exists>t'. tr' = Some t' \<and> lease_of t' (''prod'', ''web'') ''web-0'' = Some l"
proof -
  let ?C = "ref_client\<lparr>list_guardrails := \<lambda>s. Inl (OtherError ''timeout'')\<rparr>" and ?k = "(''prod'', ''web'')"
  let ?l = "lease_for sample_pod sample_subject"
  let ?t = "put_lease ?k ?l (NewPendingLeaseTracker 8)"
  obtain r s tr' where rec: "Reconcile_WorkloadClass ref_env ?C 5 ?k sample_cluster (Some ?t) = (r, s, tr')"
    by (metis prod_cases3)
  have laws: "get_key_law ?C" using get_key_law_ref by (simp add: get_key_law_def)
  have name: "pl_pod_name ?l = ''web-0''" by (simp add: sample_pod_def)
  have "lease_of ?t ?k (pl_pod_name ?l) = Some ?l" by (simp add: lease_of_put)
  from Reconcile_keeps_leases [OF laws tracker_ok_put [OF new_tracker(1)] this rec]
  have "\<exists>t'. tr' = Some t' \<and> lease_of t' ?k ''web-0'' = Some ?l"
    unfolding name by (simp add: sample_cluster_def sample_wc_def)
  then show ?thesis using rec by simp
qed

end
