(* ===== verification/Watches.thy ===== *)
theory Watches
  imports Spot_Reversion Spot_Policy Guardrail_Controller Wc_Controller
begin

text \<open>
  The watches of the four controllers: the event predicates of \<open>internal/controller\<close> in full, and for
  each \<open>SetupWithManager\<close> the requests that an event of the cluster leads to. What controller-runtime
  adds (which object of an update is mapped or filtered, the generation predicate, the handler of
  \<open>Owns\<close>) is the parameter \<open>runtime\<close>. The lemmas show that the filters lose nothing the reconcilers
  depend on, with one exception that is shown as well.
\<close>

subsection \<open>Events\<close>

datatype 'o event = Created 'o | Updated 'o 'o | Deleted 'o | Generic 'o

datatype event_kind = CreateEvent | UpdateEvent | DeleteEvent | GenericEvent

text \<open>The kinds are finitely many, so that conditions over all of them can be computed.\<close>

instantiation event_kind :: enum
begin

definition enum_event_kind :: "event_kind list" where
  "enum_event_kind = [CreateEvent, UpdateEvent, DeleteEvent, GenericEvent]"

definition enum_all_event_kind :: "(event_kind \<Rightarrow> bool) \<Rightarrow> bool" where
  "enum_all_event_kind P \<longleftrightarrow> P CreateEvent \<and> P UpdateEvent \<and> P DeleteEvent \<and> P GenericEvent"

definition enum_ex_event_kind :: "(event_kind \<Rightarrow> bool) \<Rightarrow> bool" where
  "enum_ex_event_kind P \<longleftrightarrow> P CreateEvent \<or> P UpdateEvent \<or> P DeleteEvent \<or> P GenericEvent"

instance
proof
  show "(UNIV :: event_kind set) = set enum_class.enum"
    by (auto simp: enum_event_kind_def intro: event_kind.exhaust)
  show "distinct (enum_class.enum :: event_kind list)"
    by (simp add: enum_event_kind_def)
  show "enum_class.enum_all P \<longleftrightarrow> Ball UNIV P" for P :: "event_kind \<Rightarrow> bool"
    by (metis UNIV_I enum_all_event_kind_def event_kind.exhaust)
  show "enum_class.enum_ex P \<longleftrightarrow> Bex UNIV P" for P :: "event_kind \<Rightarrow> bool"
    by (metis UNIV_I enum_ex_event_kind_def event_kind.exhaust)
qed

end

fun kind_of :: "'o event \<Rightarrow> event_kind" where
  "kind_of (Created x) = CreateEvent"
| "kind_of (Updated x y) = UpdateEvent"
| "kind_of (Deleted x) = DeleteEvent"
| "kind_of (Generic x) = GenericEvent"

text \<open>The object of an event; of an update, the new or the old one.\<close>

fun event_object :: "'o event \<Rightarrow> bool \<Rightarrow> 'o" where
  "event_object (Updated x y) new_one = (if new_one then y else x)"
| "event_object (Created x) new_one = x"
| "event_object (Deleted x) new_one = x"
| "event_object (Generic x) new_one = x"

text \<open>
  controller-runtime: the objects of an event that a handler maps to requests and the one that
  \<open>NewPredicateFuncs\<close> filters, as the new object (True) or the old one of an update (False);
  \<open>GenerationChangedPredicate\<close> on the generations of the objects; the requests of the handler
  \<open>Owns\<close> installs, from an object's namespace and owner references.
\<close>

record runtime =
  mapped_objects :: "event_kind \<Rightarrow> bool list"
  filtered_object :: "event_kind \<Rightarrow> bool"
  generation_passes :: "int event \<Rightarrow> bool"
  owner_requests :: "string \<Rightarrow> owner_ref list \<Rightarrow> namespaced_name list"

text \<open>What is relied on of a handler: it maps the new object of every event.\<close>

definition runtime_law :: "runtime \<Rightarrow> bool" where
  "runtime_law rt = (\<forall>k. True \<in> set (mapped_objects rt k))"

definition map_requests :: "runtime \<Rightarrow> ('o \<Rightarrow> 'r set) \<Rightarrow> 'o event \<Rightarrow> 'r set" where
  "map_requests rt f ev = (\<Union>b \<in> set (mapped_objects rt (kind_of ev)). f (event_object ev b))"

fun generations :: "('o \<Rightarrow> int) \<Rightarrow> 'o event \<Rightarrow> int event" where
  "generations g (Created x) = Created (g x)"
| "generations g (Updated x y) = Updated (g x) (g y)"
| "generations g (Deleted x) = Deleted (g x)"
| "generations g (Generic x) = Generic (g x)"

text \<open>A PDB is watched with its generation, a Namespace as its name and labels, a ConfigMap as its key
  and data; a lease signal is a key received from the tracker's channel.\<close>

datatype cluster_event =
    WorkloadClassEvent "workload_class event"
  | GuardrailEvent "guardrail event"
  | PolicyEvent "spot_policy event"
  | PDBEvent "(int \<times> pdb) event"
  | NamespaceEvent "(string \<times> str_map) event"
  | PodEvent "pod event"
  | NodeEvent "node_obj event"
  | ConfigMapEvent "(namespaced_name \<times> str_map) event"
  | LeaseEvent namespaced_name

subsection \<open>Predicates\<close>

fun podPredicate :: "pod event \<Rightarrow> bool" where
  "podPredicate (Created p) = True"
| "podPredicate (Deleted p) = True"
| "podPredicate (Generic p) = False"
| "podPredicate (Updated old_pod new_pod) = pod_updated old_pod new_pod"

fun namespaceEnforcedClassPredicate :: "(string \<times> str_map) event \<Rightarrow> bool" where
  "namespaceEnforcedClassPredicate (Created x) = namespace_created (snd x)"
| "namespaceEnforcedClassPredicate (Updated x y) = namespace_updated (snd x) (snd y)"
| "namespaceEnforcedClassPredicate (Deleted x) = False"
| "namespaceEnforcedClassPredicate (Generic x) = False"

fun gkeSpotManagedPredicate :: "workload_class event \<Rightarrow> bool" where
  "gkeSpotManagedPredicate (Created w) = IsGKESpotManaged (Some w)"
| "gkeSpotManagedPredicate (Deleted w) = False"
| "gkeSpotManagedPredicate (Generic w) = IsGKESpotManaged (Some w)"
| "gkeSpotManagedPredicate (Updated old_wc new_wc) = gke_spot_managed_updated old_wc new_wc"

fun clusterAutoscalerStatusPredicate :: "env \<Rightarrow> (namespaced_name \<times> str_map) event \<Rightarrow> bool" where
  "clusterAutoscalerStatusPredicate E (Created x) = isClusterAutoscalerStatus (fst x)"
| "clusterAutoscalerStatusPredicate E (Deleted x) = isClusterAutoscalerStatus (fst x)"
| "clusterAutoscalerStatusPredicate E (Generic x) = isClusterAutoscalerStatus (fst x)"
| "clusterAutoscalerStatusPredicate E (Updated x y) = autoscaler_status_updated E (fst y) (snd x) (snd y)"

fun spotNodeReadinessPredicate :: "node_obj event \<Rightarrow> bool" where
  "spotNodeReadinessPredicate (Created n) = isReadySpotNode n"
| "spotNodeReadinessPredicate (Deleted n) = isReadySpotNode n"
| "spotNodeReadinessPredicate (Generic n) = False"
| "spotNodeReadinessPredicate (Updated old_node new_node) = spot_node_updated old_node new_node"

fun podPlacementChangePredicate :: "pod event \<Rightarrow> bool" where
  "podPlacementChangePredicate (Created p) = pod_placement_created p"
| "podPlacementChangePredicate (Updated old_pod new_pod) = pod_placement_updated old_pod new_pod"
| "podPlacementChangePredicate (Deleted p) = True"
| "podPlacementChangePredicate (Generic p) = False"

subsection \<open>What a filter preserves\<close>

text \<open>
  The contract between an event filter and the reconciler behind it: updates that the filter drops do
  not change the view of the object that the reconciler depends on. Then no sequence of dropped
  updates changes it, nor anything computed from it.
\<close>

locale event_filter =
  fixes passes :: "'o event \<Rightarrow> bool" and view :: "'o \<Rightarrow> 'v"
  assumes ignored: "\<not> passes (Updated x y) \<Longrightarrow> view y = view x"
begin

lemma ignored_run:
  "successively (\<lambda>x y. \<not> passes (Updated x y)) (x # xs) \<Longrightarrow> y \<in> set xs \<Longrightarrow> view y = view x"
  by (induction xs arbitrary: x) (auto dest: ignored)

lemma ignored_run_computed:
  assumes "\<And>a. f a = g (view a)" "successively (\<lambda>x y. \<not> passes (Updated x y)) (x # xs)" "y \<in> set xs"
  shows "f y = f x"
  using ignored_run [OF assms(2,3)] by (simp add: assms(1))

end

lemma labelsWithoutPodUID_upd: "labelsWithoutPodUID m = m(PodUIDLabel := None)"
  by (auto simp: labelsWithoutPodUID_def)

interpretation pods: event_filter podPredicate "\<lambda>p. (IsPodActive (Some p), (pod_labels p)(PodUIDLabel := None))"
  by unfold_locales (auto simp: pod_updated_def labelsWithoutPodUID_upd split: if_splits)

interpretation namespaces: event_filter namespaceEnforcedClassPredicate "\<lambda>x. map_get (snd x) EnforcedClassLabel"
  by unfold_locales (auto simp: namespace_updated_def)

interpretation managed: event_filter gkeSpotManagedPredicate "\<lambda>w. IsGKESpotManaged (Some w)"
  by unfold_locales (auto simp: gke_spot_managed_updated_def)

interpretation spot_nodes: event_filter spotNodeReadinessPredicate isReadySpotNode
  by unfold_locales (auto simp: spot_node_updated_def)

interpretation placed_pods: event_filter podPlacementChangePredicate "\<lambda>p. (pod_node p, IsPodActive (Some p))"
  by unfold_locales (auto simp: pod_placement_updated_def)

subsection \<open>SetupWithManager\<close>

definition when_passes :: "bool \<Rightarrow> 'r set \<Rightarrow> 'r set" where
  "when_passes b requests = (if b then requests else {})"

fun workloadclass_watches ::
  "runtime \<Rightarrow> env \<Rightarrow> 's client \<Rightarrow> 's \<Rightarrow> tracker option \<Rightarrow> cluster_event \<Rightarrow> namespaced_name set" where
  "workloadclass_watches rt E C s tr (WorkloadClassEvent ev) =
     map_requests rt (\<lambda>w. {wc_key w}) ev \<union>
     when_passes (generation_passes rt (generations wc_generation ev))
       (map_requests rt (\<lambda>w. set (findWorkloadClassesInObjectNamespace C s (wc_key w))) ev)"
| "workloadclass_watches rt E C s tr (GuardrailEvent ev) =
     when_passes (generation_passes rt (generations gr_generation ev))
       (map_requests rt (\<lambda>g. set (findWorkloadClassesToReconcile C s)) ev)"
| "workloadclass_watches rt E C s tr (PDBEvent ev) =
     when_passes (generation_passes rt (generations fst ev))
       (map_requests rt (\<lambda>(gen, b). set (owner_requests rt (pdb_namespace b) (pdb_owners b))) ev) \<union>
     when_passes (userPDBPredicate E (snd (event_object ev (filtered_object rt (kind_of ev)))))
       (map_requests rt (\<lambda>(gen, b). set (findWorkloadClassesInObjectNamespace C s (pdb_namespace b, pdb_name b))) ev)"
| "workloadclass_watches rt E C s tr (NamespaceEvent ev) =
     when_passes (namespaceEnforcedClassPredicate ev)
       (map_requests rt (\<lambda>(nm, labels). set (findWorkloadClassesForNamespace C s nm)) ev)"
| "workloadclass_watches rt E C s tr (PodEvent ev) =
     when_passes (podPredicate ev) (map_requests rt (findWorkloadClassesForPod E C s) ev)"
| "workloadclass_watches rt E C s tr (LeaseEvent k) = when_passes (tr \<noteq> None) {k}"
| "workloadclass_watches rt E C s tr _ = {}"

fun guardrail_watches :: "runtime \<Rightarrow> cluster_event \<Rightarrow> string set" where
  "guardrail_watches rt (GuardrailEvent ev) = map_requests rt (\<lambda>g. {gr_name g}) ev"
| "guardrail_watches rt _ = {}"

fun spot_policy_watches :: "runtime \<Rightarrow> 's client \<Rightarrow> 's \<Rightarrow> cluster_event \<Rightarrow> string set" where
  "spot_policy_watches rt C s (PolicyEvent ev) = map_requests rt (\<lambda>p. {sp_name p}) ev"
| "spot_policy_watches rt C s (WorkloadClassEvent ev) =
     when_passes (generation_passes rt (generations wc_generation ev))
       (map_requests rt (\<lambda>w. set (enqueueIfReferencesSpotPolicy w)) ev)"
| "spot_policy_watches rt C s (GuardrailEvent ev) =
     when_passes (generation_passes rt (generations gr_generation ev))
       (map_requests rt (\<lambda>g. set (findSpotPoliciesToReconcile C s)) ev)"
| "spot_policy_watches rt C s _ = {}"

fun spot_placement_watches ::
  "runtime \<Rightarrow> env \<Rightarrow> 's client \<Rightarrow> 's \<Rightarrow> cluster_event \<Rightarrow> namespaced_name set" where
  "spot_placement_watches rt E C s (WorkloadClassEvent ev) =
     when_passes (gkeSpotManagedPredicate ev) (map_requests rt (\<lambda>w. {wc_key w}) ev)"
| "spot_placement_watches rt E C s (PolicyEvent ev) =
     when_passes (generation_passes rt (generations sp_generation ev))
       (map_requests rt (\<lambda>p. set (findWorkloadClassesForPolicy E C s p)) ev)"
| "spot_placement_watches rt E C s (GuardrailEvent ev) =
     when_passes (generation_passes rt (generations gr_generation ev))
       (map_requests rt (\<lambda>g. set (findWorkloadClassesForGuardrail E C s g)) ev)"
| "spot_placement_watches rt E C s (ConfigMapEvent ev) =
     when_passes (clusterAutoscalerStatusPredicate E ev)
       (map_requests rt (\<lambda>(k, cm_data). set (findWorkloadClassesForClusterAutoscalerStatus E C s k)) ev)"
| "spot_placement_watches rt E C s (NodeEvent ev) =
     when_passes (spotNodeReadinessPredicate ev) (map_requests rt (\<lambda>n. set (findWorkloadClassesForSpotNode E C s n)) ev)"
| "spot_placement_watches rt E C s (PodEvent ev) =
     when_passes (podPlacementChangePredicate ev) (map_requests rt (\<lambda>p. set (findWorkloadClassForPod E C s p)) ev)"
| "spot_placement_watches rt E C s _ = {}"

subsection \<open>Ignored Pod updates change nothing\<close>

text \<open>A selector that does not look at the label the controller itself writes.\<close>

definition label_blind :: "env \<Rightarrow> label_selector option \<Rightarrow> bool" where
  "label_blind E sel =
     (\<forall>m labels. as_selector E sel = Inr m \<longrightarrow> m (labels(PodUIDLabel := None)) = m labels)"

lemma label_blind_selector_matches:
  assumes "selector_laws E" "PodUIDLabel \<notin> fst ` set (sel_labels sel)" "PodUIDLabel \<notin> lr_key ` set (sel_exprs sel)"
  shows "label_blind E (Some sel)"
proof -
  have "selector_matches sel (labels(PodUIDLabel := None)) = selector_matches sel labels" for labels
  proof -
    have "(\<forall>(k, v) \<in> set (sel_labels sel). (labels(PodUIDLabel := None)) k = Some v) \<longleftrightarrow>
        (\<forall>(k, v) \<in> set (sel_labels sel). labels k = Some v)"
      using assms(2) by (intro ball_cong refl) (force split: prod.split)
    moreover have "req_holds (lr_operator r) (lr_values r) ((labels(PodUIDLabel := None)) (lr_key r)) \<longleftrightarrow>
        req_holds (lr_operator r) (lr_values r) (labels (lr_key r))" if "r \<in> set (sel_exprs sel)" for r
      using assms(3) that by force
    ultimately show ?thesis by (simp add: selector_matches_def del: fun_upd_apply)
  qed
  then show ?thesis
    unfolding label_blind_def by (intro allI impI) (simp only: selector_lawsD(2) [OF assms(1)])
qed

lemma pod_updated_False:
  assumes "\<not> pod_updated old_pod new_pod"
  shows "IsPodActive (Some new_pod) = IsPodActive (Some old_pod)"
    "(pod_labels new_pod)(PodUIDLabel := None) = (pod_labels old_pod)(PodUIDLabel := None)"
    "map_get (pod_labels old_pod) PodUIDLabel = pod_uid old_pod \<Longrightarrow> map_get (pod_labels new_pod) PodUIDLabel = pod_uid new_pod"
  using assms pods.ignored [of old_pod new_pod] by (auto simp: pod_updated_def split: if_splits)

lemma label_blind_same:
  assumes "label_blind E sel" "\<not> pod_updated old_pod new_pod" "as_selector E sel = Inr m"
  shows "m (pod_labels new_pod) = m (pod_labels old_pod)"
  using assms pod_updated_False(2) [OF assms(2)] unfolding label_blind_def by metis

lemma ignored_update_best_match:
  assumes "\<not> pod_updated old_pod new_pod" "pod_namespace new_pod = pod_namespace old_pod"
    and "\<forall>w \<in> set wcs. label_blind E (wc_selector w)"
  shows "BestMatchWorkloadClassForPod E (Some new_pod) enforced wcs = BestMatchWorkloadClassForPod E (Some old_pod) enforced wcs"
proof -
  have "match_step E new_pod w st = match_step E old_pod w st" if "w \<in> set wcs" for w st
    using assms that label_blind_same [OF _ assms(1)] by (auto simp: match_step_def split: sum.split)
  then have "selectBestMatchFromList E new_pod wcs = selectBestMatchFromList E old_pod wcs"
    by (auto simp: selectBestMatchFromList_def intro!: fold_cong)
  then show ?thesis using assms(2) by (cases enforced) (simp_all add: BestMatchWorkloadClassForPod_def)
qed

lemma ignored_update_covered:
  assumes "\<not> pod_updated old_pod new_pod" "pod_namespace new_pod = pod_namespace old_pod"
    and "\<forall>b \<in> set user_pdbs. label_blind E (pdb_selector b)"
  shows "IsPodCoveredByUserPDB E (Some new_pod) user_pdbs = IsPodCoveredByUserPDB E (Some old_pod) user_pdbs"
proof -
  have "user_pdb_covers E new_pod b = user_pdb_covers E old_pod b" if "b \<in> set user_pdbs" for b
    using assms that label_blind_same [OF _ assms(1)] by (auto simp: user_pdb_covers_def split: sum.split)
  then show ?thesis by (simp add: IsPodCoveredByUserPDB_def list_ex_iff)
qed

lemma ignored_update_governs:
  assumes "\<not> pod_updated old_pod new_pod" "pod_namespace new_pod = pod_namespace old_pod"
    and "\<forall>w \<in> set wcs. label_blind E (wc_selector w)" "\<forall>b \<in> set user_pdbs. label_blind E (pdb_selector b)"
  shows "governs E wc enforced wcs user_pdbs new_pod = governs E wc enforced wcs user_pdbs old_pod"
  unfolding governs_def ignored_update_best_match [OF assms(1-3)] ignored_update_covered [OF assms(1,2,4)]
    pod_updated_False(1) [OF assms(1)] by (rule refl)

text \<open>The same for the other filters: an ignored change of a Namespace keeps its enforced WorkloadClass,
  one of the autoscaler's status keeps the answer of the capacity check.\<close>

lemma ignored_node_updates:
  assumes "successively (\<lambda>x y. \<not> spotNodeReadinessPredicate (Updated x y)) (n # ns)" "m \<in> set ns"
  shows "list_ex isReadySpotNode (us @ m # vs) = list_ex isReadySpotNode (us @ n # vs)"
  using spot_nodes.ignored_run [OF assms] by simp

lemma ignored_namespace_update:
  assumes "\<not> namespaceEnforcedClassPredicate (Updated (nm, old_labels) (nm, new_labels))"
    and "get_namespace C s nm = Inr old_labels" "get_namespace C s' nm = Inr new_labels"
    and "\<And>c. get_wc C s' nm c = get_wc C s nm c"
  shows "NamespaceEnforcedWorkloadClass C s' nm = NamespaceEnforcedWorkloadClass C s nm"
  using assms namespaces.ignored [OF assms(1)]
  by (auto simp: NamespaceEnforcedWorkloadClass_def map_get_def split: option.splits)

lemma ignored_autoscaler_update:
  assumes "\<not> clusterAutoscalerStatusPredicate E
      (Updated ((ClusterAutoscalerStatusNamespace, ClusterAutoscalerStatusName), old_cm) ((ClusterAutoscalerStatusNamespace, ClusterAutoscalerStatusName), new_cm))"
    and "get_config_map C s ClusterAutoscalerStatusNamespace ClusterAutoscalerStatusName = Inr old_cm"
    and "get_config_map C s' ClusterAutoscalerStatusNamespace ClusterAutoscalerStatusName = Inr new_cm"
    and "hasReadySpotNodes C s' = hasReadySpotNodes C s"
  shows "checkSpotCapacity E C s' = checkSpotCapacity E C s"
proof -
  have "availability E old_cm = availability E new_cm"
    using assms(1)
    by (auto simp: autoscaler_status_updated_def isClusterAutoscalerStatus_def spotAvailabilityChanged_def Let_def
        split: prod.splits)
  then show ?thesis
    using assms(2-4) by (auto simp: checkSpotCapacity_def availability_def split: sum.splits prod.splits)
qed

subsection \<open>Relevant Pod updates reach the WorkloadClasses concerned\<close>

text \<open>C18: The controller misses no Pod update that concerns it. If an update changes whether the Pod is
  active or whether a WorkloadClass governs it, or takes away the label with the Pod's UID, then a
  request reaches the WorkloadClass that is now the best match of the Pod and the one that owns the
  Pod's PDB (for selectors that do not look at the UID label, and with a handler that maps the new
  object of an update).\<close>

theorem pod_updates_noticed:
  assumes "runtime_law rt" "pod_namespace new_pod = pod_namespace old_pod"
    and "\<forall>w \<in> set wcs. label_blind E (wc_selector w)" "\<forall>b \<in> set user_pdbs. label_blind E (pdb_selector b)"
    and "IsPodActive (Some new_pod) \<noteq> IsPodActive (Some old_pod) \<or>
      governs E wc enforced wcs user_pdbs new_pod \<noteq> governs E wc enforced wcs user_pdbs old_pod \<or>
      map_get (pod_labels old_pod) PodUIDLabel = pod_uid old_pod \<and> map_get (pod_labels new_pod) PodUIDLabel \<noteq> pod_uid new_pod"
  shows "(\<forall>b ev. FindBestMatchWorkloadClass E C s False (Some new_pod) = Inr (Some b, ev) \<longrightarrow>
       (pod_namespace new_pod, wc_name b) \<in> workloadclass_watches rt E C s tr (PodEvent (Updated old_pod new_pod))) \<and>
    (\<forall>b owner. get_pdb C s (pod_namespace new_pod) (PDBName E (pod_name new_pod)) = Inr b \<longrightarrow>
       get_controller_of E (pdb_owners b) = Some owner \<longrightarrow> or_kind owner = ''WorkloadClass'' \<longrightarrow>
       (pod_namespace new_pod, or_name owner) \<in> workloadclass_watches rt E C s tr (PodEvent (Updated old_pod new_pod)))"
proof -
  have "pod_updated old_pod new_pod"
  proof (rule ccontr)
    assume no: "\<not> pod_updated old_pod new_pod"
    then show False
      using assms(5) pod_updated_False [OF no] ignored_update_governs [OF no assms(2-4), of wc enforced] by simp
  qed
  then have requests: "findWorkloadClassesForPod E C s new_pod \<subseteq> workloadclass_watches rt E C s tr (PodEvent (Updated old_pod new_pod))"
    using assms(1) by (auto simp: when_passes_def map_requests_def runtime_law_def intro!: bexI [of _ True])
  show ?thesis
    by (intro conjI allI impI; rule subsetD [OF requests]) (simp_all add: findWorkloadClassesForPod_def Let_def)
qed

text \<open>controller-runtime as documented: both objects of an update are mapped, the new one is filtered.\<close>

definition ref_runtime :: runtime where
  "ref_runtime = \<lparr>
     mapped_objects = (\<lambda>k. if k = UpdateEvent then [False, True] else [True]),
     filtered_object = (\<lambda>k. True),
     generation_passes = (\<lambda>ev. case ev of Updated a b \<Rightarrow> a \<noteq> b | _ \<Rightarrow> True),
     owner_requests = (\<lambda>ns refs. case ref_controller refs of None \<Rightarrow> [] | Some r \<Rightarrow> [(ns, or_name r)])\<rparr>"

lemma runtime_law_ref: "runtime_law ref_runtime"
  by code_simp

definition strayed_pod :: pod where
  "strayed_pod = sample_pod\<lparr>pod_labels := [''app'' \<mapsto> ''db'']\<rparr>"

lemma pod_updates_noticed_witness:
  "(''prod'', ''web'') \<in> workloadclass_watches ref_runtime ref_env ref_client (sample_cluster\<lparr>k_pdbs := [sample_pdb]\<rparr>) None
     (PodEvent (Updated sample_pod strayed_pod))"
proof -
  let ?s = "sample_cluster\<lparr>k_pdbs := [sample_pdb]\<rparr>"
  have blind: "\<forall>w \<in> set [sample_wc]. label_blind ref_env (wc_selector w)"
    using label_blind_selector_matches [OF selector_laws_ref_env, of sample_selector] by (simp add: sample_wc_def sample_spec_def sample_selector_def)
  have old_in: "governs ref_env sample_wc None [sample_wc] [] sample_pod"
    using sole_wc_governs sample_eligible
    by (simp add: governs_def IsPodCoveredByUserPDB_def BestMatchWorkloadClassForPod_def selectBest_fold
        IsPodActive_def sample_pod_def)
  have new_out: "\<not> governs ref_env sample_wc None [sample_wc] [] strayed_pod"
    by (simp add: governs_def BestMatchWorkloadClassForPod_def selectBestMatchFromList_def match_step_def initial_match_def
        strayed_pod_def samples ref_selector_def known_operators_def selector_matches_def)
  have names: "pod_namespace strayed_pod = ''prod''" "pod_namespace sample_pod = ''prod''" "pod_name strayed_pod = pod_name sample_pod"
    by (simp_all add: strayed_pod_def sample_pod_def)
  have pdb: "get_pdb ref_client ?s ''prod'' (PDBName ref_env (pod_name sample_pod)) = Inr sample_pdb"
    by (simp add: sample_pdb_def PDBBase_def sample_pod_def)
  have owner: "get_controller_of ref_env (pdb_owners sample_pdb) = Some sample_owner" "or_kind sample_owner = ''WorkloadClass''"
      "or_name sample_owner = ''web''"
    by (simp_all add: sample_pdb_def sample_owner_def ref_controller_def sample_wc_def)
  show ?thesis
    using pod_updates_noticed [of ref_runtime strayed_pod sample_pod "[sample_wc]" ref_env "[]" sample_wc None ref_client ?s None]
      runtime_law_ref blind old_in new_out names pdb owner by simp
qed

subsection \<open>What the placement controller does not notice\<close>

text \<open>\<open>podPlacementChangePredicate\<close> ignores label changes, although the Pods that count for the fallback
  state are selected by label: relabelling takes a fallback Pod away from its WorkloadClass unnoticed.\<close>

definition relabelled_pod :: pod where
  "relabelled_pod = spot_pod\<lparr>pod_labels := [''app'' \<mapsto> ''db'']\<rparr>"

lemma relabelling_unnoticed:
  "\<not> podPlacementChangePredicate (Updated spot_pod relabelled_pod) \<and>
   (case tracked_pods ref_env ref_client (spot_cluster spot_pod) spot_wc of Inr r \<Rightarrow> length (wp_fallback r) = 1 | _ \<Rightarrow> False) \<and>
   (case tracked_pods ref_env ref_client (spot_cluster relabelled_pod) spot_wc of Inr r \<Rightarrow> length (wp_fallback r) = 0 | _ \<Rightarrow> False)"
  by (intro conjI; code_simp)

end
