(* ===== verification/Manager.thy ===== *)
theory Manager
  imports Watches
begin

text \<open>
  \<open>cmd/main.go\<close>: the command-line flags with their defaults, the options of the two servers and of
  the manager that are computed from them, and the sequence of set-up steps, each of which may fail.
  A TLS option is the function on the \<open>NextProtos\<close> of a configuration that the code installs. Flag
  parsing, logging and the servers themselves belong to libraries and are not modelled.
\<close>

subsection \<open>Flags and options\<close>

record flags =
  fl_metrics_addr :: string
  fl_probe_addr :: string
  fl_leader_elect :: bool
  fl_secure_metrics :: bool
  fl_webhook_cert_path :: string
  fl_webhook_cert_name :: string
  fl_webhook_cert_key :: string
  fl_metrics_cert_path :: string
  fl_metrics_cert_name :: string
  fl_metrics_cert_key :: string
  fl_enable_http2 :: bool

definition default_flags :: flags where
  "default_flags = \<lparr>fl_metrics_addr = ''0'', fl_probe_addr = '':8081'', fl_leader_elect = False, fl_secure_metrics = True,
     fl_webhook_cert_path = '''', fl_webhook_cert_name = ''tls.crt'', fl_webhook_cert_key = ''tls.key'',
     fl_metrics_cert_path = '''', fl_metrics_cert_name = ''tls.crt'', fl_metrics_cert_key = ''tls.key'',
     fl_enable_http2 = False\<rparr>"

type_synonym tls_option = "string list \<Rightarrow> string list"

definition disableHTTP2 :: tls_option where
  "disableHTTP2 protos = [''http/1.1'']"

definition tlsOpts :: "flags \<Rightarrow> tls_option list" where
  "tlsOpts fl = (if \<not> fl_enable_http2 fl then [disableHTTP2] else [])"

record cert_options =
  co_dir :: string
  co_name :: string
  co_key :: string

definition no_certs :: cert_options where
  "no_certs = \<lparr>co_dir = '''', co_name = '''', co_key = ''''\<rparr>"

record webhook_options =
  wo_tls :: "tls_option list"
  wo_certs :: cert_options

definition webhookServerOptions :: "flags \<Rightarrow> webhook_options" where
  "webhookServerOptions fl =
     \<lparr>wo_tls = tlsOpts fl,
      wo_certs = (if length (fl_webhook_cert_path fl) > 0 then
          \<lparr>co_dir = fl_webhook_cert_path fl, co_name = fl_webhook_cert_name fl, co_key = fl_webhook_cert_key fl\<rparr>
        else no_certs)\<rparr>"

text \<open>\<open>mo_filter\<close>: whether the filter provider with authentication and authorization is installed.\<close>

record metrics_options =
  mo_bind :: string
  mo_secure :: bool
  mo_tls :: "tls_option list"
  mo_filter :: bool
  mo_certs :: cert_options

definition metricsServerOptions :: "flags \<Rightarrow> metrics_options" where
  "metricsServerOptions fl =
     \<lparr>mo_bind = fl_metrics_addr fl, mo_secure = fl_secure_metrics fl, mo_tls = tlsOpts fl,
      mo_filter = fl_secure_metrics fl,
      mo_certs = (if length (fl_metrics_cert_path fl) > 0 then
          \<lparr>co_dir = fl_metrics_cert_path fl, co_name = fl_metrics_cert_name fl, co_key = fl_metrics_cert_key fl\<rparr>
        else no_certs)\<rparr>"

text \<open>The ConfigMaps the manager caches: a namespace and an object name.\<close>

record manager_options =
  mg_metrics :: metrics_options
  mg_webhook :: webhook_options
  mg_probe :: string
  mg_leader_election :: bool
  mg_leader_id :: string
  mg_config_maps :: namespaced_name

definition managerOptions :: "flags \<Rightarrow> manager_options" where
  "managerOptions fl =
     \<lparr>mg_metrics = metricsServerOptions fl, mg_webhook = webhookServerOptions fl, mg_probe = fl_probe_addr fl,
      mg_leader_election = fl_leader_elect fl, mg_leader_id = ''63ace8e3.gke.io'',
      mg_config_maps = (ClusterAutoscalerStatusNamespace, ClusterAutoscalerStatusName)\<rparr>"

subsection \<open>Set-up\<close>

text \<open>The steps in their order; the two that run the lease protocol carry the tracker they share. The
  argument is the value of the environment variable \<open>ENABLE_WEBHOOKS\<close>.\<close>

datatype setup_step =
    NewManager manager_options
  | SetupWorkloadClass tracker
  | SetupGuardrail
  | RegisterDisruptionWebhook tracker
  | SetupGuardrailWebhook
  | SetupSpotPolicy
  | SetupSpotPlacement
  | SetupPodWebhook
  | AddHealthz
  | AddReadyz
  | StartManager

definition main_steps :: "flags \<Rightarrow> string \<Rightarrow> setup_step list" where
  "main_steps fl enable_webhooks =
     (let leaseTracker = NewPendingLeaseTracker DefaultPendingLeaseBufferSize
      in [NewManager (managerOptions fl), SetupWorkloadClass leaseTracker, SetupGuardrail, RegisterDisruptionWebhook leaseTracker] @
         (if enable_webhooks \<noteq> ''false'' then [SetupGuardrailWebhook] else []) @
         [SetupSpotPolicy, SetupSpotPlacement] @
         (if enable_webhooks \<noteq> ''false'' then [SetupPodWebhook] else []) @
         [AddHealthz, AddReadyz, StartManager])"

text \<open>Registering a handler returns no error; every other failure exits the process with status 1. The
  result is the steps that succeeded and the exit status.\<close>

fun can_fail :: "setup_step \<Rightarrow> bool" where
  "can_fail (RegisterDisruptionWebhook t) = False"
| "can_fail _ = True"

fun run_main :: "(setup_step \<Rightarrow> bool) \<Rightarrow> setup_step list \<Rightarrow> setup_step list \<times> int" where
  "run_main fails [] = ([], 0)"
| "run_main fails (x # xs) =
     (if can_fail x \<and> fails x then ([], 1)
      else let (done, code) = run_main fails xs in (x # done, code))"

lemma run_main_prefix: "\<exists>rest. xs = fst (run_main fails xs) @ rest"
  by (induction xs) (auto split: prod.split)

lemma run_main_exit: "snd (run_main fails xs) = 0 \<longleftrightarrow> (\<forall>x \<in> set xs. can_fail x \<longrightarrow> \<not> fails x)"
  by (induction xs) (auto split: prod.split)

lemma run_main_all: "snd (run_main fails xs) = 0 \<Longrightarrow> fst (run_main fails xs) = xs"
  by (induction xs) (auto split: prod.splits if_splits)

text \<open>The manager starts only after every other step has succeeded.\<close>

lemma run_main_last:
  assumes "x \<notin> set xs" "x \<in> set (fst (run_main fails (xs @ [x])))"
  shows "\<forall>y \<in> set xs. can_fail y \<longrightarrow> \<not> fails y"
  using assms by (induction xs) (auto split: prod.splits if_splits)

text \<open>The webhook and the controller of the lease protocol share one tracker, which has room for signals.\<close>

lemma main_shares_tracker:
  "\<exists>t. SetupWorkloadClass t \<in> set (main_steps fl e) \<and> RegisterDisruptionWebhook t \<in> set (main_steps fl e) \<and>
     tracker_ok t \<and> int (length (Events t)) < tr_capacity t"
  by (intro exI [of _ "NewPendingLeaseTracker DefaultPendingLeaseBufferSize"])
     (simp add: main_steps_def Let_def NewPendingLeaseTracker_def tracker_ok_def Events_def)

text \<open>Unless HTTP/2 is asked for, both servers offer HTTP/1.1 only.\<close>

lemma http1_only:
  assumes "\<not> fl_enable_http2 fl"
  shows "fold (\<lambda>f. f) (wo_tls (webhookServerOptions fl)) protos = [''http/1.1'']"
    "fold (\<lambda>f. f) (mo_tls (metricsServerOptions fl)) protos = [''http/1.1'']"
  using assms by (simp_all add: webhookServerOptions_def metricsServerOptions_def tlsOpts_def disableHTTP2_def)

end
