(* ===== verification/Pdb_Runs.thy ===== *)
theory Pdb_Runs
  imports Wc_Controller
begin

text \<open>
  What a reconciliation does to one stored PDB, as a step relation. \<open>pdb_step\<close> has one rule per way
  the controller writes a PDB (granting a lease, synchronising it, opening it, deleting it), with the
  condition under which \<open>workloadclass_controller.go\<close> does so; \<open>pdb_run\<close> is a sequence of such
  steps, and \<open>reconcilePDBs_run\<close> shows that every reconciliation, whatever fails in it, takes each
  PDB through such a run. Invariants of the stored PDBs are then proved by induction over runs: they
  stay well typed, PDBs of users are never touched, and the leases of a PDB follow the abstract lock
  \<open>lock_step\<close>.
\<close>

subsection \<open>The API server as a store of PDBs\<close>

type_synonym pdb_read = "api_error + pdb"

text \<open>A create-or-update of \<open>base\<close> by \<open>f\<close> that went through, as seen by a read before and after.\<close>

definition stored_by :: "pdb \<Rightarrow> (pdb \<Rightarrow> api_error + pdb) \<Rightarrow> pdb_read \<Rightarrow> pdb_read \<Rightarrow> bool" where
  "stored_by base f r r' =
     (\<exists>b0 b1 v u. (case r of Inr b \<Rightarrow> b0 = b | Inl e \<Rightarrow> is_not_found e \<and> b0 = base) \<and>
        f b0 = Inr b1 \<and> r' = Inr (b1\<lparr>pdb_version := v, pdb_uid := u\<rparr>))"

text \<open>What is relied on of the API server about PDBs: reads return the object of the key; writes of
  other kinds of object and of other keys are not seen; a write of the key, whatever it reports, left
  the object as it was or went through.\<close>

definition pdb_server_laws :: "'s client \<Rightarrow> bool" where
  "pdb_server_laws C =
     ((\<forall>s ns nm b. get_pdb C s ns nm = Inr b \<longrightarrow> pdb_namespace b = ns \<and> pdb_name b = nm) \<and>
      (\<forall>p ls s ns nm. get_pdb C (snd (patch_pod_labels C p ls s)) ns nm = get_pdb C s ns nm) \<and>
      (\<forall>w s ns nm. get_pdb C (snd (update_wc_status C w s)) ns nm = get_pdb C s ns nm) \<and>
      (\<forall>b s ns nm. get_pdb C (snd (delete_pdb C b s)) ns nm = get_pdb C s ns nm \<or>
         (ns, nm) = (pdb_namespace b, pdb_name b) \<and> (\<exists>e. get_pdb C (snd (delete_pdb C b s)) ns nm = Inl e)) \<and>
      (\<forall>base f s ns nm. keeps_key base f \<longrightarrow>
         get_pdb C (snd (create_or_update_pdb C base f s)) ns nm = get_pdb C s ns nm \<or>
         (ns, nm) = (pdb_namespace base, pdb_name base) \<and>
         stored_by base f (get_pdb C s ns nm) (get_pdb C (snd (create_or_update_pdb C base f s)) ns nm)))"

lemma pdb_server_lawsD:
  assumes "pdb_server_laws C"
  shows "get_pdb C s ns nm = Inr b \<Longrightarrow> pdb_namespace b = ns \<and> pdb_name b = nm"
    "get_pdb C (snd (patch_pod_labels C p ls s)) ns nm = get_pdb C s ns nm"
    "get_pdb C (snd (update_wc_status C w s)) ns nm = get_pdb C s ns nm"
    "get_pdb C (snd (delete_pdb C b s)) ns nm = get_pdb C s ns nm \<or>
       (ns, nm) = (pdb_namespace b, pdb_name b) \<and> (\<exists>e. get_pdb C (snd (delete_pdb C b s)) ns nm = Inl e)"
    "keeps_key base f \<Longrightarrow>
       get_pdb C (snd (create_or_update_pdb C base f s)) ns nm = get_pdb C s ns nm \<or>
       (ns, nm) = (pdb_namespace base, pdb_name base) \<and>
       stored_by base f (get_pdb C s ns nm) (get_pdb C (snd (create_or_update_pdb C base f s)) ns nm)"
proof -
  note laws = assms [unfolded pdb_server_laws_def]
  note l1 = laws [THEN conjunct2] and l2 = laws [THEN conjunct2, THEN conjunct2]
  note l3 = l2 [THEN conjunct2] and l4 = l2 [THEN conjunct2, THEN conjunct2]
  show "get_pdb C s ns nm = Inr b \<Longrightarrow> pdb_namespace b = ns \<and> pdb_name b = nm"
    using laws [THEN conjunct1] by simp
  show "get_pdb C (snd (patch_pod_labels C p ls s)) ns nm = get_pdb C s ns nm"
    by (rule l1 [THEN conjunct1, rule_format])
  show "get_pdb C (snd (update_wc_status C w s)) ns nm = get_pdb C s ns nm"
    by (rule l2 [THEN conjunct1, rule_format])
  show "get_pdb C (snd (delete_pdb C b s)) ns nm = get_pdb C s ns nm \<or>
       (ns, nm) = (pdb_namespace b, pdb_name b) \<and> (\<exists>e. get_pdb C (snd (delete_pdb C b s)) ns nm = Inl e)"
    by (rule l3 [THEN conjunct1, rule_format])
  show "keeps_key base f \<Longrightarrow>
       get_pdb C (snd (create_or_update_pdb C base f s)) ns nm = get_pdb C s ns nm \<or>
       (ns, nm) = (pdb_namespace base, pdb_name base) \<and>
       stored_by base f (get_pdb C s ns nm) (get_pdb C (snd (create_or_update_pdb C base f s)) ns nm)"
    by (rule l4 [rule_format])
qed

lemma find_pdb_replace_other:
  "(ns, nm) \<noteq> (pdb_namespace b, pdb_name b) \<Longrightarrow>
   find (\<lambda>x. pdb_namespace x = ns \<and> pdb_name x = nm) (replace_by same_pdb b xs) =
   find (\<lambda>x. pdb_namespace x = ns \<and> pdb_name x = nm) xs"
  unfolding replace_by_def by (induction xs) (auto simp: same_pdb_def)

lemma find_pdb_deleted:
  "find (\<lambda>x. pdb_namespace x = pdb_namespace b \<and> pdb_name x = pdb_name b) (filter (\<lambda>x. \<not> same_pdb b x) xs) = None"
  by (auto simp: find_None_iff same_pdb_def)

text \<open>A create-or-update of the reference client that reports no error is one of the store laws.\<close>

lemma ref_upsert_stored:
  assumes "keeps_key base f"
  shows "get_pdb ref_client (snd (ref_upsert base f s)) ns nm = get_pdb ref_client s ns nm \<or>
    (ns, nm) = (pdb_namespace base, pdb_name base) \<and>
    stored_by base f (get_pdb ref_client s ns nm) (get_pdb ref_client (snd (ref_upsert base f s)) ns nm)"
proof (cases "(ns, nm) = (pdb_namespace base, pdb_name base)")
  case True
  obtain r s' where up: "ref_upsert base f s = (r, s')" by (cases "ref_upsert base f s")
  show ?thesis
  proof (cases r)
    case None
    then have "create_or_update_pdb ref_client base f s = (None, s')" using up by simp
    then show ?thesis
      using pdb_store_laws_ref [unfolded pdb_store_laws_def, THEN conjunct2] assms True up
      unfolding stored_by_def by (metis Pair_inject snd_conv)
  next
    case (Some e)
    then have "s' = s" using up by (auto simp: ref_upsert_def split: option.splits sum.splits)
    then show ?thesis using up by simp
  qed
next
  case False
  have other: "(ns, nm) \<noteq> (pdb_namespace b1, pdb_name b1)" if "f x = Inr b1" "same_pdb base x" for x b1
  proof -
    have "same_pdb base b1" using assms that unfolding keeps_key_def by blast
    then show ?thesis using False by (simp add: same_pdb_def)
  qed
  show ?thesis
  proof (cases "find (same_pdb base) (k_pdbs s)")
    case None
    then show ?thesis
      using other [of base] same_pdb_refl by (auto simp: ref_upsert_def find_snoc split: sum.split option.split)
  next
    case (Some x)
    have x: "same_pdb base x" using find_SomeD [OF Some] by simp
    show ?thesis
    proof (cases "f x")
      case (Inr b1)
      show ?thesis
        using find_pdb_replace_other [OF other [OF Inr x]] by (simp add: ref_upsert_def Some Inr)
    qed (simp add: ref_upsert_def Some)
  qed
qed

lemma pdb_server_laws_ref: "pdb_server_laws ref_client"
proof -
  have read: "\<forall>s ns nm b. get_pdb ref_client s ns nm = Inr b \<longrightarrow> pdb_namespace b = ns \<and> pdb_name b = nm"
    using pdb_store_laws_ref unfolding pdb_store_laws_def by (rule conjunct1)
  have delete: "get_pdb ref_client (snd (delete_pdb ref_client b s)) ns nm = get_pdb ref_client s ns nm \<or>
         (ns, nm) = (pdb_namespace b, pdb_name b) \<and> (\<exists>e. get_pdb ref_client (snd (delete_pdb ref_client b s)) ns nm = Inl e)"
    for b s ns nm
  proof (cases "(ns, nm) = (pdb_namespace b, pdb_name b)")
    case True
    then show ?thesis using find_pdb_deleted by auto
  next
    case False
    then show ?thesis using delete_law_ref unfolding delete_law_def by blast
  qed
  have up: "keeps_key base f \<Longrightarrow>
         get_pdb ref_client (snd (create_or_update_pdb ref_client base f s)) ns nm = get_pdb ref_client s ns nm \<or>
         (ns, nm) = (pdb_namespace base, pdb_name base) \<and>
         stored_by base f (get_pdb ref_client s ns nm) (get_pdb ref_client (snd (create_or_update_pdb ref_client base f s)) ns nm)"
    for base f s ns nm
    using ref_upsert_stored by simp
  show ?thesis
    unfolding pdb_server_laws_def
    by (intro conjI allI impI read [rule_format] delete up) simp_all
qed

subsection \<open>Steps and runs\<close>

datatype pdb_event = Granted pod subject | Synced pod | Opened pod | Removed

text \<open>What \<open>reconcilePodPDB\<close> makes of the read of the PDB; it gives up on other errors than not-found.\<close>

definition existing_of :: "pdb_read \<Rightarrow> pdb option option" where
  "existing_of r = (case r of Inr b \<Rightarrow> Some (Some b) | Inl e \<Rightarrow> if is_not_found e then Some None else None)"

inductive pdb_step ::
  "env \<Rightarrow> go_time \<Rightarrow> workload_class \<Rightarrow> (string \<rightharpoonup> pending_lease) \<Rightarrow> pdb_event \<Rightarrow> pdb_read \<Rightarrow> pdb_read \<Rightarrow> bool"
  for E :: env and now :: go_time and wc :: workload_class and leases :: "string \<rightharpoonup> pending_lease" where
  grant: "existing_of r = Some existing \<Longrightarrow> choose_action E now p existing leases = GrantLease sub \<Longrightarrow>
    stored_by (PDBBase E (Some p)) (lease_mutate E now wc p sub) r r' \<Longrightarrow> pdb_step E now wc leases (Granted p sub) r r'"
| resync: "existing_of r = Some existing \<Longrightarrow> choose_action E now p existing leases = Resync \<Longrightarrow>
    stored_by (PDBBase E (Some p)) (sync_mutate E wc p True) r r' \<Longrightarrow> pdb_step E now wc leases (Synced p) r r'"
| reopen: "stored_by (PDBBase E (Some p)) (sync_mutate E wc p False) r r' \<Longrightarrow> pdb_step E now wc leases (Opened p) r r'"
| remove: "is_controlled_by E (pdb_owners b) (wc_uid wc) \<Longrightarrow> pdb_step E now wc leases Removed (Inr b) (Inl e)"

inductive_cases pdb_step_GrantedE: "pdb_step E now wc leases (Granted p sub) r r'"
inductive_cases pdb_step_SyncedE: "pdb_step E now wc leases (Synced p) r r'"
inductive_cases pdb_step_OpenedE: "pdb_step E now wc leases (Opened p) r r'"
inductive_cases pdb_step_RemovedE: "pdb_step E now wc leases Removed r r'"

inductive pdb_run ::
  "env \<Rightarrow> go_time \<Rightarrow> workload_class \<Rightarrow> (string \<rightharpoonup> pending_lease) \<Rightarrow> pdb_event list \<Rightarrow> pdb_read \<Rightarrow> pdb_read \<Rightarrow> bool"
  for E :: env and now :: go_time and wc :: workload_class and leases :: "string \<rightharpoonup> pending_lease" where
  stop [intro!, simp]: "pdb_run E now wc leases [] r r"
| more: "pdb_step E now wc leases e r r1 \<Longrightarrow> pdb_run E now wc leases es r1 r2 \<Longrightarrow> pdb_run E now wc leases (e # es) r r2"

inductive_simps pdb_run_simps: "pdb_run E now wc leases [] r r'" "pdb_run E now wc leases (e # es) r r'"

lemma pdb_run_step: "pdb_step E now wc leases e r r' \<Longrightarrow> pdb_run E now wc leases [e] r r'"
  by (auto simp: pdb_run_simps)

lemma pdb_run_append:
  "pdb_run E now wc leases es r r1 \<Longrightarrow> pdb_run E now wc leases es' r1 r2 \<Longrightarrow> pdb_run E now wc leases (es @ es') r r2"
  by (induction rule: pdb_run.induct) (auto intro: pdb_run.more)

text \<open>Some run with events of a set only: what the operations below do to the PDB of one key.\<close>

definition pdb_runs_in ::
  "env \<Rightarrow> go_time \<Rightarrow> workload_class \<Rightarrow> (string \<rightharpoonup> pending_lease) \<Rightarrow> pdb_event set \<Rightarrow> pdb_read \<Rightarrow> pdb_read \<Rightarrow> bool" where
  "pdb_runs_in E now wc leases A r r' = (\<exists>es. pdb_run E now wc leases es r r' \<and> set es \<subseteq> A)"

named_theorems runs_intros \<open>introduction rules for runs of PDB steps\<close>

lemma pdb_runs_stop [runs_intros]: "pdb_runs_in E now wc leases A r r"
  unfolding pdb_runs_in_def by (intro exI [of _ "[]"]) simp

lemma pdb_runs_step: "pdb_step E now wc leases e r r' \<Longrightarrow> e \<in> A \<Longrightarrow> pdb_runs_in E now wc leases A r r'"
  unfolding pdb_runs_in_def by (intro exI [of _ "[e]"]) (simp add: pdb_run_step)

lemma pdb_runs_trans:
  "pdb_runs_in E now wc leases A r r1 \<Longrightarrow> pdb_runs_in E now wc leases A r1 r2 \<Longrightarrow> pdb_runs_in E now wc leases A r r2"
  unfolding pdb_runs_in_def by (metis Un_least pdb_run_append set_append)

lemma pdb_runs_mono: "pdb_runs_in E now wc leases A r r' \<Longrightarrow> A \<subseteq> B \<Longrightarrow> pdb_runs_in E now wc leases B r r'"
  unfolding pdb_runs_in_def by blast

text \<open>A relation between reads that is reflexive, transitive and contains the steps contains the runs.\<close>

lemma pdb_runs_induct:
  assumes "pdb_runs_in E now wc leases A r r'" "\<And>r. R r r" "\<And>r r1 r2. R r r1 \<Longrightarrow> R r1 r2 \<Longrightarrow> R r r2"
    and "\<And>e r r'. e \<in> A \<Longrightarrow> pdb_step E now wc leases e r r' \<Longrightarrow> R r r'"
  shows "R r r'"
proof -
  obtain es where "pdb_run E now wc leases es r r'" "set es \<subseteq> A"
    using assms(1) unfolding pdb_runs_in_def by blast
  then show ?thesis
  proof (induction rule: pdb_run.induct)
    case (stop r)
    show ?case by (rule assms(2))
  next
    case (more e r r1 es r2)
    then have "R r r1" "R r1 r2" using assms(4) [of e r r1] by simp_all
    then show ?case by (rule assms(3))
  qed
qed

lemma sync_mutate_keeps_key: "keeps_key (PDBBase E (Some p)) (sync_mutate E wc p v)"
  unfolding keeps_key_def
proof (intro allI impI)
  fix x y
  assume same: "same_pdb (PDBBase E (Some p)) x" and "sync_mutate E wc p v x = Inr y"
  then obtain b1 where b1: "claimPDB E wc x = Inr b1" "SyncPDBWithWorkloadClass E (Some wc) (Some p) (Some b1) v = Inr y"
    by (auto simp: sync_mutate_def bind_result_Inr_iff)
  then show "same_pdb (PDBBase E (Some p)) y"
    using same claimPDB_Inr [OF b1(1)] SyncPDB_result [OF b1(2)] by (auto simp: same_pdb_def scope_pdb_def)
qed

subsection \<open>Reconciliations are runs\<close>

abbreviation pdb_key :: "env \<Rightarrow> pod \<Rightarrow> namespaced_name" where
  "pdb_key E p \<equiv> (pod_namespace p, PDBName E (pod_name p))"

lemma with_uid_label_simps [simp]:
  "pod_name (with_uid_label p) = pod_name p" "pod_uid (with_uid_label p) = pod_uid p"
  "pod_namespace (with_uid_label p) = pod_namespace p" "wanted_lease leases (with_uid_label p) = wanted_lease leases p"
  "LeaseDurationForPod (Some (with_uid_label p)) = LeaseDurationForPod (Some p)"
  by (simp_all add: with_uid_label_def wanted_lease_def LeaseDurationForPod_def split: option.split)

text \<open>The events a Pod may cause on the PDB of a key when it is reconciled: \<open>ensurePodUIDLabel\<close> may
  have labelled the Pod first, and a lease is only granted to the subject waiting for the instance.\<close>

definition pod_events :: "env \<Rightarrow> (string \<rightharpoonup> pending_lease) \<Rightarrow> namespaced_name \<Rightarrow> pod \<Rightarrow> pdb_event set" where
  "pod_events E leases k p =
     {e. k = pdb_key E p \<and> (\<exists>q. (q = p \<or> q = with_uid_label p) \<and>
        (e = Synced q \<or> (\<exists>sub. e = Granted q sub \<and> wanted_lease leases q = Some sub)))}"

lemma choose_action_granted:
  "choose_action E now p existing leases = GrantLease sub \<Longrightarrow> wanted_lease leases p = Some sub"
  by (auto simp: choose_action_cases split: option.splits if_splits)

lemma ensurePodUIDLabel_result:
  assumes "pdb_server_laws C" "ensurePodUIDLabel C p s = (r, s1)"
  shows "get_pdb C s1 ns nm = get_pdb C s ns nm" "r = Inr q \<Longrightarrow> q = p \<or> q = with_uid_label p"
  using assms(2) pdb_server_lawsD(2) [OF assms(1), of p "pod_labels (with_uid_label p)" s ns nm]
  by (auto simp: ensurePodUIDLabel_def split: if_splits prod.splits option.splits)

lemma leasePodPDB_runs [runs_intros]:
  assumes "pdb_server_laws C" "existing_of (get_pdb C s (pod_namespace p) (PDBName E (pod_name p))) = Some existing"
    and "choose_action E now p existing leases = GrantLease sub"
    and "leasePodPDB E C now wc p sub s = (r, s')" "(ns, nm) = pdb_key E p \<Longrightarrow> Granted p sub \<in> A"
  shows "pdb_runs_in E now wc leases A (get_pdb C s ns nm) (get_pdb C s' ns nm)"
proof -
  have "s' = snd (create_or_update_pdb C (PDBBase E (Some p)) (lease_mutate E now wc p sub) s)"
    using assms(4) by (auto simp: leasePodPDB_def split: prod.splits option.splits)
  then consider "get_pdb C s' ns nm = get_pdb C s ns nm" | "(ns, nm) = pdb_key E p"
      "stored_by (PDBBase E (Some p)) (lease_mutate E now wc p sub) (get_pdb C s ns nm) (get_pdb C s' ns nm)"
    using pdb_server_lawsD(5) [OF assms(1) lease_mutate_keeps_key [of E p now wc sub], of s ns nm]
    unfolding PDBBase_key by metis
  then show ?thesis
  proof cases
    case 2
    have "pdb_step E now wc leases (Granted p sub) (get_pdb C s ns nm) (get_pdb C s' ns nm)"
      by (rule pdb_step.grant [OF _ assms(3) 2(2)]) (use assms(2) 2(1) in simp)
    then show ?thesis using assms(5) 2(1) by (simp add: pdb_runs_step)
  qed (simp add: runs_intros)
qed

lemma syncPodPDB_runs [runs_intros]:
  assumes "pdb_server_laws C" "syncPodPDB E C wc p v s = (r, s')"
    and "\<And>r r'. (ns, nm) = pdb_key E p \<Longrightarrow> r = get_pdb C s ns nm \<Longrightarrow>
      stored_by (PDBBase E (Some p)) (sync_mutate E wc p v) r r' \<Longrightarrow> pdb_runs_in E now wc leases A r r'"
  shows "pdb_runs_in E now wc leases A (get_pdb C s ns nm) (get_pdb C s' ns nm)"
proof -
  have "s' = snd (create_or_update_pdb C (PDBBase E (Some p)) (sync_mutate E wc p v) s)"
    using assms(2) by (auto simp: syncPodPDB_def split: prod.splits option.splits)
  then consider "get_pdb C s' ns nm = get_pdb C s ns nm" | "(ns, nm) = pdb_key E p"
      "stored_by (PDBBase E (Some p)) (sync_mutate E wc p v) (get_pdb C s ns nm) (get_pdb C s' ns nm)"
    using pdb_server_lawsD(5) [OF assms(1) sync_mutate_keeps_key [of E p wc v], of s ns nm]
    unfolding PDBBase_key by metis
  then show ?thesis
    by cases (use assms(3) in \<open>auto intro: runs_intros\<close>)
qed

lemma reconcilePodPDB_runs:
  assumes "pdb_server_laws C" "reconcilePodPDB E C now wc p leases s = (r, s')"
  shows "pdb_runs_in E now wc leases (pod_events E leases (ns, nm) p) (get_pdb C s ns nm) (get_pdb C s' ns nm)"
proof -
  obtain r1 s1 where label: "ensurePodUIDLabel C p s = (r1, s1)" by (cases "ensurePodUIDLabel C p s")
  note unlabelled = ensurePodUIDLabel_result(1) [OF assms(1) label, symmetric]
  show ?thesis
  proof (cases r1)
    case (Inl e)
    then show ?thesis
      using assms(2) label unlabelled by (auto simp: reconcilePodPDB_def intro: runs_intros)
  next
    case (Inr q)
    then have q: "q = p \<or> q = with_uid_label p" using ensurePodUIDLabel_result(2) [OF assms(1) label] by blast
    let ?read = "get_pdb C s1 (pod_namespace q) (PDBName E (pod_name q))"
    have key: "pdb_key E q = pdb_key E p" using q by auto
    show ?thesis
    proof (cases "existing_of ?read")
      case None
      then have "s' = s1"
        using assms(2) label Inr by (auto simp: reconcilePodPDB_def existing_of_def split: sum.splits if_splits)
      then show ?thesis by (simp add: unlabelled runs_intros)
    next
      case (Some existing)
      then have read: "(case ?read of Inl err \<Rightarrow> if \<not> is_not_found err
            then Inl (wrap_error (''failed to get PDB for Pod '' @ pod_name q @ '': '') err) else Inr None
          | Inr b \<Rightarrow> Inr (Some b)) = Inr existing"
        by (auto simp: existing_of_def split: sum.splits if_splits)
      show ?thesis
      proof (cases "choose_action E now q existing leases")
        case (KeepLease d)
        then have "s' = s1" using assms(2) label Inr read by (simp add: reconcilePodPDB_def)
        then show ?thesis by (simp add: unlabelled runs_intros)
      next
        case (GrantLease sub)
        then have "s' = snd (leasePodPDB E C now wc q sub s1)"
          using assms(2) label Inr read by (auto simp: reconcilePodPDB_def split: prod.splits option.splits)
        then have lease: "leasePodPDB E C now wc q sub s1 = (fst (leasePodPDB E C now wc q sub s1), s')" by simp
        show ?thesis
          unfolding unlabelled
          by (rule leasePodPDB_runs [OF assms(1) Some GrantLease lease])
             (use q choose_action_granted [OF GrantLease] in \<open>auto simp: pod_events_def\<close>)
      next
        case Resync
        then have "s' = snd (syncPodPDB E C wc q True s1)"
          using assms(2) label Inr read by (auto simp: reconcilePodPDB_def split: prod.splits option.splits)
        then have sync: "syncPodPDB E C wc q True s1 = (fst (syncPodPDB E C wc q True s1), s')" by simp
        show ?thesis
          unfolding unlabelled
        proof (rule syncPodPDB_runs [OF assms(1) sync])
          fix r r'
          assume r: "(ns, nm) = pdb_key E q" "r = get_pdb C s1 ns nm"
            "stored_by (PDBBase E (Some q)) (sync_mutate E wc q True) r r'"
          then have "pdb_step E now wc leases (Synced q) r r'"
            using Some Resync by (auto intro: pdb_step.resync)
          then show "pdb_runs_in E now wc leases (pod_events E leases (ns, nm) p) r r'"
            using q r(1) by (auto simp: pod_events_def intro: pdb_runs_step)
        qed
      qed
    qed
  qed
qed

text \<open>A loop whose every step is a run is a run.\<close>

lemma pdb_runs_fold:
  assumes "\<And>x acc. x \<in> set xs \<Longrightarrow> pdb_runs_in E now wc leases A (v (st acc)) (v (st (f x acc)))"
  shows "pdb_runs_in E now wc leases A (v (st acc)) (v (st (fold f xs acc)))"
  using assms
proof (induction xs arbitrary: acc)
  case Nil
  show ?case by (simp add: runs_intros)
next
  case (Cons x xs)
  have "pdb_runs_in E now wc leases A (v (st acc)) (v (st (f x acc)))" using Cons.prems by simp
  moreover have "pdb_runs_in E now wc leases A (v (st (f x acc))) (v (st (fold f xs (f x acc))))"
    using Cons by simp
  ultimately show ?case using pdb_runs_trans by auto
qed

lemma governed_fold_runs:
  fixes C :: "'a client"
  assumes "pdb_server_laws C"
  shows "pdb_runs_in E now wc leases (\<Union>p \<in> set ps. pod_events E leases (ns, nm) p)
    (get_pdb C (lo_state acc) ns nm) (get_pdb C (lo_state (fold (governed_step E C now wc leases) ps acc)) ns nm)"
proof (rule pdb_runs_fold [where v = "\<lambda>s. get_pdb C s ns nm"])
  fix p and acc :: "'a pdb_loop"
  assume p: "p \<in> set ps"
  obtain r s' where rec: "reconcilePodPDB E C now wc p leases (lo_state acc) = (r, s')"
    by (cases "reconcilePodPDB E C now wc p leases (lo_state acc)")
  then have state: "lo_state (governed_step E C now wc leases p acc) = s'"
    by (simp add: governed_step_def split: sum.split)
  show "pdb_runs_in E now wc leases (\<Union>p \<in> set ps. pod_events E leases (ns, nm) p)
    (get_pdb C (lo_state acc) ns nm) (get_pdb C (lo_state (governed_step E C now wc leases p acc)) ns nm)"
    unfolding state by (rule pdb_runs_mono [OF reconcilePodPDB_runs [OF assms rec]]) (use p in blast)
qed

lemma deletePDB_runs:
  assumes "pdb_server_laws C" "deletePDB E C wc b s = (r, s')" "(ns, nm) = (pdb_namespace b, pdb_name b) \<Longrightarrow> Removed \<in> A"
  shows "pdb_runs_in E now wc leases A (get_pdb C s ns nm) (get_pdb C s' ns nm)"
proof (cases "get_pdb C s (pdb_namespace b) (pdb_name b)")
  case (Inl err)
  then show ?thesis using assms(2) by (simp add: deletePDB_def runs_intros)
next
  case (Inr current)
  then have key: "pdb_namespace current = pdb_namespace b" "pdb_name current = pdb_name b"
    using pdb_server_lawsD(1) [OF assms(1)] by blast+
  show ?thesis
  proof (cases "is_controlled_by E (pdb_owners current) (wc_uid wc)")
    case True
    then have "s' = snd (delete_pdb C current s)"
      using assms(2) Inr by (auto simp: deletePDB_def split: prod.splits option.splits if_splits)
    then consider "get_pdb C s' ns nm = get_pdb C s ns nm"
      | e where "(ns, nm) = (pdb_namespace b, pdb_name b)" "get_pdb C s' ns nm = Inl e"
      using pdb_server_lawsD(4) [OF assms(1), of current s ns nm] key by metis
    then show ?thesis
    proof cases
      case (2 e)
      then have "pdb_step E now wc leases Removed (get_pdb C s ns nm) (get_pdb C s' ns nm)"
        using Inr True by (simp add: pdb_step.remove)
      then show ?thesis using 2(1) assms(3) by (simp add: pdb_runs_step)
    qed (simp add: runs_intros)
  next
    case False
    then show ?thesis using assms(2) Inr by (simp add: deletePDB_def runs_intros)
  qed
qed

lemma owned_fold_runs:
  fixes C :: "'a client"
  assumes "pdb_server_laws C" "nm \<notin> names \<Longrightarrow> Removed \<in> A"
  shows "pdb_runs_in E now wc leases A
    (get_pdb C (lo_state acc) ns nm)
    (get_pdb C (lo_state (fold (owned_step E C wc enforced wcs user_pdbs g names) bs acc)) ns nm)"
proof (rule pdb_runs_fold [where v = "\<lambda>s. get_pdb C s ns nm"])
  fix b and acc :: "'a pdb_loop"
  obtain r s' where del: "deletePDB E C wc b (lo_state acc) = (r, s')" by (cases "deletePDB E C wc b (lo_state acc)")
  show "pdb_runs_in E now wc leases A (get_pdb C (lo_state acc) ns nm)
    (get_pdb C (lo_state (owned_step E C wc enforced wcs user_pdbs g names b acc)) ns nm)"
  proof (cases "pdb_name b \<in> names")
    case False
    then have "pdb_runs_in E now wc leases A (get_pdb C (lo_state acc) ns nm) (get_pdb C s' ns nm)"
      using deletePDB_runs [OF assms(1) del, of ns nm A now leases] assms(2) by simp
    then show ?thesis
      using del by (auto simp: owned_step_def runs_intros split: sum.split)
  qed (simp add: owned_step_def runs_intros)
qed

lemma openOwnedPDBs_runs:
  assumes "pdb_server_laws C" "openOwnedPDBs E C wc owned user_pdbs s = (r, s')"
  shows "pdb_runs_in E now wc leases ({Removed} \<union> range Opened) (get_pdb C s ns nm) (get_pdb C s' ns nm)"
proof -
  have "pdb_runs_in E now wc leases ({Removed} \<union> range Opened) (get_pdb C (snd acc) ns nm)
      (get_pdb C (snd (open_owned_step E C wc user_pdbs b acc)) ns nm)" for b acc
  proof -
    obtain es t where acc: "acc = (es, t)" by (cases acc)
    have del: "pdb_runs_in E now wc leases ({Removed} \<union> range Opened) (get_pdb C t ns nm)
        (get_pdb C (snd (deletePDB E C wc b t)) ns nm)"
      by (rule deletePDB_runs [OF assms(1) surjective_pairing]) simp
    have sync: "pdb_runs_in E now wc leases ({Removed} \<union> range Opened) (get_pdb C t ns nm)
        (get_pdb C (snd (syncPodPDB E C wc p False t)) ns nm)" for p
      by (rule syncPodPDB_runs [OF assms(1) surjective_pairing]) (rule pdb_runs_step [OF pdb_step.reopen], assumption, simp)
    show ?thesis
    proof (cases "getPodForPDB E C t (wc_namespace wc) b")
      case (Inl err)
      then show ?thesis by (simp add: acc open_owned_step_def runs_intros)
    next
      case (Inr p_opt)
      then show ?thesis
        using del sync by (cases p_opt) (simp_all add: acc open_owned_step_def case_prod_beta Let_def)
    qed
  qed
  from pdb_runs_fold [where v = "\<lambda>s. get_pdb C s ns nm" and st = snd and f = "open_owned_step E C wc user_pdbs", OF this]
  have "pdb_runs_in E now wc leases ({Removed} \<union> range Opened) (get_pdb C s ns nm)
      (get_pdb C (snd (fold (open_owned_step E C wc user_pdbs) owned ([], s))) ns nm)"
    by (metis snd_conv)
  moreover have "s' = snd (fold (open_owned_step E C wc user_pdbs) owned ([], s))"
    using assms(2) by (simp add: openOwnedPDBs_def case_prod_beta)
  ultimately show ?thesis by simp
qed

text \<open>Whom the WorkloadClass governs, as \<open>reconcilePDBs\<close> works it out.\<close>

definition governed_by :: "env \<Rightarrow> 's client \<Rightarrow> 's \<Rightarrow> workload_class \<Rightarrow> pod list option" where
  "governed_by E C s wc =
     (case list_pdbs C s (wc_namespace wc) of
        Inl e \<Rightarrow> None
      | Inr pdbs \<Rightarrow> (case governance E C s wc (user_pdbs_of E wc pdbs) of
            Inl e \<Rightarrow> None | Inr (enforced, wcs, governed) \<Rightarrow> Some governed))"

text \<open>The events a reconciliation may cause on the PDB of a key.\<close>

definition reconcile_events ::
  "env \<Rightarrow> 's client \<Rightarrow> 's \<Rightarrow> workload_class \<Rightarrow> condition \<Rightarrow> bool \<Rightarrow> pending_lease list \<Rightarrow> namespaced_name \<Rightarrow> pdb_event set" where
  "reconcile_events E C s wc cond g pending k =
     (if \<not> time_unset (wc_deletion wc) then {}
      else if \<not> protectsPods (c_reason cond) g then {Removed} \<union> range Opened
      else case governed_by E C s wc of
          None \<Rightarrow> {}
        | Some governed \<Rightarrow> (\<Union>p \<in> set governed. pod_events E (lease_map pending) k p) \<union>
            (if \<exists>p \<in> set governed. PDBName E (pod_name p) = snd k then {} else {Removed}))"

lemma reconcilePDBs_runs:
  assumes "pdb_server_laws C" "reconcilePDBs E C now wc cond g pending s tr = (r, s', tr')"
  shows "pdb_runs_in E now wc (lease_map pending) (reconcile_events E C s wc cond g pending (ns, nm))
    (get_pdb C s ns nm) (get_pdb C s' ns nm)"
proof (cases "time_unset (wc_deletion wc)")
  case False
  then show ?thesis using assms(2) by (simp add: reconcilePDBs_def runs_intros)
next
  case unset: True
  show ?thesis
  proof (cases "list_pdbs C s (wc_namespace wc)")
    case (Inl err)
    then show ?thesis using assms(2) unset by (simp add: reconcilePDBs_def runs_intros)
  next
    case (Inr pdbs)
    let ?user = "user_pdbs_of E wc pdbs" and ?owned = "owned_pdbs E wc pdbs"
    show ?thesis
    proof (cases "protectsPods (c_reason cond) g")
      case False
      obtain e t where opened: "openOwnedPDBs E C wc ?owned ?user s = (e, t)" by (cases "openOwnedPDBs E C wc ?owned ?user s")
      then have "s' = t" using assms(2) unset Inr False by (simp add: reconcilePDBs_def Let_def)
      then show ?thesis
        using openOwnedPDBs_runs [OF assms(1) opened] unset False by (simp add: reconcile_events_def)
    next
      case True
      show ?thesis
      proof (cases "governance E C s wc ?user")
        case (Inl err)
        then show ?thesis using assms(2) unset True Inr by (simp add: reconcilePDBs_def runs_intros)
      next
        case gov: (Inr x)
        obtain enforced wcs governed where x: "x = (enforced, wcs, governed)" by (metis prod_cases3)
        let ?l0 = "loop_start s tr" and ?names = "set (map (\<lambda>p. PDBName E (pod_name p)) governed)"
        let ?l1 = "fold (governed_step E C now wc (lease_map pending)) governed ?l0"
        let ?l2 = "fold (owned_step E C wc enforced wcs ?user g ?names) ?owned ?l1"
        let ?A = "reconcile_events E C s wc cond g pending (ns, nm)"
        have s': "s' = lo_state ?l2" "lo_state ?l0 = s"
          using assms(2) unset True Inr gov x by (simp_all add: reconcilePDBs_def Let_def loop_start_def)
        have A: "?A = (\<Union>p \<in> set governed. pod_events E (lease_map pending) (ns, nm) p) \<union>
            (if nm \<in> ?names then {} else {Removed})"
          using unset True Inr gov x by (auto simp: reconcile_events_def governed_by_def)
        have "pdb_runs_in E now wc (lease_map pending) ?A (get_pdb C (lo_state ?l0) ns nm) (get_pdb C (lo_state ?l1) ns nm)"
          by (rule pdb_runs_mono [OF governed_fold_runs [OF assms(1)]]) (simp add: A)
        moreover have "pdb_runs_in E now wc (lease_map pending) ?A (get_pdb C (lo_state ?l1) ns nm) (get_pdb C (lo_state ?l2) ns nm)"
          by (rule owned_fold_runs [OF assms(1)]) (simp add: A)
        ultimately show ?thesis unfolding s' by (rule pdb_runs_trans)
      qed
    qed
  qed
qed

subsection \<open>The whole reconciler\<close>

text \<open>What \<open>Reconcile\<close> does before it drains the tracker: the WorkloadClass with its new status, the
  Validated condition, whether there are guardrails, the delay until the next reconciliation and the
  cluster after the status was written, or nothing when it stops earlier.\<close>

definition status_phase ::
  "env \<Rightarrow> 's client \<Rightarrow> go_time \<Rightarrow> namespaced_name \<Rightarrow> 's \<Rightarrow> (workload_class \<times> condition \<times> bool \<times> duration \<times> 's) option" where
  "status_phase E C now req s =
     (case get_wc C s (fst req) (snd req) of Inl e \<Rightarrow> None | Inr wc \<Rightarrow>
     (case list_guardrails C s of Inl e \<Rightarrow> None | Inr gs \<Rightarrow>
     (case overlappingWorkloadClasses E C s wc of Inl e \<Rightarrow> None | Inr ov \<Rightarrow>
        let (v, wc1, changed) = validated_status E now wc gs ov
        in case calculateReadiness E C s now wc1 of Inl e \<Rightarrow> None | Inr (readiness, d) \<Rightarrow>
             let wc2 = with_readiness wc1 readiness;
                 (err, s1) = (if wc_readiness wc1 \<noteq> readiness \<or> changed then update_wc_status C wc2 s else (None, s))
             in case err of Some e \<Rightarrow> None | None \<Rightarrow> Some (wc2, v, gs \<noteq> [], d, s1))))"

lemma status_phase_pdbs:
  assumes "pdb_server_laws C" "status_phase E C now req s = Some (wc, v, g, d, s1)"
  shows "get_pdb C s1 ns nm = get_pdb C s ns nm"
  using assms(2) pdb_server_lawsD(3) [OF assms(1), of _ s ns nm]
  by (auto simp: status_phase_def Let_def split: sum.splits prod.splits option.splits if_splits) (metis snd_conv)+

lemma status_phase_uid:
  assumes "status_phase E C now req s = Some (wc, v, g, d, s1)"
  shows "\<exists>w. get_wc C s (fst req) (snd req) = Inr w \<and> wc_uid wc = wc_uid w"
  using assms
  by (auto simp: status_phase_def Let_def validated_status_eq with_readiness_def with_conditions_def
      split: sum.splits prod.splits option.splits if_splits)

lemma Reconcile_phases:
  assumes "Reconcile_WorkloadClass E C now req s tr = (r, s', tr')"
  shows "(case status_phase E C now req s of
      Some (wc, v, g, d, s1) \<Rightarrow>
        (\<exists>res. reconcilePDBs E C now wc v g (fst (Drain req tr)) s1 (snd (Drain req tr)) = (res, s', tr') \<and>
           r = (case res of Inl e \<Rightarrow> Inl e | Inr q \<Rightarrow> Inr (minPositiveDuration d q)))
    | None \<Rightarrow> s' = s \<or> (\<exists>w. s' = snd (update_wc_status C w s)))"
proof (cases "get_wc C s (fst req) (snd req)")
  case (Inl e)
  then show ?thesis using assms by (simp add: Reconcile_WorkloadClass_def status_phase_def)
next
  case wc: (Inr wc)
  show ?thesis
  proof (cases "list_guardrails C s")
    case (Inl e)
    then show ?thesis using assms wc by (simp add: Reconcile_WorkloadClass_def status_phase_def)
  next
    case gs: (Inr gs)
    show ?thesis
    proof (cases "overlappingWorkloadClasses E C s wc")
      case (Inl e)
      then show ?thesis using assms wc gs by (simp add: Reconcile_WorkloadClass_def status_phase_def)
    next
      case ov: (Inr ov)
      obtain v wc1 changed where status: "validated_status E now wc gs ov = (v, wc1, changed)" by (metis prod_cases3)
      show ?thesis
      proof (cases "calculateReadiness E C s now wc1")
        case (Inl e)
        then show ?thesis using assms wc gs ov status by (simp add: Reconcile_WorkloadClass_def status_phase_def)
      next
        case (Inr x)
        obtain readiness d where x: "x = (readiness, d)" by (cases x)
        let ?wc2 = "with_readiness wc1 readiness"
        let ?upd = "if wc_readiness wc1 \<noteq> readiness \<or> changed then update_wc_status C ?wc2 s else (None, s)"
        obtain err s1 where upd: "?upd = (err, s1)" by (cases ?upd)
        obtain pending tr1 where drain: "Drain req tr = (pending, tr1)" by (cases "Drain req tr")
        obtain res s2 tr2 where pdbs: "reconcilePDBs E C now ?wc2 v (gs \<noteq> []) pending s1 tr1 = (res, s2, tr2)"
          by (metis prod_cases3)
        have s1: "s1 = s \<or> s1 = snd (update_wc_status C ?wc2 s)"
          using upd by (metis snd_conv)
        show ?thesis
        proof (cases err)
          case None
          then show ?thesis
            using assms wc gs ov status Inr x upd drain pdbs
            by (simp add: Reconcile_WorkloadClass_def status_phase_def Let_def)
        next
          case (Some e)
          then have "s' = s1" "status_phase E C now req s = None"
            using assms wc gs ov status Inr x upd
            by (simp_all add: Reconcile_WorkloadClass_def status_phase_def Let_def)
          then show ?thesis using s1 by auto
        qed
      qed
    qed
  qed
qed

lemma Reconcile_runs:
  assumes "pdb_server_laws C" "Reconcile_WorkloadClass E C now req s tr = (r, s', tr')"
  obtains (stopped) "status_phase E C now req s = None" "get_pdb C s' ns nm = get_pdb C s ns nm"
  | (reconciled) wc v g d s1 where "status_phase E C now req s = Some (wc, v, g, d, s1)"
      "pdb_runs_in E now wc (lease_map (fst (Drain req tr))) (reconcile_events E C s1 wc v g (fst (Drain req tr)) (ns, nm))
         (get_pdb C s ns nm) (get_pdb C s' ns nm)"
proof (cases "status_phase E C now req s")
  case None
  then have "get_pdb C s' ns nm = get_pdb C s ns nm"
    using Reconcile_phases [OF assms(2)] pdb_server_lawsD(3) [OF assms(1), of _ s ns nm] by auto
  with None show thesis by (rule stopped)
next
  case (Some x)
  obtain wc v g d s1 where x: "x = (wc, v, g, d, s1)" by (metis prod_cases5)
  then obtain res where "reconcilePDBs E C now wc v g (fst (Drain req tr)) s1 (snd (Drain req tr)) = (res, s', tr')"
    using Reconcile_phases [OF assms(2)] Some by auto
  from reconcilePDBs_runs [OF assms(1) this, of ns nm] show thesis
    using reconciled Some x status_phase_pdbs [OF assms(1), of E now req s wc v g d s1 ns nm] by simp
qed

subsection \<open>The type of a managed PDB\<close>

text \<open>A PDB of the controller: it selects the Pod instance it is labelled with and nothing else, is
  open or closed, and carries either no lease or an owner with an expiry in the format that is read
  back, in which case it is open.\<close>

definition pdb_typed :: "env \<Rightarrow> pdb \<Rightarrow> bool" where
  "pdb_typed E b =
     ((\<exists>u. pdb_labels b PodUIDLabel = Some u \<and> pdb_selector b = Some \<lparr>sel_labels = [(PodUIDLabel, u)], sel_exprs = []\<rparr>) \<and>
      pdb_unhealthy b = Some IfHealthyBudget \<and>
      pdb_max_unavailable b \<in> {Some pdb_open, Some pdb_closed} \<and>
      (pdb_annotations b BypassOwner = None \<and> pdb_annotations b BypassExpiration = None \<or>
       (\<exists>owner t. pdb_annotations b BypassOwner = Some owner \<and> owner \<noteq> '''' \<and>
          pdb_annotations b BypassExpiration = Some (format_expiration E t) \<and> IsPDBOpen (Some b))))"

definition read_typed :: "env \<Rightarrow> pdb_read \<Rightarrow> bool" where
  "read_typed E r = (case r of Inl e \<Rightarrow> True | Inr b \<Rightarrow> IsWorkloadClassManagedPDB E (Some b) \<longrightarrow> pdb_typed E b)"

lemma pdb_typed_version [simp]: "pdb_typed E (b\<lparr>pdb_version := v, pdb_uid := u\<rparr>) = pdb_typed E b"
  by (simp add: pdb_typed_def)

lemma SyncPDB_typed:
  assumes "SyncPDBWithWorkloadClass E (Some wc) (Some p) (Some b) v = Inr b'"
  shows "pdb_typed E b'" "pdb_owners b' = pdb_owners b"
  unfolding SyncPDB_result [OF assms] by (simp_all add: pdb_typed_def scope_pdb_def pod_uid_selector_def)

lemma PDBWithLease_typed:
  assumes "PDBWithLease E now (Some b) (Some p) sub = Inr b'"
  shows "pdb_typed E b'"
proof -
  have "pdb_annotations b' BypassExpiration = Some (format_expiration E (now + LeaseDurationForPod (Some p)))"
    "pdb_annotations b' BypassOwner = Some (BypassOwnerValue sub)" "BypassOwnerValue sub \<noteq> ''''"
    using assms by (auto simp: PDBWithLease_def Let_def BypassOwnerValue_def)
  then show ?thesis
    using assms by (auto simp: PDBWithLease_def Let_def pdb_typed_def scope_pdb_def pod_uid_selector_def IsPDBOpen_def pdb_open_def)
qed

text \<open>A mutation of the controller first claims the PDB.\<close>

lemma sync_mutate_Inr:
  assumes "sync_mutate E wc p v b = Inr b'"
  obtains b1 where "claimPDB E wc b = Inr b1" "SyncPDBWithWorkloadClass E (Some wc) (Some p) (Some b1) v = Inr b'"
  using assms by (auto simp: sync_mutate_def bind_result_Inr_iff)

lemmas mutate_Inr = sync_mutate_Inr lease_mutate_Inr

lemma mutated_pdb:
  assumes "owner_laws E" "lease_mutate E now wc p sub b = Inr b' \<or> sync_mutate E wc p v b = Inr b'"
  shows "pdb_typed E b'" "IsWorkloadClassManagedPDB E (Some b')" "is_controlled_by E (pdb_owners b') (wc_uid wc)"
    "pdb_version b \<noteq> '''' \<Longrightarrow> IsWorkloadClassManagedPDB E (Some b)"
proof -
  obtain b1 where b1: "claimPDB E wc b = Inr b1" "pdb_typed E b'" "pdb_owners b' = pdb_owners b1"
    using assms(2) by (auto elim!: mutate_Inr dest: SyncPDB_typed PDBWithLease_typed PDBWithLease_Inr(1))
  then show "pdb_typed E b'" "IsWorkloadClassManagedPDB E (Some b')" "is_controlled_by E (pdb_owners b') (wc_uid wc)"
    using claimPDB_managed [OF assms(1) b1(1)] by (simp_all add: IsWorkloadClassManagedPDB_def)
  show "pdb_version b \<noteq> '''' \<Longrightarrow> IsWorkloadClassManagedPDB E (Some b)"
    using b1(1) by (auto simp: claimPDB_def split: if_splits)
qed

lemma stored_byE:
  assumes "stored_by base f r r'"
  obtains b0 b1 v u where "f b0 = Inr b1" "r' = Inr (b1\<lparr>pdb_version := v, pdb_uid := u\<rparr>)"
    "\<And>b. r = Inr b \<Longrightarrow> b0 = b" "\<And>e. r = Inl e \<Longrightarrow> is_not_found e \<and> b0 = base"
  using assms unfolding stored_by_def by (cases r) auto

text \<open>A step writes well-typed PDBs of the WorkloadClass, or removes one of its PDBs.\<close>

lemma pdb_step_effect:
  assumes "owner_laws E" "pdb_step E now wc leases e r r'"
  shows "case r' of
      Inr b' \<Rightarrow> pdb_typed E b' \<and> IsWorkloadClassManagedPDB E (Some b') \<and> is_controlled_by E (pdb_owners b') (wc_uid wc) \<and>
        (\<forall>b. r = Inr b \<longrightarrow> pdb_version b \<noteq> '''' \<longrightarrow> IsWorkloadClassManagedPDB E (Some b))
    | Inl err \<Rightarrow> \<exists>b. r = Inr b \<and> is_controlled_by E (pdb_owners b) (wc_uid wc)"
proof -
  have written: ?thesis if st: "stored_by base f r r'" and f: "\<And>b b'. f b = Inr b' \<Longrightarrow>
      lease_mutate E now wc p sub b = Inr b' \<or> sync_mutate E wc p v b = Inr b'" for base f p sub v
  proof -
    obtain b0 b1 n u where b: "f b0 = Inr b1" "r' = Inr (b1\<lparr>pdb_version := n, pdb_uid := u\<rparr>)" "\<And>b. r = Inr b \<Longrightarrow> b0 = b"
      using stored_byE [OF st] by metis
    then show ?thesis using mutated_pdb [OF assms(1) f [OF b(1)]] by simp metis
  qed
  show ?thesis
    using assms(2)
  proof cases
    case (grant existing p sub)
    show ?thesis by (rule written [OF grant(4)]) blast
  next
    case (resync existing p)
    show ?thesis by (rule written [OF resync(4)]) blast
  next
    case (reopen p)
    show ?thesis by (rule written [OF reopen(2)]) blast
  next
    case (remove b err)
    then show ?thesis by simp
  qed
qed

text \<open>C26: The reconciler keeps PDBs well typed. Whatever fails in a run, each PDB is as it was before, or
  gone, or a PDB managed by a WorkloadClass that selects exactly the Pod instance it is labelled with,
  is either open or closed, and carries no lease or one with an owner and a readable expiry, and then
  it is open; so if every managed PDB was well typed before, every managed PDB is afterwards.\<close>

theorem Reconcile_keeps_pdbs_typed:
  assumes "pdb_server_laws C" "owner_laws E" "Reconcile_WorkloadClass E C now req s tr = (r, s', tr')"
  shows "(get_pdb C s' ns nm = get_pdb C s ns nm \<or>
      (case get_pdb C s' ns nm of Inl e \<Rightarrow> True | Inr b \<Rightarrow> IsWorkloadClassManagedPDB E (Some b) \<and> pdb_typed E b)) \<and>
    ((\<forall>k n. read_typed E (get_pdb C s k n)) \<longrightarrow> (\<forall>k n. read_typed E (get_pdb C s' k n)))"
proof -
  have "get_pdb C s' ns nm = get_pdb C s ns nm \<or>
      (case get_pdb C s' ns nm of Inl e \<Rightarrow> True | Inr b \<Rightarrow> IsWorkloadClassManagedPDB E (Some b) \<and> pdb_typed E b)" for ns nm
    using assms(1,3)
  proof (cases rule: Reconcile_runs [where ns = ns and nm = nm])
    case (reconciled wc v g d s1)
    let ?R = "\<lambda>r r'. r' = r \<or> (case r' of Inl e \<Rightarrow> True | Inr b \<Rightarrow> IsWorkloadClassManagedPDB E (Some b) \<and> pdb_typed E b)"
    show ?thesis
    proof (rule pdb_runs_induct [OF reconciled(2), of ?R])
      fix e r r'
      assume "pdb_step E now wc (lease_map (fst (Drain req tr))) e r r'"
      from pdb_step_effect [OF assms(2) this] show "?R r r'" by (cases r') simp_all
    qed auto
  qed simp
  then have changed: "get_pdb C s' k n = get_pdb C s k n \<or>
      (case get_pdb C s' k n of Inl e \<Rightarrow> True | Inr b \<Rightarrow> IsWorkloadClassManagedPDB E (Some b) \<and> pdb_typed E b)" for k n .
  moreover have "read_typed E (get_pdb C s k n) \<Longrightarrow> read_typed E (get_pdb C s' k n)" for k n
    using changed [of k n] by (cases "get_pdb C s' k n"; cases "get_pdb C s k n") (auto simp: read_typed_def)
  ultimately show ?thesis by blast
qed

lemma sample_pdb_typed: "pdb_typed ref_env sample_pdb"
  by (simp add: pdb_typed_def sample_pdb_def PDBBase_def empty_pdb_def pod_uid_selector_def)

lemma Reconcile_keeps_pdbs_typed_witness:
  "\<exists>r s' tr'. Reconcile_WorkloadClass ref_env ref_client 5 (''prod'', ''web'') (sample_cluster\<lparr>k_pdbs := [sample_pdb]\<rparr>) None = (r, s', tr') \<and>
     (\<forall>k n. read_typed ref_env (get_pdb ref_client s' k n))"
proof -
  let ?s = "sample_cluster\<lparr>k_pdbs := [sample_pdb]\<rparr>"
  obtain r s' tr' where rec: "Reconcile_WorkloadClass ref_env ref_client 5 (''prod'', ''web'') ?s None = (r, s', tr')"
    by (metis prod_cases3)
  have "read_typed ref_env (get_pdb ref_client ?s k n)" for k n
    by (simp add: read_typed_def sample_pdb_typed)
  then show ?thesis
    using rec Reconcile_keeps_pdbs_typed [OF pdb_server_laws_ref owner_laws_ref_env rec] by blast
qed

text \<open>C27: The controller never touches a PDB of a user. A stored PDB that no WorkloadClass controls (and
  that does not carry the UID of the reconciled one) is the same after any run of the reconciler,
  whatever its name, its labels and the errors of the run.\<close>

theorem Reconcile_spares_user_pdbs:
  assumes "pdb_server_laws C" "owner_laws E" "Reconcile_WorkloadClass E C now req s tr = (r, s', tr')"
    and "get_pdb C s ns nm = Inr x" "pdb_version x \<noteq> ''''" "\<not> IsWorkloadClassManagedPDB E (Some x)"
    and "\<And>w. get_wc C s (fst req) (snd req) = Inr w \<Longrightarrow> \<not> is_controlled_by E (pdb_owners x) (wc_uid w)"
  shows "get_pdb C s' ns nm = Inr x"
  using assms(1,3)
proof (cases rule: Reconcile_runs [where ns = ns and nm = nm])
  case (reconciled wc v g d s1)
  have uid: "\<not> is_controlled_by E (pdb_owners x) (wc_uid wc)"
    using assms(7) status_phase_uid [OF reconciled(1)] by metis
  let ?R = "\<lambda>r r'. r = Inr x \<longrightarrow> r' = Inr x"
  have "?R (get_pdb C s ns nm) (get_pdb C s' ns nm)"
  proof (rule pdb_runs_induct [OF reconciled(2), of ?R])
    fix e r r'
    assume "pdb_step E now wc (lease_map (fst (Drain req tr))) e r r'"
    from pdb_step_effect [OF assms(2) this] show "?R r r'" using assms(5,6) uid by (cases r') auto
  qed auto
  then show ?thesis using assms(4) by simp
qed (use assms(4) in simp)

lemma Reconcile_spares_user_pdbs_witness:
  "get_pdb ref_client (fst (snd (Reconcile_WorkloadClass ref_env ref_client 5 (''prod'', ''web'')
       (sample_cluster\<lparr>k_pdbs := [sample_pdb\<lparr>pdb_owners := []\<rparr>]\<rparr>) None))) ''prod'' ''workload-web-0'' =
     Inr (sample_pdb\<lparr>pdb_owners := []\<rparr>)"
proof -
  let ?x = "sample_pdb\<lparr>pdb_owners := []\<rparr>" and ?s = "sample_cluster\<lparr>k_pdbs := [sample_pdb\<lparr>pdb_owners := []\<rparr>]\<rparr>"
  obtain r s' tr' where rec: "Reconcile_WorkloadClass ref_env ref_client 5 (''prod'', ''web'') ?s None = (r, s', tr')"
    by (metis prod_cases3)
  have "get_pdb ref_client s' ''prod'' ''workload-web-0'' = Inr ?x"
  proof (rule Reconcile_spares_user_pdbs [OF pdb_server_laws_ref owner_laws_ref_env rec])
    show "get_pdb ref_client ?s ''prod'' ''workload-web-0'' = Inr ?x"
      by (simp add: sample_pdb_def PDBBase_def empty_pdb_def sample_pod_def PDBName_def)
  qed (simp_all add: sample_pdb_def IsWorkloadClassManagedPDB_def ref_controller_def)
  then show ?thesis using rec by simp
qed

end
