(* ===== verification/Disruption_Webhook.thy ===== *)
theory Disruption_Webhook
  imports Temporal Best_Match Pdb Lease_Tracker
begin

text \<open>
  \<open>internal/webhook/disruption_webhook.go\<close>: admission of Pod evictions. A request is answered
  from the cluster state it reads; the only state it changes is the lease tracker. \<open>now\<close> is
  the clock of the request. The lemmas say when a request is denied and when a lease is queued.
\<close>

record request =
  req_name :: string
  req_namespace :: string
  req_sub_resource :: string
  req_username :: string
  req_groups :: "string list"

datatype response = Allowed string | Denied string | Errored int api_error

definition is_allowed :: "response \<Rightarrow> bool" where
  "is_allowed r = (case r of Allowed m \<Rightarrow> True | _ \<Rightarrow> False)"

lemma is_allowed_simps [simp]:
  "is_allowed (Allowed m)" "\<not> is_allowed (Denied m)" "\<not> is_allowed (Errored n e)"
  by (simp_all add: is_allowed_def)

subsection \<open>Identity matching\<close>

definition matchesUserKind :: "request \<Rightarrow> subject \<Rightarrow> string + bool" where
  "matchesUserKind req sub =
     (if sub_namespace sub \<noteq> '''' then
        Inl (''subject is kind '' @ sub_kind sub @ '', but has Namespace: '' @ sub_namespace sub)
      else Inr (req_username req = sub_name sub))"

definition matchesGroupKind :: "request \<Rightarrow> subject \<Rightarrow> string + bool" where
  "matchesGroupKind req sub =
     (if sub_namespace sub \<noteq> '''' then
        Inl (''subject is kind '' @ sub_kind sub @ '', but has Namespace: '' @ sub_namespace sub)
      else Inr (sub_name sub \<in> set (req_groups req)))"

definition matchesServiceAccountKind :: "request \<Rightarrow> subject \<Rightarrow> string + bool" where
  "matchesServiceAccountKind req sub =
     (let expected_username = ''system:serviceaccount:'' @ sub_namespace sub @ '':'' @ sub_name sub
      in Inr (req_username req = expected_username))"

definition matchesIdentity :: "request \<Rightarrow> subject \<Rightarrow> string + bool" where
  "matchesIdentity req sub =
     (if sub_name sub = '''' then Inl ''subject name cannot be empty''
      else if sub_kind sub = ''User'' then matchesUserKind req sub
      else if sub_kind sub = ''Group'' then matchesGroupKind req sub
      else if sub_kind sub = ''ServiceAccount'' then matchesServiceAccountKind req sub
      else Inl (''subject has invalid Kind: '' @ sub_kind sub))"

text \<open>The loop that collects the matching subjects; an error is logged and does not match.\<close>

definition matching_subjects :: "request \<Rightarrow> subject list \<Rightarrow> subject list" where
  "matching_subjects req subs = filter (\<lambda>sub. matchesIdentity req sub = Inr True) subs"

subsection \<open>Authorized subjects\<close>

definition show_subject :: "subject \<Rightarrow> string" where
  "show_subject sub = ''{'' @ sub_kind sub @ '' '' @ sub_name sub @ '' '' @ sub_namespace sub @ ''}''"

definition handleAuthorizedSubject ::
  "env \<Rightarrow> 's client \<Rightarrow> 's \<Rightarrow> go_time \<Rightarrow> workload_class \<Rightarrow> pod \<Rightarrow> subject list \<Rightarrow> tracker option
    \<Rightarrow> response \<times> tracker option" where
  "handleAuthorizedSubject E C s now wc p subs tr =
     (let sub = hd subs;
          pdb_nm = PDBName E (pod_name p);
          allowed_for = ''Disruption allowed for authorized user: '' @ show_subject sub
      in case get_pdb C s (pod_namespace p) pdb_nm of
           Inl err \<Rightarrow> (Allowed allowed_for, tr)
         | Inr pdb \<Rightarrow>
             if \<not> IsWorkloadClassManagedPDB E (Some pdb) then (Allowed allowed_for, tr)
             else (case find (\<lambda>x. SubjectAlreadyLeasing E now (Some pdb) (Some p) x) subs of
                 Some x \<Rightarrow> (Allowed (allowed_for @ '', PDB '' @ pdb_nm @ '' already leased for this Pod''), tr)
               | None \<Rightarrow>
                   if \<not> AllowLease E now (Some pdb) (Some p) then
                     (Denied (''Eviction blocked: PDB '' @ pdb_nm @ '' has an ongoing lease held by '' @
                        map_get (pdb_annotations pdb) BypassOwner @ '' that expires at '' @
                        map_get (pdb_annotations pdb) BypassExpiration), tr)
                   else if IsPDBOpen (Some pdb) \<and> map_get (pdb_labels pdb) PodUIDLabel = pod_uid p then
                     (Allowed allowed_for, tr)
                   else if tr = None then (Allowed allowed_for, tr)
                   else let (sent, tr') = Enqueue (Some wc) (Some p) sub tr
                        in (Allowed (allowed_for @ '', lease on PDB '' @ pdb_nm @ '' requested''), tr')))"

subsection \<open>The handler\<close>

definition failed_guardrails :: "env \<Rightarrow> workload_class \<Rightarrow> bool" where
  "failed_guardrails E wc =
     (case find_status_condition E (wc_conditions wc) ConditionTypeValidated of
        None \<Rightarrow> False
      | Some cond \<Rightarrow> c_status cond = ConditionFalse \<and> \<not> IsValidated (Some cond))"

text \<open>The temporal checks, for a request that no allowed subject made.\<close>

definition temporal_decision :: "env \<Rightarrow> go_time \<Rightarrow> workload_class \<Rightarrow> pod \<Rightarrow> response" where
  "temporal_decision E now wc p =
     (let pol = wc_policy wc;
          in_window = fst (IsTimeInWindows E now (dp_windows pol));
          min_run_duration = days_duration (dp_min_run_days pol);
          age = time_sub now (pod_created p)
      in if wc_readiness wc = ReadinessOverdue then
           Allowed ''Workload class is overdue for maintenance, bypassing constraints''
         else if \<not> in_window then
           Denied (''Eviction blocked: currently outside of allowed disruption windows for WorkloadClass '' @ wc_name wc)
         else if dp_min_run_days pol > 0 \<and> age < min_run_duration then
           Denied (''Eviction blocked: pod is too new (running for '' @ duration_string (round_duration age minute) @
             '', required '' @ show_int (dp_min_run_days pol) @ '' days)'')
         else Allowed ''Eviction allowed by WorkloadClass policy'')"

definition Handle ::
  "env \<Rightarrow> 's client \<Rightarrow> 's \<Rightarrow> go_time \<Rightarrow> request \<Rightarrow> tracker option \<Rightarrow> response \<times> tracker option" where
  "Handle E C s now req tr =
     (if req_sub_resource req \<noteq> ''eviction'' then (Allowed ''Not an eviction'', tr)
      else case get_pod C s (req_namespace req) (req_name req) of
        Inl err \<Rightarrow> (Errored 500 err, tr)
      | Inr p \<Rightarrow>
          (case FindBestMatchWorkloadClass E C s True (Some p) of
             Inl err \<Rightarrow> (Allowed ''Failed to get WorkloadClass matches this pod or namespace'', tr)
           | Inr (None, ev) \<Rightarrow> (Allowed ''No WorkloadClass matches this pod or namespace'', tr)
           | Inr (Some wc, ev) \<Rightarrow>
               if failed_guardrails E wc then (Allowed ''WorkloadClass failed Guardrail validation'', tr)
               else if dp_emergency (wc_policy wc) then (Allowed ''Emergency override active'', tr)
               else let subs = matching_subjects req (dp_allowed_outside (wc_policy wc))
                    in if length subs > 0 then handleAuthorizedSubject E C s now wc p subs tr
                       else (temporal_decision E now wc p, tr)))"

subsection \<open>When an eviction is denied\<close>

definition is_denied :: "response \<Rightarrow> bool" where
  "is_denied r = (case r of Denied m \<Rightarrow> True | _ \<Rightarrow> False)"

lemma is_denied_simps [simp]:
  "\<not> is_denied (Allowed m)" "is_denied (Denied m)" "\<not> is_denied (Errored n e)"
  by (simp_all add: is_denied_def)

text \<open>Somebody else than the given subjects holds the lease of the Pod's managed PDB.\<close>

definition lease_blocks :: "env \<Rightarrow> 's client \<Rightarrow> 's \<Rightarrow> go_time \<Rightarrow> pod \<Rightarrow> subject list \<Rightarrow> bool" where
  "lease_blocks E C s now p subs =
     (case get_pdb C s (pod_namespace p) (PDBName E (pod_name p)) of
        Inl err \<Rightarrow> False
      | Inr b \<Rightarrow> IsWorkloadClassManagedPDB E (Some b) \<and>
          (case lease_holder E now b p of None \<Rightarrow> False | Some x \<Rightarrow> x \<notin> BypassOwnerValue ` set subs))"

lemma find_leasing:
  assumes "IsWorkloadClassManagedPDB E (Some b)"
  shows "find (\<lambda>x. SubjectAlreadyLeasing E now (Some b) (Some p) x) subs = None \<longleftrightarrow>
    (case lease_holder E now b p of None \<Rightarrow> True | Some x \<Rightarrow> x \<notin> BypassOwnerValue ` set subs)"
  using assms by (auto simp: find_None_iff SubjectAlreadyLeasing_holder split: option.split)

lemma handleAuthorizedSubject_denied:
  "is_denied (fst (handleAuthorizedSubject E C s now wc p subs tr)) \<longleftrightarrow> lease_blocks E C s now p subs"
proof (cases "get_pdb C s (pod_namespace p) (PDBName E (pod_name p))")
  case (Inl err)
  then show ?thesis by (simp add: handleAuthorizedSubject_def Let_def lease_blocks_def)
next
  case (Inr b)
  show ?thesis
  proof (cases "IsWorkloadClassManagedPDB E (Some b)")
    case False
    then show ?thesis using Inr by (simp add: handleAuthorizedSubject_def Let_def lease_blocks_def)
  next
    case True
    then show ?thesis
      using Inr find_leasing [OF True, of now p subs] AllowLease_holder [of E now b p]
      by (cases "find (\<lambda>x. SubjectAlreadyLeasing E now (Some b) (Some p) x) subs")
         (auto simp: handleAuthorizedSubject_def Let_def lease_blocks_def split: option.splits prod.splits)
  qed
qed

text \<open>The temporal constraints a request must meet that no allowed subject made.\<close>

definition temporally_blocked :: "env \<Rightarrow> go_time \<Rightarrow> workload_class \<Rightarrow> pod \<Rightarrow> bool" where
  "temporally_blocked E now wc p =
     (wc_readiness wc \<noteq> ReadinessOverdue \<and>
      (\<not> fst (IsTimeInWindows E now (dp_windows (wc_policy wc))) \<or>
       0 < dp_min_run_days (wc_policy wc) \<and>
         time_sub now (pod_created p) < days_duration (dp_min_run_days (wc_policy wc))))"

lemma temporal_decision_denied: "is_denied (temporal_decision E now wc p) \<longleftrightarrow> temporally_blocked E now wc p"
  by (auto simp: temporal_decision_def temporally_blocked_def Let_def)

text \<open>C5: An eviction is denied exactly when the Pod exists and a WorkloadClass governs it that is not
  invalid and has no emergency override, and either the requester is one of its allowed subjects but
  somebody else holds an unexpired lease on the Pod, or the requester is not one of them and the
  request comes outside the disruption windows or before the Pod's minimum run time, the class not
  being overdue. Every other request that is not an error is let through.\<close>

theorem Handle_denies_iff:
  "is_denied (fst (Handle E C s now req tr)) \<longleftrightarrow>
    req_sub_resource req = ''eviction'' \<and>
    (\<exists>p wc event. get_pod C s (req_namespace req) (req_name req) = Inr p \<and>
       FindBestMatchWorkloadClass E C s True (Some p) = Inr (Some wc, event) \<and>
       \<not> failed_guardrails E wc \<and> \<not> dp_emergency (wc_policy wc) \<and>
       (let subs = matching_subjects req (dp_allowed_outside (wc_policy wc))
        in if subs \<noteq> [] then lease_blocks E C s now p subs else temporally_blocked E now wc p))"
proof (cases "get_pod C s (req_namespace req) (req_name req)")
  case (Inl err)
  then show ?thesis by (simp add: Handle_def)
next
  case (Inr p)
  show ?thesis
  proof (cases "FindBestMatchWorkloadClass E C s True (Some p)")
    case (Inl err)
    then show ?thesis using Inr by (simp add: Handle_def)
  next
    case (Inr match)
    show ?thesis
    proof (cases match)
      case (Pair best event)
      then show ?thesis
        using Inr \<open>get_pod C s (req_namespace req) (req_name req) = Inr p\<close>
        by (cases best) (simp_all add: Handle_def Let_def handleAuthorizedSubject_denied temporal_decision_denied)
    qed
  qed
qed

lemma Handle_denied_governed:
  assumes "req_sub_resource req = ''eviction''" "get_pod C s (req_namespace req) (req_name req) = Inr p"
    and "FindBestMatchWorkloadClass E C s True (Some p) = Inr (Some wc, event)"
    and "\<not> failed_guardrails E wc" "\<not> dp_emergency (wc_policy wc)"
    and "matching_subjects req (dp_allowed_outside (wc_policy wc)) = subs" "subs \<noteq> []"
  shows "is_denied (fst (Handle E C s now req tr)) \<longleftrightarrow> lease_blocks E C s now p subs"
  using assms by (simp add: Handle_def Let_def handleAuthorizedSubject_denied)

text \<open>The one way the handler changes the tracker.\<close>

lemma Handle_enqueues:
  assumes "Handle E C s now req (Some t) = (resp, tr')" "tr' \<noteq> Some t"
  shows "is_allowed resp \<and>
    (\<exists>p wc event subs b. get_pod C s (req_namespace req) (req_name req) = Inr p \<and>
       FindBestMatchWorkloadClass E C s True (Some p) = Inr (Some wc, event) \<and>
       subs = matching_subjects req (dp_allowed_outside (wc_policy wc)) \<and> subs \<noteq> [] \<and>
       get_pdb C s (pod_namespace p) (PDBName E (pod_name p)) = Inr b \<and>
       IsWorkloadClassManagedPDB E (Some b) \<and> lease_holder E now b p = None \<and>
       \<not> (IsPDBOpen (Some b) \<and> map_get (pdb_labels b) PodUIDLabel = pod_uid p) \<and>
       tr' = snd (Enqueue (Some wc) (Some p) (hd subs) (Some t)))"
proof -
  from assms obtain p wc event where found: "get_pod C s (req_namespace req) (req_name req) = Inr p"
    "FindBestMatchWorkloadClass E C s True (Some p) = Inr (Some wc, event)"
    by (auto simp: Handle_def split: if_splits sum.splits option.splits)
  let ?subs = "matching_subjects req (dp_allowed_outside (wc_policy wc))"
  have subs: "?subs \<noteq> []" "handleAuthorizedSubject E C s now wc p ?subs (Some t) = (resp, tr')"
    using assms found by (auto simp: Handle_def Let_def split: if_splits)
  then obtain b where b: "get_pdb C s (pod_namespace p) (PDBName E (pod_name p)) = Inr b"
    "IsWorkloadClassManagedPDB E (Some b)"
    using assms(2) by (auto simp: handleAuthorizedSubject_def Let_def split: if_splits sum.splits)
  then have "AllowLease E now (Some b) (Some p)" "\<not> (IsPDBOpen (Some b) \<and> map_get (pdb_labels b) PodUIDLabel = pod_uid p)"
    "is_allowed resp" "tr' = snd (Enqueue (Some wc) (Some p) (hd ?subs) (Some t))"
    using subs(2) assms(2) by (auto simp: handleAuthorizedSubject_def Let_def split: if_splits option.splits prod.splits)
  then show ?thesis
    using found subs(1) b by (auto simp: AllowLease_holder)
qed

text \<open>C17: The webhook changes the lease tracker only for an allowed request of an allowed subject, and
  only by queueing a lease for the first matching subject on a Pod whose managed PDB nobody holds and
  that is not already open for this Pod instance.\<close>

theorem Handle_enqueues_only:
  assumes "Handle E C s now req (Some t) = (resp, tr')" "tr' \<noteq> Some t"
  shows "is_allowed resp \<and>
    (\<exists>p wc event subs b. get_pod C s (req_namespace req) (req_name req) = Inr p \<and>
       FindBestMatchWorkloadClass E C s True (Some p) = Inr (Some wc, event) \<and>
       subs = matching_subjects req (dp_allowed_outside (wc_policy wc)) \<and> subs \<noteq> [] \<and>
       get_pdb C s (pod_namespace p) (PDBName E (pod_name p)) = Inr b \<and>
       IsWorkloadClassManagedPDB E (Some b) \<and> lease_holder E now b p = None \<and>
       \<not> (IsPDBOpen (Some b) \<and> map_get (pdb_labels b) PodUIDLabel = pod_uid p) \<and>
       tr' = snd (Enqueue (Some wc) (Some p) (hd subs) (Some t)))"
  by (rule Handle_enqueues [OF assms])

definition sample_request :: request where
  "sample_request = \<lparr>req_name = ''web-0'', req_namespace = ''prod'', req_sub_resource = ''eviction'',
     req_username = ''ops'', req_groups = []\<rparr>"

definition ops_wc :: workload_class where
  "ops_wc = sample_wc\<lparr>wc_spec := sample_spec\<lparr>ws_policy := sample_policy\<lparr>dp_allowed_outside := [sample_subject]\<rparr>\<rparr>\<rparr>"

definition ops_cluster :: cluster where
  "ops_cluster = sample_cluster\<lparr>k_wcs := [ops_wc], k_pdbs := [sample_pdb]\<rparr>"

lemma ops_eligible: "eligible ref_env sample_pod ops_wc"
  using sample_eligible by (simp add: eligible_def ops_wc_def) (simp add: sample_wc_def)

lemma ops_governs:
  "FindBestMatchWorkloadClass ref_env ref_client ops_cluster recorder (Some sample_pod) = Inr (Some ops_wc, None)"
  by (rule sole_wc_governs [OF _ _ ops_eligible]) (simp_all add: ops_cluster_def sample_cluster_def empty_cluster_def)

lemma ops_pod: "get_pod ref_client ops_cluster (req_namespace sample_request) (req_name sample_request) = Inr sample_pod"
  by (simp add: ops_cluster_def sample_cluster_def empty_cluster_def sample_request_def sample_pod_def)

lemma ops_subjects: "matching_subjects sample_request (dp_allowed_outside (wc_policy ops_wc)) = [sample_subject]"
  by (simp add: matching_subjects_def matchesIdentity_def matchesUserKind_def ops_wc_def sample_subject_def sample_request_def)

lemma ops_pdb: "get_pdb ref_client ops_cluster (pod_namespace sample_pod) (PDBName ref_env (pod_name sample_pod)) = Inr sample_pdb"
  by (simp add: ops_cluster_def sample_pdb_def PDBBase_def empty_pdb_def sample_pod_def)

lemma sample_pdb_free: "lease_holder ref_env now sample_pdb sample_pod = None" "\<not> IsPDBOpen (Some sample_pdb)"
  by (simp_all add: lease_holder_def map_get_def sample_pdb_def PDBBase_def empty_pdb_def IsPDBOpen_def pdb_closed_def)

lemma ops_active: "\<not> failed_guardrails ref_env ops_wc" "\<not> dp_emergency (wc_policy ops_wc)"
  by (simp_all add: failed_guardrails_def ops_wc_def samples ref_find_def)

lemma Handle_denies_iff_witness:
  "\<not> is_denied (fst (Handle ref_env ref_client ops_cluster 0 sample_request None)) \<and>
   is_denied (fst (Handle ref_env ref_client ops_cluster 0 (sample_request\<lparr>req_username := ''eve''\<rparr>) None))"
proof -
  have "matching_subjects (sample_request\<lparr>req_username := ''eve''\<rparr>) (dp_allowed_outside (wc_policy ops_wc)) = []"
    by (simp add: matching_subjects_def matchesIdentity_def matchesUserKind_def ops_wc_def sample_subject_def)
  moreover have "temporally_blocked ref_env 0 ops_wc sample_pod"
    by (simp add: temporally_blocked_def ops_wc_def samples time_sub_def days_duration_id min_i64_def max_i64_def)
  moreover have "\<not> lease_blocks ref_env ref_client ops_cluster 0 sample_pod [sample_subject]"
    using ops_pdb sample_pdb_free by (simp add: lease_blocks_def)
  ultimately show ?thesis
    using Handle_denies_iff [of ref_env ref_client ops_cluster 0 sample_request None]
      Handle_denies_iff [of ref_env ref_client ops_cluster 0 "sample_request\<lparr>req_username := ''eve''\<rparr>" None]
      ops_governs [of True] ops_pod ops_subjects ops_active
    by (simp add: sample_request_def)
qed

lemma Handle_enqueues_only_witness:
  "\<exists>resp t'. Handle ref_env ref_client ops_cluster 0 sample_request (Some (NewPendingLeaseTracker 8)) = (resp, Some t') \<and>
     is_allowed resp \<and> lease_of t' (''prod'', ''web'') ''web-0'' = Some (lease_for sample_pod sample_subject)"
proof -
  let ?t = "NewPendingLeaseTracker 8"
  let ?t' = "put_lease (''prod'', ''web'') (lease_for sample_pod sample_subject) ?t"
  have wc: "(wc_namespace ops_wc, wc_name ops_wc) = (''prod'', ''web'')" by (simp add: ops_wc_def sample_wc_def)
  have lease: "lease_of ?t' (''prod'', ''web'') ''web-0'' = Some (lease_for sample_pod sample_subject)"
    by (simp add: lease_of_put sample_pod_def)
  then have "lease_of ?t' \<noteq> lease_of ?t" by (metis new_tracker(2) option.distinct(1))
  then have changed: "Some ?t' \<noteq> Some ?t" by auto
  have "snd (handleAuthorizedSubject ref_env ref_client ops_cluster 0 ops_wc sample_pod [sample_subject] (Some ?t)) = Some ?t'"
    using ops_pdb sample_pdb_managed sample_pdb_free wc
    by (simp add: handleAuthorizedSubject_def Let_def SubjectAlreadyLeasing_holder AllowLease_holder Enqueue_put)
  then obtain resp where resp: "Handle ref_env ref_client ops_cluster 0 sample_request (Some ?t) = (resp, Some ?t')"
    using ops_governs [of True] ops_pod ops_subjects ops_active
    by (cases "handleAuthorizedSubject ref_env ref_client ops_cluster 0 ops_wc sample_pod [sample_subject] (Some ?t)")
       (simp add: Handle_def Let_def sample_request_def)
  then show ?thesis
    using Handle_enqueues_only [OF resp changed] lease by blast
qed

end
