(* ===== verification/Lease_System.thy ===== *)
theory Lease_System
  imports Pdb_Runs Disruption_Webhook
begin

text \<open>
  The lease of a PDB as an abstract lock, and the system of webhook, reconciler and clock around it.
  \<open>lock_step\<close> is the specification: a lock is free or held for a Pod instance by an owner until an
  expiry; it is acquired and reset only when it is not blocked for that instance, and otherwise
  changed only by a revocation. \<open>lock_of\<close> reads the lock off a stored PDB, and the first theorem
  shows that the reconciler refines the specification. The second half composes: what a request
  leads to, and how long the lease lasts whatever the system does meanwhile.
\<close>

subsection \<open>The abstract lock\<close>

datatype lock = Free | Held string string go_time

text \<open>Somebody holds the lock for the Pod instance with this UID.\<close>

fun blocked :: "go_time \<Rightarrow> string \<Rightarrow> lock \<Rightarrow> bool" where
  "blocked now uid Free = False"
| "blocked now uid (Held u owner t) = (u = uid \<and> now < t)"

datatype lock_event = Acquire string string go_time | Reset string | Revoke

inductive lock_step :: "go_time \<Rightarrow> lock_event \<Rightarrow> lock \<Rightarrow> lock \<Rightarrow> bool" for now :: go_time where
  acquire: "\<not> blocked now uid l \<Longrightarrow> lock_step now (Acquire uid owner t) l (Held uid owner t)"
| reset: "\<not> blocked now uid l \<Longrightarrow> lock_step now (Reset uid) l Free"
| revoke: "lock_step now Revoke l Free"

inductive_simps lock_step_simps:
  "lock_step now (Acquire uid owner t) l l'" "lock_step now (Reset uid) l l'" "lock_step now Revoke l l'"

inductive lock_run :: "go_time \<Rightarrow> lock_event list \<Rightarrow> lock \<Rightarrow> lock \<Rightarrow> bool" for now :: go_time where
  "lock_run now [] l l"
| "lock_step now e l l1 \<Longrightarrow> lock_run now es l1 l2 \<Longrightarrow> lock_run now (e # es) l l2"

inductive_simps lock_run_simps: "lock_run now [] l l'" "lock_run now (e # es) l l'"

text \<open>Mutual exclusion of the abstract lock: while it is held for an instance, no run without a
  revocation and without events of other instances changes it.\<close>

fun event_for :: "string \<Rightarrow> lock_event \<Rightarrow> bool" where
  "event_for uid (Acquire u owner t) = (u = uid)"
| "event_for uid (Reset u) = (u = uid)"
| "event_for uid Revoke = False"

lemma lock_run_exclusive:
  assumes "lock_run now es l l'" "blocked now uid l" "\<forall>e \<in> set es. event_for uid e"
  shows "l' = l"
  using assms
proof (induction rule: lock_run.induct)
  case (2 e l l1 es l2)
  then have "event_for uid e" "lock_step now e l l1" by simp_all
  then have False using 2(4) by (cases e) (auto simp: lock_step_simps)
  then show ?case ..
qed simp

subsection \<open>The lock of a stored PDB\<close>

definition lock_of :: "env \<Rightarrow> pdb_read \<Rightarrow> lock" where
  "lock_of E r =
     (case r of Inl e \<Rightarrow> Free
      | Inr b \<Rightarrow>
          if map_get (pdb_annotations b) BypassOwner = '''' then Free
          else (case pdb_annotations b BypassExpiration of None \<Rightarrow> Free
                | Some x \<Rightarrow> (case parse_expiration E x of None \<Rightarrow> Free
                    | Some t \<Rightarrow> Held (map_get (pdb_labels b) PodUIDLabel) (map_get (pdb_annotations b) BypassOwner) t)))"

lemma lock_of_version [simp]: "lock_of E (Inr (b\<lparr>pdb_version := v, pdb_uid := u\<rparr>)) = lock_of E (Inr b)"
  by (simp add: lock_of_def split: option.split)

lemma lock_of_Inl [simp]: "lock_of E (Inl e) = Free"
  by (simp add: lock_of_def)

lemma lease_holder_lock:
  "lease_holder E now b p =
     (case lock_of E (Inr b) of Free \<Rightarrow> None | Held u owner t \<Rightarrow> if u = pod_uid p \<and> now < t then Some owner else None)"
proof (cases "pdb_annotations b BypassExpiration")
  case None
  then show ?thesis by (simp add: lease_holder_def lock_of_def LeaseTimeRemaining_def)
next
  case (Some x)
  show ?thesis
  proof (cases "parse_expiration E x")
    case None
    then show ?thesis using Some by (simp add: lease_holder_def lock_of_def LeaseTimeRemaining_def)
  next
    case (Some e)
    then show ?thesis
      using \<open>pdb_annotations b BypassExpiration = Some x\<close> LeaseTimeRemaining_lease [of b x E e now]
      by (simp add: lease_holder_def lock_of_def)
  qed
qed

lemma blocked_holder: "blocked now (pod_uid p) (lock_of E (Inr b)) \<longleftrightarrow> lease_holder E now b p \<noteq> None"
  by (simp add: lease_holder_lock split: lock.split)

text \<open>The controller writes over a lock only when it is not blocked for the instance.\<close>

lemma chosen_not_blocked:
  assumes "existing_of r = Some existing" "choose_action E now p existing leases = a" "\<And>d. a \<noteq> KeepLease d"
  shows "\<not> blocked now (pod_uid p) (lock_of E r)"
proof (cases r)
  case (Inr b)
  then have "existing = Some b" using assms(1) by (simp add: existing_of_def)
  then have "lease_holder E now b p = None"
    using assms(2,3) by (auto simp: choose_action_cases split: option.splits)
  then show ?thesis using Inr by (simp add: blocked_holder)
qed simp

lemma lock_of_granted:
  assumes "PDBWithLease E now (Some b) (Some p) sub = Inr b'" "expiration_law E"
    and "0 \<le> now + LeaseDurationForPod (Some p)" "now + LeaseDurationForPod (Some p) < end_of_years"
  shows "lock_of E (Inr b') = Held (pod_uid p) (BypassOwnerValue sub) (lease_expiry now p)"
proof -
  have "pdb_annotations b' BypassOwner = Some (BypassOwnerValue sub)"
    "pdb_annotations b' BypassExpiration = Some (format_expiration E (now + LeaseDurationForPod (Some p)))"
    "pdb_labels b' PodUIDLabel = Some (pod_uid p)" "BypassOwnerValue sub \<noteq> ''''"
    using assms(1) by (auto simp: PDBWithLease_def scope_pdb_def Let_def BypassOwnerValue_def)
  moreover have "parse_expiration E (format_expiration E (now + LeaseDurationForPod (Some p))) = Some (lease_expiry now p)"
    using assms(2-4) by (simp add: expiration_law_def lease_expiry_def)
  ultimately show ?thesis by (simp add: lock_of_def map_get_def)
qed

lemma lock_of_synced:
  assumes "SyncPDBWithWorkloadClass E (Some wc) (Some p) (Some b) v = Inr b'"
  shows "lock_of E (Inr b') = Free"
  unfolding SyncPDB_result [OF assms] by (simp add: lock_of_def map_get_def)

subsection \<open>The reconciler refines the lock\<close>

fun abs_event :: "go_time \<Rightarrow> pdb_event \<Rightarrow> lock_event" where
  "abs_event now (Granted p sub) = Acquire (pod_uid p) (BypassOwnerValue sub) (lease_expiry now p)"
| "abs_event now (Synced p) = Reset (pod_uid p)"
| "abs_event now (Opened p) = Revoke"
| "abs_event now Removed = Revoke"

text \<open>The expiry of a lease on the Pod can be written down: it is no later than the year 9999.\<close>

definition expiry_ok :: "go_time \<Rightarrow> pod \<Rightarrow> bool" where
  "expiry_ok now p = (0 \<le> now + LeaseDurationForPod (Some p) \<and> now + LeaseDurationForPod (Some p) < end_of_years)"

fun event_ok :: "go_time \<Rightarrow> pdb_event \<Rightarrow> bool" where
  "event_ok now (Granted p sub) = expiry_ok now p"
| "event_ok now (Synced p) = True"
| "event_ok now (Opened p) = True"
| "event_ok now Removed = True"

lemma pdb_step_refines:
  assumes "expiration_law E" "pdb_step E now wc leases e r r'" "event_ok now e"
  shows "lock_step now (abs_event now e) (lock_of E r) (lock_of E r')"
  using assms(2)
proof cases
  case (grant existing p sub)
  obtain b0 b1 v u where b: "lease_mutate E now wc p sub b0 = Inr b1" "r' = Inr (b1\<lparr>pdb_version := v, pdb_uid := u\<rparr>)"
    using stored_byE [OF grant(4)] by metis
  then obtain c where "PDBWithLease E now (Some c) (Some p) sub = Inr b1" using lease_mutate_Inr by metis
  then have "lock_of E r' = Held (pod_uid p) (BypassOwnerValue sub) (lease_expiry now p)"
    using lock_of_granted [OF _ assms(1)] assms(3) grant(1) b(2) by (simp add: expiry_ok_def)
  moreover have "\<not> blocked now (pod_uid p) (lock_of E r)"
    by (rule chosen_not_blocked [OF grant(2,3)]) simp
  ultimately show ?thesis using grant(1) by (simp add: lock_step_simps)
next
  case (resync existing p)
  obtain b0 b1 v u where b: "sync_mutate E wc p True b0 = Inr b1" "r' = Inr (b1\<lparr>pdb_version := v, pdb_uid := u\<rparr>)"
    using stored_byE [OF resync(4)] by metis
  then have "lock_of E r' = Free" using lock_of_synced by (auto elim!: sync_mutate_Inr)
  moreover have "\<not> blocked now (pod_uid p) (lock_of E r)"
    by (rule chosen_not_blocked [OF resync(2,3)]) simp
  ultimately show ?thesis using resync(1) by (simp add: lock_step_simps)
next
  case (reopen p)
  obtain b0 b1 v u where b: "sync_mutate E wc p False b0 = Inr b1" "r' = Inr (b1\<lparr>pdb_version := v, pdb_uid := u\<rparr>)"
    using stored_byE [OF reopen(2)] by metis
  then have "lock_of E r' = Free" using lock_of_synced by (auto elim!: sync_mutate_Inr)
  then show ?thesis using reopen(1) by (simp add: lock_step_simps)
next
  case (remove b err)
  then show ?thesis by (simp add: lock_step_simps)
qed

lemma pdb_run_refines:
  assumes "expiration_law E" "pdb_run E now wc leases es r r'" "\<forall>e \<in> set es. event_ok now e"
  shows "lock_run now (map (abs_event now) es) (lock_of E r) (lock_of E r')"
  using assms(2,3)
  by (induction rule: pdb_run.induct) (auto simp: lock_run_simps dest: pdb_step_refines [OF assms(1)])

text \<open>What justifies the events of a run of the reconciler: a lease is acquired for a subject whose
  request the tracker held; a revocation needs a WorkloadClass that does not protect its Pods or does
  not govern a Pod with this PDB.\<close>

lemma lease_map_wanted:
  "wanted_lease (lease_map pending) p = Some sub \<Longrightarrow> \<exists>l \<in> set pending. pl_pod_uid l = pod_uid p \<and> pl_subject l = sub"
  by (auto simp: wanted_lease_def split: option.splits if_splits dest: lease_map_set)

definition acquire_justified :: "pending_lease list \<Rightarrow> lock_event \<Rightarrow> bool" where
  "acquire_justified pending e =
     (case e of Acquire uid owner t \<Rightarrow> \<exists>l \<in> set pending. pl_pod_uid l = uid \<and> BypassOwnerValue (pl_subject l) = owner
      | _ \<Rightarrow> True)"

definition may_revoke :: "env \<Rightarrow> 's client \<Rightarrow> 's \<Rightarrow> workload_class \<Rightarrow> condition \<Rightarrow> bool \<Rightarrow> string \<Rightarrow> bool" where
  "may_revoke E C s wc cond g nm =
     (\<not> protectsPods (c_reason cond) g \<or>
      (\<exists>governed. governed_by E C s wc = Some governed \<and> nm \<notin> (\<lambda>p. PDBName E (pod_name p)) ` set governed))"

lemma reconcile_events_justified:
  assumes "e \<in> reconcile_events E C s wc cond g pending k"
  shows "acquire_justified pending (abs_event now e)"
    and "abs_event now e = Revoke \<Longrightarrow> may_revoke E C s wc cond g (snd k)"
    and "(\<And>governed p. governed_by E C s wc = Some governed \<Longrightarrow> p \<in> set governed \<Longrightarrow> expiry_ok now p) \<Longrightarrow> event_ok now e"
  using assms
  by (cases e; auto simp: reconcile_events_def pod_events_def acquire_justified_def may_revoke_def expiry_ok_def
      dest: lease_map_wanted split: if_splits option.splits)+

text \<open>C7: The reconciler implements the lease lock. Whatever a run of it does to any PDB, and whatever
  fails, the lock recorded on the PDB goes through a run of the abstract lock, which is acquired and
  reset only when it is not blocked for the Pod instance; it is acquired only for subjects whose
  requests were pending, and revoked only by a WorkloadClass that does not protect its Pods or governs
  no Pod with this PDB. For each governed Pod the time of the run plus the termination grace has to
  lie in the years 1 to 9999, which the annotation of the expiry can hold (\<open>expiry_ok\<close>).\<close>

theorem Reconcile_refines_lock:
  assumes "pdb_server_laws C" "expiration_law E" "Reconcile_WorkloadClass E C now req s tr = (r, s', tr')"
    and "\<And>wc v g d s1 governed p. status_phase E C now req s = Some (wc, v, g, d, s1) \<Longrightarrow>
      governed_by E C s1 wc = Some governed \<Longrightarrow> p \<in> set governed \<Longrightarrow> expiry_ok now p"
  shows "\<exists>es. lock_run now es (lock_of E (get_pdb C s ns nm)) (lock_of E (get_pdb C s' ns nm)) \<and>
    (\<forall>e \<in> set es. acquire_justified (fst (Drain req tr)) e) \<and>
    (Revoke \<in> set es \<longrightarrow> (\<exists>wc v g d s1. status_phase E C now req s = Some (wc, v, g, d, s1) \<and> may_revoke E C s1 wc v g nm))"
  using assms(1,3)
proof (cases rule: Reconcile_runs [where ns = ns and nm = nm])
  case stopped
  then show ?thesis by (intro exI [of _ "[]"]) (simp add: lock_run_simps)
next
  case (reconciled wc v g d s1)
  let ?A = "reconcile_events E C s1 wc v g (fst (Drain req tr)) (ns, nm)"
  obtain es where es: "pdb_run E now wc (lease_map (fst (Drain req tr))) es (get_pdb C s ns nm) (get_pdb C s' ns nm)"
    "set es \<subseteq> ?A"
    using reconciled(2) unfolding pdb_runs_in_def by blast
  have ok: "event_ok now e" if "e \<in> set es" for e
    using reconcile_events_justified(3) [of e E C s1 wc v g "fst (Drain req tr)" "(ns, nm)"] es(2) that
      assms(4) [OF reconciled(1)] by blast
  have "lock_run now (map (abs_event now) es) (lock_of E (get_pdb C s ns nm)) (lock_of E (get_pdb C s' ns nm))"
    using pdb_run_refines [OF assms(2) es(1)] ok by blast
  moreover have "\<forall>e \<in> set (map (abs_event now) es). acquire_justified (fst (Drain req tr)) e"
    using es(2) reconcile_events_justified(1) by fastforce
  moreover have "may_revoke E C s1 wc v g nm" if "Revoke \<in> set (map (abs_event now) es)"
    using that es(2) reconcile_events_justified(2) [of _ E C s1 wc v g "fst (Drain req tr)" "(ns, nm)" now] by fastforce
  ultimately show ?thesis using reconciled(1) by blast
qed

subsection \<open>How long a lease lasts\<close>

text \<open>The state of the whole system.\<close>

record 's system =
  sy_cluster :: 's
  sy_tracker :: "tracker option"
  sy_now :: go_time

text \<open>A run of the reconciler that leaves the lease on the Pod alone: if it gets to the PDBs, its
  WorkloadClass protects Pods and either governs this instance of the Pod or does not control its PDB.\<close>

definition spares :: "env \<Rightarrow> 's client \<Rightarrow> go_time \<Rightarrow> namespaced_name \<Rightarrow> 's \<Rightarrow> pod \<Rightarrow> bool" where
  "spares E C now req s p =
     (case status_phase E C now req s of None \<Rightarrow> True
      | Some (wc, v, g, d, s1) \<Rightarrow>
          protectsPods (c_reason v) g \<and>
          (case governed_by E C s1 wc of None \<Rightarrow> True
           | Some governed \<Rightarrow>
               (\<forall>q \<in> set governed. pdb_key E q = pdb_key E p \<longrightarrow> pod_uid q = pod_uid p) \<and>
               ((\<exists>q \<in> set governed. PDBName E (pod_name q) = PDBName E (pod_name p)) \<or>
                (case get_pdb C s (pod_namespace p) (PDBName E (pod_name p)) of Inl e \<Rightarrow> True
                 | Inr b \<Rightarrow> \<not> is_controlled_by E (pdb_owners b) (wc_uid wc)))))"

inductive system_step :: "env \<Rightarrow> 's client \<Rightarrow> pod \<Rightarrow> 's system \<Rightarrow> 's system \<Rightarrow> bool"
  for E :: env and C :: "'s client" and p :: pod where
  time: "sy_now \<sigma> \<le> t \<Longrightarrow> system_step E C p \<sigma> (\<sigma>\<lparr>sy_now := t\<rparr>)"
| request: "Handle E C (sy_cluster \<sigma>) (sy_now \<sigma>) req (sy_tracker \<sigma>) = (resp, tr') \<Longrightarrow>
    system_step E C p \<sigma> (\<sigma>\<lparr>sy_tracker := tr'\<rparr>)"
| reconcile: "spares E C (sy_now \<sigma>) req (sy_cluster \<sigma>) p \<Longrightarrow>
    Reconcile_WorkloadClass E C (sy_now \<sigma>) req (sy_cluster \<sigma>) (sy_tracker \<sigma>) = (r, s', tr') \<Longrightarrow>
    system_step E C p \<sigma> (\<sigma>\<lparr>sy_cluster := s', sy_tracker := tr'\<rparr>)"
| elsewhere: "get_pdb C s' (pod_namespace p) (PDBName E (pod_name p)) =
      get_pdb C (sy_cluster \<sigma>) (pod_namespace p) (PDBName E (pod_name p)) \<Longrightarrow>
    system_step E C p \<sigma> (\<sigma>\<lparr>sy_cluster := s'\<rparr>)"

inductive system_run :: "env \<Rightarrow> 's client \<Rightarrow> pod \<Rightarrow> 's system \<Rightarrow> 's system \<Rightarrow> bool"
  for E :: env and C :: "'s client" and p :: pod where
  here: "system_run E C p \<sigma> \<sigma>"
| further: "system_run E C p \<sigma> \<sigma>1 \<Longrightarrow> system_step E C p \<sigma>1 \<sigma>2 \<Longrightarrow> system_run E C p \<sigma> \<sigma>2"

lemma lease_holder_earlier:
  "lease_holder E t b p = Some x \<Longrightarrow> now \<le> t \<Longrightarrow> lease_holder E now b p = Some x"
  by (auto simp: lease_holder_lock split: lock.splits if_splits)

lemma lease_holder_uid: "pod_uid q = pod_uid p \<Longrightarrow> lease_holder E now b q = lease_holder E now b p"
  by (simp add: lease_holder_def)

lemma held_lease_reconciled:
  assumes "pdb_server_laws C" "spares E C now req s p" "Reconcile_WorkloadClass E C now req s tr = (r, s', tr')"
    and "get_pdb C s (pod_namespace p) (PDBName E (pod_name p)) = Inr b" "lease_holder E now b p = Some x"
  shows "get_pdb C s' (pod_namespace p) (PDBName E (pod_name p)) = Inr b"
  using assms(1,3)
proof (cases rule: Reconcile_runs [where ns = "pod_namespace p" and nm = "PDBName E (pod_name p)"])
  case stopped
  then show ?thesis using assms(4) by simp
next
  case (reconciled wc v g d s1)
  let ?pending = "fst (Drain req tr)" and ?R = "\<lambda>r r'. r = Inr b \<longrightarrow> r' = Inr b"
  have "?R (get_pdb C s (pod_namespace p) (PDBName E (pod_name p))) (get_pdb C s' (pod_namespace p) (PDBName E (pod_name p)))"
  proof (rule pdb_runs_induct [OF reconciled(2), of ?R])
    fix e r r'
    assume e: "e \<in> reconcile_events E C s1 wc v g ?pending (pdb_key E p)"
      and step: "pdb_step E now wc (lease_map ?pending) e r r'"
    have kept: False if "pod_uid q = pod_uid p" "existing_of r = Some existing" "r = Inr b"
      "choose_action E now q existing (lease_map ?pending) = a" "\<And>d. a \<noteq> KeepLease d" for q existing a
    proof -
      have "lease_holder E now b q = Some x" using lease_holder_uid [OF that(1)] assms(5) by simp
      then show False using chosen_not_blocked [OF that(2,4,5)] that(3) by (simp add: blocked_holder)
    qed
    show "?R r r'"
      using step
    proof cases
      case (grant existing q sub)
      then have "pod_uid q = pod_uid p"
        using e assms(2) reconciled(1) by (auto simp: reconcile_events_def pod_events_def spares_def split: if_splits option.splits)
      then show ?thesis using kept [OF _ grant(2) _ grant(3)] by auto
    next
      case (resync existing q)
      then have "pod_uid q = pod_uid p"
        using e assms(2) reconciled(1) by (auto simp: reconcile_events_def pod_events_def spares_def split: if_splits option.splits)
      then show ?thesis using kept [OF _ resync(2) _ resync(3)] by auto
    next
      case (reopen q)
      then show ?thesis
        using e assms(2) reconciled(1) by (auto simp: reconcile_events_def pod_events_def spares_def split: if_splits option.splits)
    next
      case (remove c err)
      then show ?thesis
        using e assms(2,4) reconciled(1)
        by (auto simp: reconcile_events_def pod_events_def spares_def split: if_splits option.splits)
    qed
  qed auto
  then show ?thesis using assms(4) by simp
qed

text \<open>Until it expires, a held lease stays where it is, whatever the system does.\<close>

lemma held_lease_lasts:
  assumes "pdb_server_laws C" "system_run E C p \<sigma> \<sigma>'"
    and "get_pdb C (sy_cluster \<sigma>) (pod_namespace p) (PDBName E (pod_name p)) = Inr b"
    and "lease_holder E (sy_now \<sigma>') b p = Some x"
  shows "get_pdb C (sy_cluster \<sigma>') (pod_namespace p) (PDBName E (pod_name p)) = Inr b"
  using assms(2,3,4)
proof (induction rule: system_run.induct)
  case (here \<sigma>)
  then show ?case by simp
next
  case (further \<sigma> \<sigma>1 \<sigma>2)
  have "sy_now \<sigma>1 \<le> sy_now \<sigma>2" using further(2) by cases auto
  then have held: "lease_holder E (sy_now \<sigma>1) b p = Some x" using further(5) lease_holder_earlier by blast
  then have before: "get_pdb C (sy_cluster \<sigma>1) (pod_namespace p) (PDBName E (pod_name p)) = Inr b" using further(3,4) by blast
  show ?case
    using further(2)
  proof cases
    case (reconcile req r s' tr')
    then show ?thesis using held_lease_reconciled [OF assms(1) reconcile(2,3) before held] by simp
  qed (use before in simp_all)
qed

subsection \<open>A pending request is granted\<close>

lemma ensured_label: "ensurePodUIDLabel C p s = (Inr q, s1) \<Longrightarrow> map_get (pod_labels q) PodUIDLabel = pod_uid q"
  by (auto simp: ensurePodUIDLabel_def with_uid_label_def map_get_def split: if_splits prod.splits option.splits)

lemma reconcilePodPDB_labelled:
  assumes "ensurePodUIDLabel C p s = (Inr q, s1)"
  shows "reconcilePodPDB E C now wc p leases s = reconcilePodPDB E C now wc q leases s1"
  using assms by (simp add: reconcilePodPDB_def ensurePodUIDLabel_done [OF ensured_label])

text \<open>\<open>reconcilePodPDB_granted\<close> also for a Pod that has to be labelled first.\<close>

lemma reconcilePodPDB_granted_any:
  assumes "pdb_server_laws C" "pdb_store_laws C" "expiration_law E" "owner_laws E"
    and "wanted_lease leases p = Some sub" "lease_free E C now p s"
    and "reconcilePodPDB E C now wc p leases s = (Inr d, s')" "expiry_ok now p"
  shows "\<exists>b. get_pdb C s' (pod_namespace p) (PDBName E (pod_name p)) = Inr b \<and>
    IsWorkloadClassManagedPDB E (Some b) \<and> IsPDBOpen (Some b) \<and>
    (\<forall>t. lease_holder E t b p = (if t < lease_expiry now p then Some (BypassOwnerValue sub) else None))"
proof (cases "ensurePodUIDLabel C p s")
  case (Pair r s1)
  then obtain q where q: "ensurePodUIDLabel C p s = (Inr q, s1)"
    using assms(7) by (cases r) (auto simp: reconcilePodPDB_def)
  then have pq: "q = p \<or> q = with_uid_label p" using ensurePodUIDLabel_result(2) [OF assms(1) q] by blast
  then have same: "pod_namespace q = pod_namespace p" "pod_name q = pod_name p" "pod_uid q = pod_uid p"
    "lease_expiry now q = lease_expiry now p" "LeaseDurationForPod (Some q) = LeaseDurationForPod (Some p)"
    "wanted_lease leases q = Some sub"
    using assms(5) by (auto simp: lease_expiry_def)
  have free: "lease_free E C now q s1"
    using assms(6) same lease_holder_uid [OF same(3)] ensurePodUIDLabel_result(1) [OF assms(1) q]
    by (simp add: lease_free_def split: sum.splits)
  have rec: "reconcilePodPDB E C now wc q leases s1 = (Inr d, s')"
    using assms(7) reconcilePodPDB_labelled [OF q] by simp
  have "0 \<le> now + LeaseDurationForPod (Some q)" "now + LeaseDurationForPod (Some q) < end_of_years"
    using assms(8) same(5) by (simp_all add: expiry_ok_def)
  from reconcilePodPDB_granted [OF assms(2-4) ensured_label [OF q] same(6) free rec this]
  show ?thesis by (simp add: same lease_holder_uid [OF same(3)])
qed

lemma governed_fold_errs: "\<exists>es. lo_errs (fold (governed_step E C now wc leases) ps acc) = lo_errs acc @ es"
proof (induction ps arbitrary: acc)
  case (Cons p ps)
  have "\<exists>es. lo_errs (governed_step E C now wc leases p acc) = lo_errs acc @ es"
    by (auto simp: governed_step_def split: prod.splits sum.splits)
  then show ?case using Cons [of "governed_step E C now wc leases p acc"] by auto
qed simp

lemma owned_fold_errs: "\<exists>es. lo_errs (fold (owned_step E C wc enforced wcs user_pdbs g names) bs acc) = lo_errs acc @ es"
proof (induction bs arbitrary: acc)
  case (Cons b bs)
  have "\<exists>es. lo_errs (owned_step E C wc enforced wcs user_pdbs g names b acc) = lo_errs acc @ es"
    by (auto simp: owned_step_def split: sum.splits prod.splits)
  then show ?case using Cons [of "owned_step E C wc enforced wcs user_pdbs g names b acc"] by auto
qed simp

lemma pdb_runs_none: "pdb_runs_in E now wc leases {} r r' \<Longrightarrow> r' = r"
  by (auto simp: pdb_runs_in_def pdb_run_simps)

lemma governed_fold_other:
  assumes "pdb_server_laws C" "\<forall>q \<in> set ps. pdb_key E q \<noteq> (ns, nm)"
  shows "get_pdb C (lo_state (fold (governed_step E C now wc leases) ps acc)) ns nm = get_pdb C (lo_state acc) ns nm"
proof -
  have "(\<Union>p \<in> set ps. pod_events E leases (ns, nm) p) = {}"
    using assms(2) by (fastforce simp: pod_events_def)
  then show ?thesis
    using governed_fold_runs [OF assms(1), of E now wc leases ns nm ps acc] pdb_runs_none by simp
qed

lemma owned_fold_other:
  assumes "pdb_server_laws C" "nm \<in> names"
  shows "get_pdb C (lo_state (fold (owned_step E C wc enforced wcs user_pdbs g names) bs acc)) ns nm = get_pdb C (lo_state acc) ns nm"
  using owned_fold_runs [OF assms(1), of nm names "{}"] assms(2) pdb_runs_none by blast

lemma reconcilePDBs_protecting:
  assumes "time_unset (wc_deletion wc)" "protectsPods (c_reason cond) g" "list_pdbs C s (wc_namespace wc) = Inr pdbs"
    and "governance E C s wc (user_pdbs_of E wc pdbs) = Inr (enforced, wcs, governed)"
    and "names = set (map (\<lambda>p. PDBName E (pod_name p)) governed)"
  shows "reconcilePDBs E C now wc cond g pending s tr =
    (let l1 = fold (governed_step E C now wc (lease_map pending)) governed (loop_start s tr);
         l2 = fold (owned_step E C wc enforced wcs (user_pdbs_of E wc pdbs) g names) (owned_pdbs E wc pdbs) l1
     in (case join_errors (lo_errs l2) of Some e \<Rightarrow> Inl e | None \<Rightarrow> Inr (lo_requeue l2), lo_state l2, lo_tracker l2))"
  using assms by (simp add: reconcilePDBs_def loop_start_def Let_def)

lemma reconcilePDBs_granted:
  assumes laws: "pdb_server_laws C" "pdb_store_laws C" "expiration_law E" "owner_laws E"
    and phase: "time_unset (wc_deletion wc)" "protectsPods (c_reason cond) g"
    and governed: "governed_by E C s wc = Some (ps1 @ p # ps2)" "\<forall>q \<in> set (ps1 @ ps2). pdb_key E q \<noteq> pdb_key E p"
    and wanted: "wanted_lease (lease_map pending) p = Some sub" "lease_free E C now p s" "expiry_ok now p"
    and rec: "reconcilePDBs E C now wc cond g pending s tr = (Inr d, s', tr')"
  shows "\<exists>b. get_pdb C s' (pod_namespace p) (PDBName E (pod_name p)) = Inr b \<and>
    IsWorkloadClassManagedPDB E (Some b) \<and> IsPDBOpen (Some b) \<and>
    (\<forall>t. lease_holder E t b p = (if t < lease_expiry now p then Some (BypassOwnerValue sub) else None))"
proof -
  define gs where gs: "gs = ps1 @ p # ps2"
  obtain pdbs enforced wcs where gov: "list_pdbs C s (wc_namespace wc) = Inr pdbs"
    "governance E C s wc (user_pdbs_of E wc pdbs) = Inr (enforced, wcs, gs)"
    using governed(1) unfolding gs by (auto simp: governed_by_def split: sum.splits prod.splits)
  define names where names: "names = set (map (\<lambda>p. PDBName E (pod_name p)) gs)"
  let ?get = "\<lambda>acc. get_pdb C (lo_state acc) (pod_namespace p) (PDBName E (pod_name p))"
  let ?step = "governed_step E C now wc (lease_map pending)"
  let ?a0 = "fold ?step ps1 (loop_start s tr)"
  let ?a1 = "fold ?step ps2 (?step p ?a0)"
  let ?a2 = "fold (owned_step E C wc enforced wcs (user_pdbs_of E wc pdbs) g names) (owned_pdbs E wc pdbs) ?a1"
  have "reconcilePDBs E C now wc cond g pending s tr =
      (case join_errors (lo_errs ?a2) of Some e \<Rightarrow> Inl e | None \<Rightarrow> Inr (lo_requeue ?a2), lo_state ?a2, lo_tracker ?a2)"
    unfolding reconcilePDBs_protecting [OF phase gov names] by (simp add: gs Let_def)
  then have result: "lo_errs ?a2 = []" "s' = lo_state ?a2"
    using rec by (auto split: option.splits)
  have in_names: "PDBName E (pod_name p) \<in> names" by (simp add: names gs)
  have other: "?get ?a0 = get_pdb C s (pod_namespace p) (PDBName E (pod_name p))" "?get ?a1 = ?get (?step p ?a0)" "?get ?a2 = ?get ?a1"
    using governed(2) by (simp_all add: governed_fold_other [OF laws(1)] owned_fold_other [OF laws(1) in_names] loop_start_def)
  obtain r t where pod: "reconcilePodPDB E C now wc p (lease_map pending) (lo_state ?a0) = (r, t)"
    by (cases "reconcilePodPDB E C now wc p (lease_map pending) (lo_state ?a0)")
  have "lo_errs (?step p ?a0) = []"
    using result(1) governed_fold_errs [of E C now wc "lease_map pending" ps2 "?step p ?a0"]
      owned_fold_errs [of E C wc enforced wcs "user_pdbs_of E wc pdbs" g names "owned_pdbs E wc pdbs" ?a1] by auto
  then obtain x where x: "r = Inr x" "lo_state (?step p ?a0) = t"
    using pod by (cases r) (auto simp: governed_step_def)
  have "lease_free E C now p (lo_state ?a0)" using wanted(2) other(1) by (simp add: lease_free_def)
  from reconcilePodPDB_granted_any [OF laws wanted(1) this pod [unfolded x(1)] wanted(3)]
  show ?thesis using other(2,3) x(2) result(2) by simp
qed

lemma drained_wanted:
  assumes "tracker_ok t" "lease_of t k (pod_name p) = Some l" "pl_pod_uid l = pod_uid p"
  shows "wanted_lease (lease_map (fst (Drain k (Some t)))) p = Some (pl_subject l)"
proof -
  have name: "pl_pod_name l = pod_name p" using leases.look_name [OF assms(1,2)] .
  have "l \<in> set (fst (take_leases k t))"
    by (rule iffD2 [OF leases.take_set [OF assms(1)]]) (simp add: name assms(2))
  then have "lease_map (fst (take_leases k t)) (pl_pod_name l) = Some l"
    using leases.take_sorted [OF assms(1), of k] by (simp add: lease_map_mem strict_sorted_iff)
  then show ?thesis using assms(3) name by (simp add: wanted_lease_def Drain_take)
qed

text \<open>A request the webhook recorded is granted by the next reconciliation that succeeds. If the
  tracker holds a lease request for a Pod instance under the WorkloadClass, which protects its Pods and
  governs this Pod, and the Pod's PDB is absent or managed and free, then after the run the PDB is
  managed and open, and the requesting subject holds it from then until the time of the run plus the
  Pod's termination grace.\<close>

theorem Reconcile_grants_pending:
  assumes "pdb_server_laws C" "pdb_store_laws C" "expiration_law E" "owner_laws E"
    and "tracker_ok t" "lease_of t req (pod_name p) = Some l" "pl_pod_uid l = pod_uid p"
    and "status_phase E C now req s = Some (wc, v, g, d, s1)" "time_unset (wc_deletion wc)" "protectsPods (c_reason v) g"
    and "governed_by E C s1 wc = Some (ps1 @ p # ps2)" "\<forall>q \<in> set (ps1 @ ps2). pdb_key E q \<noteq> pdb_key E p"
    and "lease_free E C now p s" "expiry_ok now p"
    and "Reconcile_WorkloadClass E C now req s (Some t) = (Inr requeue, s', tr')"
  shows "\<exists>b. get_pdb C s' (pod_namespace p) (PDBName E (pod_name p)) = Inr b \<and>
    IsWorkloadClassManagedPDB E (Some b) \<and> IsPDBOpen (Some b) \<and>
    (\<forall>time. lease_holder E time b p =
       (if time < lease_expiry now p then Some (BypassOwnerValue (pl_subject l)) else None))"
proof -
  obtain q where rec: "reconcilePDBs E C now wc v g (fst (Drain req (Some t))) s1 (snd (Drain req (Some t))) = (Inr q, s', tr')"
  proof -
    obtain res where "reconcilePDBs E C now wc v g (fst (Drain req (Some t))) s1 (snd (Drain req (Some t))) = (res, s', tr')"
        "Inr requeue = (case res of Inl e \<Rightarrow> Inl e | Inr q \<Rightarrow> Inr (minPositiveDuration d q))"
      using Reconcile_phases [OF assms(15)] assms(8) by auto
    then show thesis using that by (cases res) auto
  qed
  have "lease_free E C now p s1"
    using assms(13) status_phase_pdbs [OF assms(1,8)] by (simp add: lease_free_def)
  from reconcilePDBs_granted [OF assms(1-4,9-12) drained_wanted [OF assms(5-7)] this assms(14) rec]
  show ?thesis .
qed

definition web_request :: tracker where
  "web_request = put_lease (''prod'', ''web'') (lease_for sample_pod sample_subject) (NewPendingLeaseTracker 8)"

definition one_governed :: "(workload_class \<times> condition \<times> bool \<times> duration \<times> cluster) option \<Rightarrow> bool" where
  "one_governed x =
     (case x of None \<Rightarrow> False
      | Some (wc, v, g, d, s1) \<Rightarrow> time_unset (wc_deletion wc) \<and> protectsPods (c_reason v) g \<and>
          (case governed_by ref_env ref_client s1 wc of None \<Rightarrow> False
           | Some ps \<Rightarrow> length ps = 1 \<and> (let p = hd ps in
               pod_name p = ''web-0'' \<and> pod_uid p = ''p1'' \<and> pod_namespace p = ''prod'' \<and> expiry_ok 5 p \<and>
               lease_expiry 5 p = 30000000005)))"

lemma one_governedE:
  assumes "one_governed x"
  obtains wc v g d s1 p where "x = Some (wc, v, g, d, s1)" "time_unset (wc_deletion wc)" "protectsPods (c_reason v) g"
    "governed_by ref_env ref_client s1 wc = Some [p]" "pod_name p = ''web-0''" "pod_uid p = ''p1''" "pod_namespace p = ''prod''"
    "expiry_ok 5 p" "lease_expiry 5 p = 30000000005"
proof -
  obtain wc v g d s1 where x: "x = Some (wc, v, g, d, s1)"
    using assms by (cases x) (auto simp: one_governed_def)
  then obtain ps where ps: "governed_by ref_env ref_client s1 wc = Some ps"
    using assms by (cases "governed_by ref_env ref_client s1 wc") (auto simp: one_governed_def)
  then have "length ps = 1" using assms x by (simp add: one_governed_def)
  then obtain p where "ps = [p]" by (auto simp: length_Suc_conv)
  then show thesis using that assms x ps by (simp add: one_governed_def)
qed

lemma web_phase: "one_governed (status_phase ref_env ref_client 5 (''prod'', ''web'') sample_cluster)"
  by code_simp

lemma web_reconciled:
  "case Reconcile_WorkloadClass ref_env ref_client 5 (''prod'', ''web'') sample_cluster (Some web_request) of
     (Inr d, s', tr') \<Rightarrow> True | _ \<Rightarrow> False"
  by code_simp

lemma Reconcile_grants_pending_witness:
  "\<exists>d s' tr' b. Reconcile_WorkloadClass ref_env ref_client 5 (''prod'', ''web'') sample_cluster (Some web_request) = (Inr d, s', tr') \<and>
     get_pdb ref_client s' ''prod'' (PDBName ref_env ''web-0'') = Inr b \<and>
     lease_holder ref_env 30000000004 b sample_pod = Some ''user:ops'' \<and>
     lease_holder ref_env 30000000005 b sample_pod = None"
proof -
  let ?l = "lease_for sample_pod sample_subject" and ?k = "(''prod'', ''web'')"
  obtain d s' tr' where rec: "Reconcile_WorkloadClass ref_env ref_client 5 ?k sample_cluster (Some web_request) = (Inr d, s', tr')"
    using web_reconciled by (auto split: prod.splits sum.splits)
  obtain wc v g d0 s1 p where phase: "status_phase ref_env ref_client 5 ?k sample_cluster = Some (wc, v, g, d0, s1)"
    "time_unset (wc_deletion wc)" "protectsPods (c_reason v) g"
    and p: "governed_by ref_env ref_client s1 wc = Some ([] @ p # [])" "pod_name p = ''web-0''" "pod_uid p = ''p1''"
      "pod_namespace p = ''prod''" "expiry_ok 5 p" "lease_expiry 5 p = 30000000005"
    using one_governedE [OF web_phase] by (metis append_Nil)
  have ok: "tracker_ok web_request" by (simp add: web_request_def tracker_ok_put)
  have lease: "lease_of web_request ?k (pod_name p) = Some ?l" "pl_pod_uid ?l = pod_uid p" "pl_subject ?l = sample_subject"
    using p(2,3) lease_of_put [of ?k ?l "NewPendingLeaseTracker 8" ?k "pl_pod_name ?l"]
    by (simp_all add: web_request_def sample_pod_def)
  have free: "lease_free ref_env ref_client 5 p sample_cluster" by (simp add: lease_free_def)
  have uid: "pod_uid sample_pod = pod_uid p" using p(3) by (simp add: sample_pod_def)
  from Reconcile_grants_pending [OF pdb_server_laws_ref pdb_store_laws_ref expiration_law_ref_env owner_laws_ref_env ok
      lease(1,2) phase(1-3) p(1) _ free p(5) rec]
  show ?thesis
    using rec p(2,4,6) lease_holder_uid [OF uid] by (fastforce simp: lease(3) BypassOwnerValue_def sample_subject_def)
qed

lemma Reconcile_refines_lock_witness:
  "let (r, s', tr') = Reconcile_WorkloadClass ref_env ref_client 5 (''prod'', ''web'') sample_cluster (Some web_request)
   in \<exists>es. lock_run 5 es Free (lock_of ref_env (get_pdb ref_client s' ''prod'' (PDBName ref_env ''web-0''))) \<and> Revoke \<notin> set es"
proof -
  let ?k = "(''prod'', ''web'')"
  obtain r s' tr' where rec: "Reconcile_WorkloadClass ref_env ref_client 5 ?k sample_cluster (Some web_request) = (r, s', tr')"
    by (metis prod_cases3)
  obtain wc v g d s1 p where phase: "status_phase ref_env ref_client 5 ?k sample_cluster = Some (wc, v, g, d, s1)"
    "protectsPods (c_reason v) g" "governed_by ref_env ref_client s1 wc = Some [p]" "pod_name p = ''web-0''" "expiry_ok 5 p"
    using one_governedE [OF web_phase] by metis
  have ok: "expiry_ok 5 q" if "status_phase ref_env ref_client 5 ?k sample_cluster = Some (wc', v', g', d', s1')"
    "governed_by ref_env ref_client s1' wc' = Some governed" "q \<in> set governed" for wc' v' g' d' s1' governed q
    using that phase by simp
  let ?nm = "PDBName ref_env ''web-0''"
  have "\<exists>es. lock_run 5 es (lock_of ref_env (get_pdb ref_client sample_cluster ''prod'' ?nm)) (lock_of ref_env (get_pdb ref_client s' ''prod'' ?nm)) \<and>
      (\<forall>e \<in> set es. acquire_justified (fst (Drain ?k (Some web_request))) e) \<and>
      (Revoke \<in> set es \<longrightarrow> (\<exists>wc v g d s1. status_phase ref_env ref_client 5 ?k sample_cluster = Some (wc, v, g, d, s1) \<and>
         may_revoke ref_env ref_client s1 wc v g ?nm))"
    by (rule Reconcile_refines_lock [OF pdb_server_laws_ref expiration_law_ref_env rec]) (rule ok)
  moreover have "lock_of ref_env (get_pdb ref_client sample_cluster ''prod'' ?nm) = Free" by simp
  moreover have "\<not> may_revoke ref_env ref_client s1 wc v g ?nm"
    using phase(2-4) by (simp add: may_revoke_def)
  ultimately show ?thesis using rec phase(1) by auto
qed

end
