(* ===== verification/Lease_Requests.thy ===== *)
theory Lease_Requests
  imports Lease_System
begin

text \<open>
  From a request to a lease. The tracker of the system only changes by single puts of the webhook and the
  reconciler and by the reconciler taking all requests of one WorkloadClass, so a request waits unchanged
  until the reconciler runs for its WorkloadClass, which then grants it. \<open>waiting_step\<close> is what the
  system may do meanwhile.
\<close>

subsection \<open>How the handlers change the tracker\<close>

lemma Handle_tracker:
  "snd (Handle E C s now req (Some t)) = Some t \<or>
   (\<exists>p wc event sub. get_pod C s (req_namespace req) (req_name req) = Inr p \<and>
      FindBestMatchWorkloadClass E C s True (Some p) = Inr (Some wc, event) \<and>
      snd (Handle E C s now req (Some t)) = Some (put_lease (wc_key wc) (lease_for p sub) t))"
proof (cases "snd (Handle E C s now req (Some t)) = Some t")
  case False
  then show ?thesis
    using Handle_enqueues [of E C s now req t "fst (Handle E C s now req (Some t))" "snd (Handle E C s now req (Some t))"]
    by (fastforce simp: Enqueue_put wc_key_def)
qed simp

text \<open>A property of the tracker that every put under a key keeps holds after the reconciler worked on
  that key.\<close>

lemma governed_fold_keeps:
  assumes put: "\<And>l t. Q t \<Longrightarrow> Q (put_lease (wc_key wc) l t)"
    and "lo_tracker acc = Some t" "Q t"
  shows "\<exists>t'. lo_tracker (fold (governed_step E C now wc leases) ps acc) = Some t' \<and> Q t'"
  using assms(2,3)
proof (induction ps arbitrary: acc t)
  case (Cons p ps)
  have "\<exists>t'. lo_tracker (governed_step E C now wc leases p acc) = Some t' \<and> Q t'"
    using Cons.prems put
    by (auto simp: governed_step_def reenqueue_put split: prod.splits sum.splits option.splits)
  then show ?case using Cons.IH by auto
qed simp

lemma reenqueue_keeps:
  assumes "\<And>l t. Q t \<Longrightarrow> Q (put_lease (wc_key wc) l t)" "Q t"
  shows "\<exists>t'. reenqueueLeases wc ls (Some t) = Some t' \<and> Q t'"
proof -
  have "Q (fold (put_lease (wc_key wc)) ls t)"
    using assms by (induction ls arbitrary: t) simp_all
  then show ?thesis by (simp add: reenqueue_put)
qed

lemma reconcilePDBs_keeps:
  assumes put: "\<And>l t. Q t \<Longrightarrow> Q (put_lease (wc_key wc) l t)"
    and "reconcilePDBs E C now wc cond g pending s (Some t) = (r, s', tr')" "Q t"
  shows "\<exists>t'. tr' = Some t' \<and> Q t'"
proof (cases "time_unset (wc_deletion wc) \<and> protectsPods (c_reason cond) g")
  case True
  then show ?thesis
    using reconcilePDBs_tracker [OF assms(2)] reenqueue_keeps [of Q wc, OF put assms(3)]
      governed_fold_keeps [of Q wc "loop_start s (Some t)", OF put _ assms(3)]
    by (fastforce simp: loop_start_def)
next
  case False
  then show ?thesis
    using assms(2,3) reenqueue_keeps [of Q wc, OF put assms(3)]
    by (auto simp: reconcilePDBs_def Let_def split: if_splits sum.splits prod.splits)
qed

lemma Reconcile_keeps:
  assumes "get_key_law C" "Reconcile_WorkloadClass E C now req s (Some t) = (r, s', tr')"
    and put: "\<And>l t. Q t \<Longrightarrow> Q (put_lease req l t)" and take: "\<And>t. Q t \<Longrightarrow> Q (snd (take_leases req t))" and "Q t"
  shows "\<exists>t'. tr' = Some t' \<and> Q t'"
proof -
  consider (early) "tr' = Some t" | (gone) "tr' = snd (Drain req (Some t))"
    | (drained) wc v g pending s1 tr1 res where "wc_key wc = req" "Drain req (Some t) = (pending, tr1)"
        "reconcilePDBs E C now wc v g pending s1 tr1 = (res, s', tr')"
  proof -
    have "tr' = snd (Drain req (Some t))" if "get_wc C s (fst req) (snd req) = Inl err" "is_not_found err" for err
      using assms(2) that by (simp add: Reconcile_WorkloadClass_def)
    then show thesis using Reconcile_split [OF assms(1,2)] that by metis
  qed
  then show ?thesis
  proof cases
    case drained
    then show ?thesis
      using reconcilePDBs_keeps [of Q wc E C now v g pending s1 "snd (take_leases req t)"] put take \<open>Q t\<close>
      by (simp add: Drain_take)
  qed (use take \<open>Q t\<close> in \<open>simp_all add: Drain_take\<close>)
qed

subsection \<open>Waiting for the reconciler\<close>

text \<open>What may happen while a request for the Pod waits under the key \<open>k\<close>: the clock advances, eviction
  requests are handled, as long as the Pod is not replaced by another of its name, the reconciler runs
  for other WorkloadClasses, and the cluster changes in any way.\<close>

inductive waiting_step :: "env \<Rightarrow> 's client \<Rightarrow> namespaced_name \<Rightarrow> pod \<Rightarrow> 's system \<Rightarrow> 's system \<Rightarrow> bool"
  for E :: env and C :: "'s client" and k :: namespaced_name and p :: pod where
  time: "sy_now \<sigma> \<le> t \<Longrightarrow> waiting_step E C k p \<sigma> (\<sigma>\<lparr>sy_now := t\<rparr>)"
| request: "(\<And>q wc event. get_pod C (sy_cluster \<sigma>) (req_namespace req) (req_name req) = Inr q \<Longrightarrow>
        FindBestMatchWorkloadClass E C (sy_cluster \<sigma>) True (Some q) = Inr (Some wc, event) \<Longrightarrow>
        wc_key wc = k \<Longrightarrow> pod_name q = pod_name p \<Longrightarrow> pod_uid q = pod_uid p) \<Longrightarrow>
    Handle E C (sy_cluster \<sigma>) (sy_now \<sigma>) req (sy_tracker \<sigma>) = (resp, tr') \<Longrightarrow>
    waiting_step E C k p \<sigma> (\<sigma>\<lparr>sy_tracker := tr'\<rparr>)"
| reconcile: "req \<noteq> k \<Longrightarrow>
    Reconcile_WorkloadClass E C (sy_now \<sigma>) req (sy_cluster \<sigma>) (sy_tracker \<sigma>) = (r, s', tr') \<Longrightarrow>
    waiting_step E C k p \<sigma> (\<sigma>\<lparr>sy_cluster := s', sy_tracker := tr'\<rparr>)"
| elsewhere: "waiting_step E C k p \<sigma> (\<sigma>\<lparr>sy_cluster := s'\<rparr>)"

definition waits :: "namespaced_name \<Rightarrow> pod \<Rightarrow> pending_lease \<Rightarrow> tracker \<Rightarrow> bool" where
  "waits k p l t = (tracker_ok t \<and> lease_of t k (pod_name p) = Some l \<and> pl_pod_uid l = pod_uid p)"

text \<open>A put keeps a waiting request unless it is for another instance of the same Pod; the requests of
  other WorkloadClasses being taken keeps it too.\<close>

lemma waits_put:
  "waits k p l t \<Longrightarrow> (k' = k \<Longrightarrow> pl_pod_name x = pod_name p \<Longrightarrow> pl_pod_uid x = pod_uid p) \<Longrightarrow>
   waits k p l (put_lease k' x t)"
  by (auto simp: waits_def tracker_ok_put lease_of_put)

lemma waits_take: "waits k p l t \<Longrightarrow> k' \<noteq> k \<Longrightarrow> waits k p l (snd (take_leases k' t))"
  by (auto simp: waits_def leases.take_ok leases.look_take)

lemma waiting_step_waits:
  assumes "get_key_law C" "waiting_step E C k p \<sigma> \<sigma>'" "sy_tracker \<sigma> = Some t" "waits k p l t"
  shows "\<exists>t'. sy_tracker \<sigma>' = Some t' \<and> waits k p l t'"
  using assms(2)
proof cases
  case (request req resp tr')
  then show ?thesis
    using Handle_tracker [of E C "sy_cluster \<sigma>" "sy_now \<sigma>" req t] assms(3,4)
    by (fastforce simp: lease_for_def intro: waits_put)
next
  case (reconcile req r s' tr')
  have put: "waits k p l u \<Longrightarrow> waits k p l (put_lease req x u)" for x u using waits_put [of k p l u req x] reconcile(2) by simp
  have take: "waits k p l u \<Longrightarrow> waits k p l (snd (take_leases req u))" for u using waits_take reconcile(2) by simp
  show ?thesis
    using Reconcile_keeps [OF assms(1) reconcile(3) [unfolded assms(3)], of "waits k p l", OF put take assms(4)] reconcile(1) by simp
qed (use assms(3,4) in simp_all)

lemma waiting_waits:
  assumes "get_key_law C" "(waiting_step E C k p)\<^sup>*\<^sup>* \<sigma> \<sigma>'" "sy_tracker \<sigma> = Some t" "waits k p l t"
  shows "\<exists>t'. sy_tracker \<sigma>' = Some t' \<and> waits k p l t'"
  using assms(2-4) by (induction arbitrary: t rule: converse_rtranclp_induct) (auto dest: waiting_step_waits [OF assms(1)])

subsection \<open>The request is granted\<close>

text \<open>An eviction request that has to ask for a lease: an allowed subject asks for a Pod whose managed
  PDB is closed and held by nobody, and no request is pending for a Pod of this name.\<close>

definition asks_for_lease :: "env \<Rightarrow> 's client \<Rightarrow> 's system \<Rightarrow> request \<Rightarrow> tracker \<Rightarrow> pod \<Rightarrow> workload_class \<Rightarrow> subject \<Rightarrow> bool" where
  "asks_for_lease E C \<sigma> req t p wc sub =
     (req_sub_resource req = ''eviction'' \<and> get_pod C (sy_cluster \<sigma>) (req_namespace req) (req_name req) = Inr p \<and>
      (\<exists>event. FindBestMatchWorkloadClass E C (sy_cluster \<sigma>) True (Some p) = Inr (Some wc, event)) \<and>
      \<not> failed_guardrails E wc \<and> \<not> dp_emergency (wc_policy wc) \<and>
      (\<exists>subs. matching_subjects req (dp_allowed_outside (wc_policy wc)) = sub # subs) \<and>
      (\<exists>b. get_pdb C (sy_cluster \<sigma>) (pod_namespace p) (PDBName E (pod_name p)) = Inr b \<and>
         IsWorkloadClassManagedPDB E (Some b) \<and> lease_holder E (sy_now \<sigma>) b p = None \<and> \<not> IsPDBOpen (Some b)) \<and>
      sy_tracker \<sigma> = Some t \<and> tracker_ok t \<and> lease_of t (wc_key wc) (pod_name p) = None)"

text \<open>A state in which the reconciler can grant a lease on the Pod: its run for the WorkloadClass reaches
  the PDBs, the class protects Pods, governs the Pod, and nobody holds the Pod's PDB.\<close>

definition can_grant :: "env \<Rightarrow> 's client \<Rightarrow> 's system \<Rightarrow> namespaced_name \<Rightarrow> pod \<Rightarrow> bool" where
  "can_grant E C \<sigma> k p =
     (lease_free E C (sy_now \<sigma>) p (sy_cluster \<sigma>) \<and> expiry_ok (sy_now \<sigma>) p \<and>
      (case status_phase E C (sy_now \<sigma>) k (sy_cluster \<sigma>) of None \<Rightarrow> False
       | Some (wc, v, g, d, s1) \<Rightarrow> time_unset (wc_deletion wc) \<and> protectsPods (c_reason v) g \<and>
           (case governed_by E C s1 wc of None \<Rightarrow> False
            | Some governed \<Rightarrow> p \<in> set governed \<and> distinct (map (pdb_key E) governed))))"

lemma handleAuthorizedSubject_asks:
  assumes "get_pdb C s (pod_namespace p) (PDBName E (pod_name p)) = Inr b" "IsWorkloadClassManagedPDB E (Some b)"
    and "lease_holder E now b p = None" "\<not> IsPDBOpen (Some b)"
  shows "is_allowed (fst (handleAuthorizedSubject E C s now wc p (sub # subs) (Some t))) \<and>
    snd (handleAuthorizedSubject E C s now wc p (sub # subs) (Some t)) = Some (put_lease (wc_key wc) (lease_for p sub) t)"
proof -
  have "AllowLease E now (Some b) (Some p)" using assms(2,3) by (simp add: AllowLease_holder)
  moreover have "find (\<lambda>x. SubjectAlreadyLeasing E now (Some b) (Some p) x) (sub # subs) = None"
    using assms(2,3) find_leasing [OF assms(2), of now p "sub # subs"] by (auto split: option.splits)
  ultimately show ?thesis
    using assms by (simp add: handleAuthorizedSubject_def Let_def Enqueue_put wc_key_def)
qed

lemma asks_for_lease_recorded:
  assumes "asks_for_lease E C \<sigma> req t p wc sub"
  shows "is_allowed (fst (Handle E C (sy_cluster \<sigma>) (sy_now \<sigma>) req (sy_tracker \<sigma>)))"
    and "\<exists>t'. snd (Handle E C (sy_cluster \<sigma>) (sy_now \<sigma>) req (sy_tracker \<sigma>)) = Some t' \<and>
      waits (wc_key wc) p (lease_for p sub) t'"
proof -
  obtain event subs b where a: "FindBestMatchWorkloadClass E C (sy_cluster \<sigma>) True (Some p) = Inr (Some wc, event)"
    "matching_subjects req (dp_allowed_outside (wc_policy wc)) = sub # subs"
    "get_pdb C (sy_cluster \<sigma>) (pod_namespace p) (PDBName E (pod_name p)) = Inr b" "IsWorkloadClassManagedPDB E (Some b)"
    "lease_holder E (sy_now \<sigma>) b p = None" "\<not> IsPDBOpen (Some b)"
    using assms by (auto simp: asks_for_lease_def)
  have handle: "Handle E C (sy_cluster \<sigma>) (sy_now \<sigma>) req (sy_tracker \<sigma>) =
      handleAuthorizedSubject E C (sy_cluster \<sigma>) (sy_now \<sigma>) wc p (sub # subs) (Some t)"
    using assms a(1,2) by (simp add: Handle_def asks_for_lease_def)
  note asked = handleAuthorizedSubject_asks [OF a(3-6), of wc sub subs t]
  show "is_allowed (fst (Handle E C (sy_cluster \<sigma>) (sy_now \<sigma>) req (sy_tracker \<sigma>)))" using handle asked by simp
  have "waits (wc_key wc) p (lease_for p sub) (put_lease (wc_key wc) (lease_for p sub) t)"
    using assms by (simp add: waits_def asks_for_lease_def tracker_ok_put lease_of_put lease_for_def)
  then show "\<exists>t'. snd (Handle E C (sy_cluster \<sigma>) (sy_now \<sigma>) req (sy_tracker \<sigma>)) = Some t' \<and>
      waits (wc_key wc) p (lease_for p sub) t'" using handle asked by simp
qed

text \<open>C2: An eviction request of an allowed subject leads to a lease. If the webhook handles a request that
  has to ask for a lease, it lets the request pass and remembers the subject; whatever then happens
  short of a run of the reconciler for this WorkloadClass or the Pod being replaced, the next such run,
  if it succeeds in a state in which it can grant a lease on the Pod, opens the Pod's managed PDB for
  this subject, who holds it until the time of the run plus the Pod's termination grace, to the
  nanosecond. (That expiry has to lie in the years 1 to 9999, which the annotation can hold; being able
  to grant, \<open>can_grant\<close>, says so.)\<close>

theorem eviction_request_granted:
  assumes "pdb_server_laws C" "pdb_store_laws C" "get_key_law C" "expiration_law E" "owner_laws E"
    and "asks_for_lease E C \<sigma> req t p wc sub"
    and "Handle E C (sy_cluster \<sigma>) (sy_now \<sigma>) req (sy_tracker \<sigma>) = (resp, tr1)"
    and "(waiting_step E C (wc_key wc) p)\<^sup>*\<^sup>* (\<sigma>\<lparr>sy_tracker := tr1\<rparr>) \<sigma>'"
    and "can_grant E C \<sigma>' (wc_key wc) q" "pod_namespace q = pod_namespace p" "pod_name q = pod_name p" "pod_uid q = pod_uid p"
    and "Reconcile_WorkloadClass E C (sy_now \<sigma>') (wc_key wc) (sy_cluster \<sigma>') (sy_tracker \<sigma>') = (Inr requeue, s', tr')"
  shows "is_allowed resp \<and> (\<exists>b. get_pdb C s' (pod_namespace p) (PDBName E (pod_name p)) = Inr b \<and>
    IsWorkloadClassManagedPDB E (Some b) \<and> IsPDBOpen (Some b) \<and>
    (\<forall>time. lease_holder E time b p =
       (if time < lease_expiry (sy_now \<sigma>') q then Some (BypassOwnerValue sub) else None)))"
proof -
  obtain t1 where "tr1 = Some t1" "waits (wc_key wc) p (lease_for p sub) t1"
    using asks_for_lease_recorded(2) [OF assms(6)] assms(7) by auto
  then obtain t2 where t2: "sy_tracker \<sigma>' = Some t2" "waits (wc_key wc) p (lease_for p sub) t2"
    using waiting_waits [OF assms(3,8)] by auto
  then have waiting: "tracker_ok t2" "lease_of t2 (wc_key wc) (pod_name q) = Some (lease_for p sub)" "pl_pod_uid (lease_for p sub) = pod_uid q"
    using assms(11,12) by (auto simp: waits_def)
  obtain w v g d s1 governed where phase: "status_phase E C (sy_now \<sigma>') (wc_key wc) (sy_cluster \<sigma>') = Some (w, v, g, d, s1)"
    "time_unset (wc_deletion w)" "protectsPods (c_reason v) g"
    and gov: "governed_by E C s1 w = Some governed" "q \<in> set governed" "distinct (map (pdb_key E) governed)"
    and free: "lease_free E C (sy_now \<sigma>') q (sy_cluster \<sigma>')" "expiry_ok (sy_now \<sigma>') q"
    using assms(9) by (auto simp: can_grant_def split: option.splits)
  obtain ps1 ps2 where ps: "governed = ps1 @ q # ps2" using gov(2) by (meson split_list)
  then have "\<forall>x \<in> set (ps1 @ ps2). pdb_key E x \<noteq> pdb_key E q" using gov(3) by (auto simp: image_iff)
  note granted = Reconcile_grants_pending [OF assms(1,2,4,5) waiting phase gov(1) [unfolded ps] this free assms(13) [unfolded t2(1)]]
  have "pl_subject (lease_for p sub) = sub" by (simp add: lease_for_def)
  then show ?thesis
    using granted asks_for_lease_recorded(1) [OF assms(6)] assms(7)
    by (simp only: assms(10,11) lease_holder_uid [OF assms(12)] fst_conv simp_thms)
qed

definition asking :: "cluster system" where
  "asking = \<lparr>sy_cluster = ops_cluster, sy_tracker = Some (NewPendingLeaseTracker 8), sy_now = 1\<rparr>"

lemma ops_asks: "asks_for_lease ref_env ref_client asking sample_request (NewPendingLeaseTracker 8) sample_pod ops_wc sample_subject"
  using ops_governs [of True] ops_pod ops_subjects ops_pdb sample_pdb_free sample_pdb_managed ops_active
  by (simp add: asks_for_lease_def asking_def) (simp add: sample_request_def)

lemma ops_recorded:
  "snd (Handle ref_env ref_client ops_cluster 1 sample_request (Some (NewPendingLeaseTracker 8))) = Some web_request"
proof -
  have "wc_key ops_wc = (''prod'', ''web'')" by (simp add: ops_wc_def wc_key_def sample_wc_def)
  then show ?thesis
    using handleAuthorizedSubject_asks [OF ops_pdb sample_pdb_managed sample_pdb_free, of 1 ops_wc sample_subject "[]"]
      ops_governs [of True] ops_pod ops_subjects ops_active
    by (simp add: Handle_def web_request_def) (simp add: sample_request_def)
qed

lemma ops_phase: "one_governed (status_phase ref_env ref_client 5 (''prod'', ''web'') ops_cluster)"
  by code_simp

lemma ops_reconciled:
  "case Reconcile_WorkloadClass ref_env ref_client 5 (''prod'', ''web'') ops_cluster (Some web_request) of
     (Inr d, s', tr') \<Rightarrow> True | _ \<Rightarrow> False"
  by code_simp

lemma eviction_request_granted_witness:
  "\<exists>resp tr d s' tr' b. Handle ref_env ref_client ops_cluster 1 sample_request (Some (NewPendingLeaseTracker 8)) = (resp, tr) \<and>
     Reconcile_WorkloadClass ref_env ref_client 5 (''prod'', ''web'') ops_cluster tr = (Inr d, s', tr') \<and>
     get_pdb ref_client s' ''prod'' (PDBName ref_env ''web-0'') = Inr b \<and> IsPDBOpen (Some b) \<and>
     lease_holder ref_env 30000000004 b sample_pod = Some ''user:ops''"
proof -
  let ?k = "(''prod'', ''web'')" and ?\<sigma> = "\<lparr>sy_cluster = ops_cluster, sy_tracker = Some web_request, sy_now = 5\<rparr>"
  have key: "wc_key ops_wc = ?k" by (simp add: ops_wc_def wc_key_def sample_wc_def)
  obtain resp where handle: "Handle ref_env ref_client ops_cluster 1 sample_request (Some (NewPendingLeaseTracker 8)) = (resp, Some web_request)"
    using ops_recorded by (metis prod.collapse)
  obtain d s' tr' where rec: "Reconcile_WorkloadClass ref_env ref_client 5 ?k ops_cluster (Some web_request) = (Inr d, s', tr')"
    using ops_reconciled by (auto split: prod.splits sum.splits)
  obtain wc v g d0 s1 q where phase: "status_phase ref_env ref_client 5 ?k ops_cluster = Some (wc, v, g, d0, s1)"
    "time_unset (wc_deletion wc)" "protectsPods (c_reason v) g"
    and q: "governed_by ref_env ref_client s1 wc = Some [q]" "pod_name q = ''web-0''" "pod_uid q = ''p1''"
      "pod_namespace q = ''prod''" "expiry_ok 5 q" "lease_expiry 5 q = 30000000005"
    using one_governedE [OF ops_phase] by metis
  have same: "pod_namespace q = pod_namespace sample_pod" "pod_name q = pod_name sample_pod" "pod_uid q = pod_uid sample_pod"
    using q by (simp_all add: sample_pod_def)
  have "lease_free ref_env ref_client 5 q ops_cluster"
    using ops_pdb sample_pdb_managed sample_pdb_free(1) [of 5] same(1,2) lease_holder_uid [OF same(3)]
    by (simp add: lease_free_def)
  then have grant: "can_grant ref_env ref_client ?\<sigma> (wc_key ops_wc) q"
    using phase q by (simp add: can_grant_def key)
  have "waiting_step ref_env ref_client (wc_key ops_wc) sample_pod (asking\<lparr>sy_tracker := Some web_request\<rparr>) ?\<sigma>"
    using waiting_step.time [of "asking\<lparr>sy_tracker := Some web_request\<rparr>" 5] by (simp add: asking_def)
  then have waits: "(waiting_step ref_env ref_client (wc_key ops_wc) sample_pod)\<^sup>*\<^sup>* (asking\<lparr>sy_tracker := Some web_request\<rparr>) ?\<sigma>"
    by (rule r_into_rtranclp)
  have handle': "Handle ref_env ref_client (sy_cluster asking) (sy_now asking) sample_request (sy_tracker asking) = (resp, Some web_request)"
    using handle by (simp add: asking_def)
  have rec': "Reconcile_WorkloadClass ref_env ref_client (sy_now ?\<sigma>) (wc_key ops_wc) (sy_cluster ?\<sigma>) (sy_tracker ?\<sigma>) = (Inr d, s', tr')"
    using rec by (simp add: key)
  from eviction_request_granted [OF pdb_server_laws_ref pdb_store_laws_ref get_key_law_ref expiration_law_ref_env owner_laws_ref_env
      ops_asks handle' waits grant same rec']
  obtain b where b: "get_pdb ref_client s' ''prod'' (PDBName ref_env ''web-0'') = Inr b" "IsPDBOpen (Some b)"
    "lease_holder ref_env 30000000004 b sample_pod = Some (BypassOwnerValue sample_subject)"
    using q(6) by (auto simp: sample_pod_def)
  then show ?thesis using handle rec by (fastforce simp: BypassOwnerValue_def sample_subject_def)
qed

end
