(* ===== verification/Wc_Status.thy ===== *)
theory Wc_Status
  imports Pdb_Runs
begin

text \<open>
  What the WorkloadClass reconciler leaves in the cluster: the status of its WorkloadClass. The PDB
  phase touches no WorkloadClass, so the stored status is the one of the status phase; the theorem
  reads off it what the conditions and the readiness of the stored object stand for.
\<close>

subsection \<open>The PDB phase touches nothing but PDBs and labels\<close>

lemma deletePDB_frame:
  assumes "\<And>b s. v (snd (delete_pdb C b s)) = v s"
  shows "v (snd (deletePDB E C wc b s)) = v s"
  using assms [of _ s] by (auto simp: deletePDB_def split: sum.split prod.split option.split) (metis snd_conv)+

lemma upserts_frame:
  assumes "\<And>base f s. v (snd (create_or_update_pdb C base f s)) = v s"
  shows "v (snd (syncPodPDB E C wc p valid s)) = v s" "v (snd (leasePodPDB E C now wc p sub s)) = v s"
  using assms [of _ _ s]
  by (auto simp: syncPodPDB_def leasePodPDB_def split: prod.split option.split) (metis snd_conv)+

lemma ensurePodUIDLabel_frame:
  assumes "\<And>p ls s. v (snd (patch_pod_labels C p ls s)) = v s"
  shows "v (snd (ensurePodUIDLabel C p s)) = v s"
  using assms [of p _ s] by (auto simp: ensurePodUIDLabel_def split: prod.split option.split) (metis snd_conv)+

lemma reconcilePodPDB_frame:
  assumes "\<And>p ls s. v (snd (patch_pod_labels C p ls s)) = v s" "\<And>base f s. v (snd (create_or_update_pdb C base f s)) = v s"
  shows "v (snd (reconcilePodPDB E C now wc p leases s)) = v s"
proof -
  obtain r s1 where label: "ensurePodUIDLabel C p s = (r, s1)" by (cases "ensurePodUIDLabel C p s")
  have s1: "v s1 = v s" using ensurePodUIDLabel_frame [of v C p s, OF assms(1)] label by simp
  have "v (snd (syncPodPDB E C wc q True s1)) = v s" "v (snd (leasePodPDB E C now wc q sub s1)) = v s" for q sub
    using upserts_frame [of v C, OF assms(2)] s1 by simp_all
  then show ?thesis
    using label s1 by (cases r) (auto simp: reconcilePodPDB_def split: sum.split pod_action.split prod.split option.split, (metis snd_conv)+)
qed

lemma fold_frame: "(\<And>x acc. v (st (f x acc)) = v (st acc)) \<Longrightarrow> v (st (fold f xs acc)) = v (st acc)"
  by (induction xs arbitrary: acc) simp_all

lemma reconcilePDBs_frame:
  assumes "\<And>p ls s. v (snd (patch_pod_labels C p ls s)) = v s" "\<And>base f s. v (snd (create_or_update_pdb C base f s)) = v s"
    and "\<And>b s. v (snd (delete_pdb C b s)) = v s"
  shows "v (fst (snd (reconcilePDBs E C now wc cond g pending s tr))) = v s"
proof -
  have governed: "v (lo_state (governed_step E C now wc leases p acc)) = v (lo_state acc)" for leases p acc
    using reconcilePodPDB_frame [of v C E now wc p leases "lo_state acc", OF assms(1,2)]
    by (auto simp: governed_step_def split: prod.split sum.split)
  have owned: "v (lo_state (owned_step E C wc enforced wcs user_pdbs g names b acc)) = v (lo_state acc)" for enforced wcs user_pdbs names b acc
    using deletePDB_frame [of v C E wc b "lo_state acc", OF assms(3)]
    by (auto simp: owned_step_def split: prod.split sum.split)
  have opened: "v (snd (open_owned_step E C wc user_pdbs b acc)) = v (snd acc)" for user_pdbs b acc
    using deletePDB_frame [of v C E wc b "snd acc", OF assms(3)] upserts_frame(1) [of v C E wc _ False "snd acc", OF assms(2)]
    by (auto simp: open_owned_step_def case_prod_beta Let_def split: sum.split option.split)
  have "v (snd (openOwnedPDBs E C wc xs user_pdbs s)) = v s" for xs user_pdbs
    using fold_frame [of v snd "open_owned_step E C wc user_pdbs" xs "([], s)", OF opened]
    by (simp add: openOwnedPDBs_def case_prod_beta)
  moreover have "v (lo_state (fold (owned_step E C wc enforced wcs user_pdbs g names) xs (fold (governed_step E C now wc leases) ps acc))) =
      v (lo_state acc)" for enforced wcs user_pdbs names xs leases ps acc
    using fold_frame [of v lo_state "owned_step E C wc enforced wcs user_pdbs g names", OF owned]
      fold_frame [of v lo_state "governed_step E C now wc leases", OF governed] by simp
  ultimately show ?thesis
    unfolding reconcilePDBs_def by (simp add: Let_def case_prod_beta split: sum.split prod.split)
qed

subsection \<open>The stored status\<close>

text \<open>What is relied on of the API server: labelling Pods and writing PDBs changes no WorkloadClass.\<close>

definition pdb_writes_keep_wcs :: "'s client \<Rightarrow> bool" where
  "pdb_writes_keep_wcs C =
     ((\<forall>p ls s ns nm. get_wc C (snd (patch_pod_labels C p ls s)) ns nm = get_wc C s ns nm) \<and>
      (\<forall>base f s ns nm. get_wc C (snd (create_or_update_pdb C base f s)) ns nm = get_wc C s ns nm) \<and>
      (\<forall>b s ns nm. get_wc C (snd (delete_pdb C b s)) ns nm = get_wc C s ns nm))"

lemma pdb_writes_keep_wcs_ref: "pdb_writes_keep_wcs ref_client"
proof -
  have "k_wcs (snd (ref_upsert base f s)) = k_wcs s" for base f s
    by (auto simp: ref_upsert_def split: option.split sum.split)
  then show ?thesis by (simp add: pdb_writes_keep_wcs_def)
qed

text \<open>The WorkloadClass references no infrastructure profile, or its plugin is attached for the current
  generation.\<close>

definition plugin_attached :: "env \<Rightarrow> workload_class \<Rightarrow> bool" where
  "plugin_attached E wc =
     (case wc_infra wc of None \<Rightarrow> True
      | Some ref \<Rightarrow>
          (case find_status_condition E (wc_conditions wc) ConditionTypePlacementPluginAttached of None \<Rightarrow> False
           | Some c \<Rightarrow> c_observed c = wc_generation wc \<and> c_status c = ConditionTrue))"

lemma calculateReadiness_conditions: "calculateReadiness E C s now (with_conditions wc cs) = calculateReadiness E C s now wc"
proof -
  have "pods_readiness (with_conditions wc cs) now next ps = pods_readiness wc now next ps" for "next" ps
  proof -
    have "evaluatePodGracePeriod (with_conditions wc cs) = evaluatePodGracePeriod wc"
      by (intro ext) (simp add: evaluatePodGracePeriod_def gracePeriodPassed_def with_conditions_def split: option.split)
    then have "grace_periods (with_conditions wc cs) now ps = grace_periods wc now ps"
      by (simp add: grace_periods_def)
    then show ?thesis by (auto simp: pods_readiness_def Let_def split: option.split)
  qed
  moreover have "matched_pods E (with_conditions wc cs) enforced wcs ps = matched_pods E wc enforced wcs ps" for enforced wcs ps
    by (simp add: matched_pods_def with_conditions_def cong: option.case_cong)
  moreover have "WorkloadClassPodSelector E C s (with_conditions wc cs) = WorkloadClassPodSelector E C s wc"
    by (simp add: WorkloadClassPodSelector_def with_conditions_def Let_def cong: option.case_cong sum.case_cong if_cong)
  ultimately show ?thesis
    by (simp add: calculateReadiness_def overdue_def with_conditions_def Let_def cong: option.case_cong prod.case_cong if_cong)
qed

lemma final_validated_meaning:
  assumes "v = final_validated now (validatedCondition E now wc gs ov) (placementPluginCondition E now wc)"
  shows "c_observed v = wc_generation wc"
    "c_status v = ConditionTrue \<longleftrightarrow> wc_violations E wc gs = [] \<and> ov = [] \<and> plugin_attached E wc"
    "IsValidated (Some v) \<longleftrightarrow> wc_violations E wc gs = [] \<and> plugin_attached E wc"
  unfolding assms
  by (auto simp: final_validated_def reconcileConditions_def addPlacementViolation_def placementPluginCondition_def
      validatedCondition_def validated_condition_record_def plugin_attached_def IsValidated_def Let_def split: option.split)

lemma validated_status_unchanged:
  assumes "condition_laws E" "validated_status E now wc gs ov = (v, wc1, False)"
  shows "wc_conditions wc1 = wc_conditions wc"
proof -
  let ?p = "placementPluginCondition E now wc"
  have flags: "\<not> snd (placement_update E now wc ?p)" "\<not> snd (set_status_condition E now (fst (placement_update E now wc ?p)) v)"
    and wc1: "wc_conditions wc1 = fst (set_status_condition E now (fst (placement_update E now wc ?p)) v)"
    using assms(2) by (auto simp: validated_status_eq Let_def)
  have unset: "fst (set_status_condition E now cs c) = cs" if "\<not> snd (set_status_condition E now cs c)" for cs c
    using condition_unchanged(1) [OF assms(1), of now cs c "fst (set_status_condition E now cs c)"] that by (simp add: prod_eq_iff)
  have removed: "fst (remove_status_condition E cs ty) = cs" if "\<not> snd (remove_status_condition E cs ty)" for cs ty
    using condition_unchanged(2) [OF assms(1), of cs ty "fst (remove_status_condition E cs ty)"] that by (simp add: prod_eq_iff)
  have "wc_conditions wc1 = fst (placement_update E now wc ?p)" using unset [OF flags(2)] wc1 by simp
  also have "\<dots> = wc_conditions wc"
    using flags(1) unset removed by (cases ?p) (simp_all add: placement_update_def)
  finally show ?thesis .
qed

lemma status_phase_stores:
  assumes laws: "status_store_laws C" "condition_laws E"
    and wc: "get_wc C s (fst req) (snd req) = Inr wc"
    and phase: "status_phase E C now req s = Some (wc2, v, g, d, s1)"
  obtains gs ov w c where "list_guardrails C s = Inr gs" "overlappingWorkloadClasses E C s wc = Inr ov"
    "get_wc C s1 (fst req) (snd req) = Inr w" "wc_generation w = wc_generation wc"
    "calculateReadiness E C s now wc = Inr (wc_readiness w, d)"
    "find_status_condition E (wc_conditions w) ConditionTypeValidated = Some c" "same_content c v"
    "v = final_validated now (validatedCondition E now wc gs ov) (placementPluginCondition E now wc)"
    "\<And>p. placementPluginCondition E now wc = Some p \<Longrightarrow>
       \<exists>x. find_status_condition E (wc_conditions w) ConditionTypePlacementPluginAttached = Some x \<and> same_content x p"
proof -
  obtain gs ov where gs: "list_guardrails C s = Inr gs" "overlappingWorkloadClasses E C s wc = Inr ov"
    using phase wc by (auto simp: status_phase_def split: sum.splits)
  obtain v' wc1 changed where status: "validated_status E now wc gs ov = (v', wc1, changed)" by (metis prod_cases3)
  obtain readiness d' where ready: "calculateReadiness E C s now wc1 = Inr (readiness, d')"
    using phase wc gs status by (auto simp: status_phase_def split: sum.splits)
  let ?wc2 = "with_readiness wc1 readiness"
  let ?upd = "if wc_readiness wc1 \<noteq> readiness \<or> changed then update_wc_status C ?wc2 s else (None, s)"
  obtain err s1' where upd: "?upd = (err, s1')" by (cases ?upd)
  have result: "err = None" "wc2 = ?wc2" "v = v'" "d = d'" "s1 = s1'"
    using phase wc gs status ready upd by (auto simp: status_phase_def Let_def split: option.splits)
  have key: "wc_namespace wc = fst req" "wc_name wc = snd req"
    using status_store_lawsD(1) [OF laws(1) wc] by simp_all
  have v: "v = final_validated now (validatedCondition E now wc gs ov) (placementPluginCondition E now wc)"
    and wc1: "wc1 = with_conditions wc (wc_conditions wc1)"
    using status result(3) by (auto simp: validated_status_eq Let_def with_conditions_def)
  have type: "c_type v = ConditionTypeValidated" by (simp add: v validatedCondition_content(1))
  obtain x where x: "find_status_condition E (wc_conditions wc1) ConditionTypeValidated = Some x" "same_content x v"
    using condition_lawsD(2) [OF laws(2), of now "fst (placement_update E now wc (placementPluginCondition E now wc))" v] type
      status result(3) by (auto simp: validated_status_eq Let_def)
  have attached: "\<exists>x. find_status_condition E (wc_conditions wc1) ConditionTypePlacementPluginAttached = Some x \<and> same_content x p"
    if p: "placementPluginCondition E now wc = Some p" for p
  proof -
    have "c_type p = ConditionTypePlacementPluginAttached"
      using p condition_lawsD(1) [OF laws(2)] by (auto simp: placementPluginCondition_def Let_def split: option.splits if_splits)
    then obtain y where "find_status_condition E (fst (placement_update E now wc (Some p))) ConditionTypePlacementPluginAttached = Some y"
        "same_content y p"
      using condition_lawsD(2) [OF laws(2), of now "wc_conditions wc" p] by (auto simp: placement_update_def)
    moreover have "wc_conditions wc1 = fst (set_status_condition E now (fst (placement_update E now wc (Some p))) v)"
      using status result(3) p by (auto simp: validated_status_eq Let_def)
    ultimately show ?thesis
      using condition_lawsD(3) [OF laws(2), of ConditionTypePlacementPluginAttached v now] type by simp
  qed
  have "\<exists>w. get_wc C s1 (fst req) (snd req) = Inr w \<and> wc_status w = wc_status ?wc2 \<and> wc_generation w = wc_generation wc"
  proof (cases "wc_readiness wc1 \<noteq> readiness \<or> changed")
    case True
    have "wc_namespace ?wc2 = fst req" "wc_name ?wc2 = snd req" "wc_generation ?wc2 = wc_generation wc"
      using key by (subst wc1; simp add: with_readiness_def with_conditions_def)+
    then show ?thesis
      using status_store_lawsD(7) [OF laws(1), of s ?wc2 wc s1'] wc upd result True by simp
  next
    case False
    then have "wc_conditions wc1 = wc_conditions wc"
      using status validated_status_unchanged [OF laws(2), of now wc gs ov v' wc1] by simp
    moreover have "wc_readiness wc1 = wc_readiness wc" by (subst wc1) (simp add: with_conditions_def)
    ultimately have "wc_status wc1 = wc_status wc" "readiness = wc_readiness wc1"
      using False by (subst wc1, simp add: with_conditions_def)+
    then have "wc_status ?wc2 = wc_status wc" by (simp add: with_readiness_def)
    then show ?thesis using False upd result wc by auto
  qed
  then obtain w where w: "get_wc C s1 (fst req) (snd req) = Inr w" "wc_status w = wc_status ?wc2" "wc_generation w = wc_generation wc"
    by blast
  have "wc_readiness w = readiness" "wc_conditions w = wc_conditions wc1"
    using w(2) by (simp_all add: with_readiness_def)
  moreover have "calculateReadiness E C s now wc = Inr (readiness, d)"
    using ready result(4) by (subst (asm) wc1) (simp add: calculateReadiness_conditions)
  ultimately show thesis using that gs w(1,3) x v attached by simp
qed

text \<open>A run that stops before the PDBs reports an error, unless the WorkloadClass is gone.\<close>

lemma Reconcile_stops:
  assumes "Reconcile_WorkloadClass E C now req s tr = (Inr requeue, s', tr')" "get_wc C s (fst req) (snd req) = Inr wc"
  shows "status_phase E C now req s \<noteq> None"
  using assms
  by (auto simp: Reconcile_WorkloadClass_def status_phase_def Let_def split: sum.splits prod.splits option.splits if_splits)

lemma Reconcile_status:
  assumes "status_store_laws C" "condition_laws E" "pdb_writes_keep_wcs C"
    and "get_wc C s (fst req) (snd req) = Inr wc"
    and "Reconcile_WorkloadClass E C now req s tr = (Inr requeue, s', tr')"
  shows "\<exists>gs ov w c d. list_guardrails C s = Inr gs \<and> overlappingWorkloadClasses E C s wc = Inr ov \<and>
    get_wc C s' (fst req) (snd req) = Inr w \<and> wc_generation w = wc_generation wc \<and>
    find_status_condition E (wc_conditions w) ConditionTypeValidated = Some c \<and> c_observed c = wc_generation wc \<and>
    (c_status c = ConditionTrue \<longleftrightarrow> wc_violations E wc gs = [] \<and> ov = [] \<and> plugin_attached E wc) \<and>
    (IsValidated (Some c) \<longleftrightarrow> wc_violations E wc gs = [] \<and> plugin_attached E wc) \<and>
    calculateReadiness E C s now wc = Inr (wc_readiness w, d) \<and>
    (\<forall>p. placementPluginCondition E now wc = Some p \<longrightarrow>
       (\<exists>x. find_status_condition E (wc_conditions w) ConditionTypePlacementPluginAttached = Some x \<and> same_content x p))"
proof -
  obtain wc2 v g d s1 where phase: "status_phase E C now req s = Some (wc2, v, g, d, s1)"
    using assms(4,5) Reconcile_stops by (metis prod_cases5 option.exhaust)
  then obtain res where pdbs: "reconcilePDBs E C now wc2 v g (fst (Drain req tr)) s1 (snd (Drain req tr)) = (res, s', tr')"
    using Reconcile_phases [OF assms(5)] by auto
  obtain gs ov w c where gs: "list_guardrails C s = Inr gs" "overlappingWorkloadClasses E C s wc = Inr ov"
    and w: "get_wc C s1 (fst req) (snd req) = Inr w" "wc_generation w = wc_generation wc"
      "calculateReadiness E C s now wc = Inr (wc_readiness w, d)"
    and c: "find_status_condition E (wc_conditions w) ConditionTypeValidated = Some c" "same_content c v"
    and v: "v = final_validated now (validatedCondition E now wc gs ov) (placementPluginCondition E now wc)"
    and attached: "\<And>p. placementPluginCondition E now wc = Some p \<Longrightarrow>
       \<exists>x. find_status_condition E (wc_conditions w) ConditionTypePlacementPluginAttached = Some x \<and> same_content x p"
    using status_phase_stores [OF assms(1,2,4) phase] by metis
  have "get_wc C s' (fst req) (snd req) = Inr w"
    using reconcilePDBs_frame [of "\<lambda>s. get_wc C s (fst req) (snd req)" C E now wc2 v g "fst (Drain req tr)" s1 "snd (Drain req tr)"]
      assms(3) pdbs w(1) by (simp add: pdb_writes_keep_wcs_def)
  moreover have "c_observed c = c_observed v" "c_status c = c_status v" "IsValidated (Some c) = IsValidated (Some v)"
    using c(2) by (simp_all add: same_content_def IsValidated_def)
  ultimately show ?thesis
    using gs w c(1) attached final_validated_meaning [OF v] by metis
qed

text \<open>C4: What a successful run of the WorkloadClass reconciler leaves in the cluster is true. The stored
  WorkloadClass carries a Validated condition for its current generation, which is True exactly when
  the spec violates no guardrail and is well formed, no other WorkloadClass overlaps it and its
  placement plugin, if it references one, is attached; the webhooks take it as validated exactly when
  the first and the last of these hold. The stored readiness is the one calculated at the time of
  the run.\<close>

theorem Reconcile_status_true:
  assumes "status_store_laws C" "condition_laws E" "pdb_writes_keep_wcs C"
    and "get_wc C s (fst req) (snd req) = Inr wc"
    and "Reconcile_WorkloadClass E C now req s tr = (Inr requeue, s', tr')"
  shows "\<exists>gs ov w c d. list_guardrails C s = Inr gs \<and> overlappingWorkloadClasses E C s wc = Inr ov \<and>
    get_wc C s' (fst req) (snd req) = Inr w \<and> wc_generation w = wc_generation wc \<and>
    find_status_condition E (wc_conditions w) ConditionTypeValidated = Some c \<and> c_observed c = wc_generation wc \<and>
    (c_status c = ConditionTrue \<longleftrightarrow> wc_violations E wc gs = [] \<and> ov = [] \<and> plugin_attached E wc) \<and>
    (IsValidated (Some c) \<longleftrightarrow> wc_violations E wc gs = [] \<and> plugin_attached E wc) \<and>
    calculateReadiness E C s now wc = Inr (wc_readiness w, d)"
  using Reconcile_status [OF assms] by metis

lemma sample_run_succeeds:
  "case Reconcile_WorkloadClass ref_env ref_client 5 (''prod'', ''web'') sample_cluster None of (Inr d, s', tr') \<Rightarrow> True | _ \<Rightarrow> False"
  by code_simp

lemma sample_run_checks:
  "wc_violations ref_env sample_wc [sample_guardrail] = []"
  "case overlappingWorkloadClasses ref_env ref_client sample_cluster sample_wc of Inr ov \<Rightarrow> length ov = 0 | _ \<Rightarrow> False"
  by code_simp+

lemma Reconcile_status_true_witness:
  "\<exists>d s' tr' w c. Reconcile_WorkloadClass ref_env ref_client 5 (''prod'', ''web'') sample_cluster None = (Inr d, s', tr') \<and>
     get_wc ref_client s' ''prod'' ''web'' = Inr w \<and>
     find_status_condition ref_env (wc_conditions w) ConditionTypeValidated = Some c \<and> c_status c = ConditionTrue"
proof -
  let ?k = "(''prod'', ''web'')"
  obtain d s' tr' where rec: "Reconcile_WorkloadClass ref_env ref_client 5 ?k sample_cluster None = (Inr d, s', tr')"
    using sample_run_succeeds by (auto split: prod.splits sum.splits)
  have wc: "get_wc ref_client sample_cluster (fst ?k) (snd ?k) = Inr sample_wc"
    and gs: "list_guardrails ref_client sample_cluster = Inr [sample_guardrail]"
    by (simp_all add: sample_cluster_def sample_wc_def)
  have plugin: "plugin_attached ref_env sample_wc"
    by (simp add: plugin_attached_def sample_wc_def sample_spec_def)
  have ov: "overlappingWorkloadClasses ref_env ref_client sample_cluster sample_wc = Inr []"
    using sample_run_checks(2) by (auto split: sum.splits)
  show ?thesis
    using Reconcile_status_true [OF status_store_laws_ref condition_laws_ref_env pdb_writes_keep_wcs_ref wc rec]
      gs ov plugin sample_run_checks(1) rec by auto
qed

end
