(* ===== verification/Test_Utils.thy ===== *)
theory Test_Utils
  imports Reference_Env
begin

text \<open>
  The helpers of the end-to-end tests, \<open>test/utils/utils.go\<close>. The machine the tests run on is a
  parameter: a state \<open>'w\<close> and a record of the operating system calls the code makes. Commands run to
  completion and return their combined output and an optional error. Writes to a \<open>bytes.Buffer\<close> never
  fail, so their error branches are not written out. \<open>bufio.Scanner\<close> and the functions of \<open>strings\<close> are
  definitions: \<open>scan_lines\<close> keeps the scanner's limit on the length of a line and its treatment of carriage
  returns.
\<close>

subsection \<open>Lines and substrings\<close>

definition newline :: char where "newline = CHR 0x0A"
definition carriage_return :: char where "carriage_return = CHR 0x0D"

text \<open>\<open>strings.SplitSeq(s, "\n")\<close>.\<close>

fun split_lines :: "string \<Rightarrow> string list" where
  "split_lines [] = [[]]"
| "split_lines (c # s) =
     (if c = newline then [] # split_lines s
      else (case split_lines s of [] \<Rightarrow> [[c]] | l # ls \<Rightarrow> (c # l) # ls))"

text \<open>\<open>strings.Index\<close>: the position of the first occurrence.\<close>

fun str_index :: "string \<Rightarrow> string \<Rightarrow> nat option" where
  "str_index [] p = (if p = [] then Some 0 else None)"
| "str_index (c # s) p = (if has_prefix (c # s) p then Some 0 else map_option Suc (str_index s p))"

text \<open>\<open>strings.ReplaceAll(s, p, "")\<close> for a non-empty \<open>p\<close>.\<close>

function remove_all :: "string \<Rightarrow> string \<Rightarrow> string" where
  "remove_all s p =
     (if s = [] then []
      else if p \<noteq> [] \<and> has_prefix s p then remove_all (drop (length p) s) p
      else hd s # remove_all (tl s) p)"
  by pat_completeness auto
termination
  by (relation "measure (\<lambda>(s, p). length s)") auto

declare remove_all.simps [simp del]

text \<open>\<open>bufio.Scanner\<close> with \<open>ScanLines\<close>: a line ends at a newline or at the end of the input, one carriage
  return at its end is dropped, an empty last line is no token, and a line that does not fit the
  buffer of 64 KiB ends the scan (\<open>ErrTooLong\<close>).\<close>

definition max_scan_token :: nat where "max_scan_token = 64 * 1024"

definition drop_cr :: "string \<Rightarrow> string" where
  "drop_cr l = (if l \<noteq> [] \<and> last l = carriage_return then butlast l else l)"

function scan_lines :: "string \<Rightarrow> string list" where
  "scan_lines s =
     (if s = [] then []
      else let line = takeWhile (\<lambda>c. c \<noteq> newline) s; rest = dropWhile (\<lambda>c. c \<noteq> newline) s
           in if length line \<ge> max_scan_token then []
              else drop_cr line # (if rest = [] then [] else scan_lines (tl rest)))"
  by pat_completeness auto
termination
proof (relation "measure length", goal_cases)
  case (2 s line rest)
  have "length rest \<le> length s" "0 < length s"
    using 2 length_dropWhile_le [of "\<lambda>c. c \<noteq> newline" s] by simp_all
  then show ?case by (simp del: length_greater_0_conv)
qed simp

declare scan_lines.simps [simp del]

subsection \<open>The machine\<close>

record 'w host =
  lookup_env :: "string \<Rightarrow> 'w \<Rightarrow> string option"
  getwd :: "'w \<Rightarrow> string \<times> api_error option"
  chdir :: "string \<Rightarrow> 'w \<Rightarrow> 'w"
  exec :: "string \<Rightarrow> string list \<Rightarrow> 'w \<Rightarrow> (string \<times> api_error option) \<times> 'w"
  read_file :: "string \<Rightarrow> 'w \<Rightarrow> api_error + string"
  write_file :: "string \<Rightarrow> string \<Rightarrow> 'w \<Rightarrow> api_error option \<times> 'w"

definition GetProjectDir :: "'w host \<Rightarrow> 'w \<Rightarrow> string \<times> api_error option" where
  "GetProjectDir H w =
     (case getwd H w of
        (wd, Some err) \<Rightarrow> (wd, Some (wrap_error ''failed to get current working directory: '' err))
      | (wd, None) \<Rightarrow> (remove_all wd ''/test/e2e'', None))"

text \<open>\<open>Run\<close>: the command runs in the project directory with the environment of the tests and
  \<open>GO111MODULE=on\<close>, which \<open>exec\<close> includes; a failing \<open>chdir\<close> is only logged.\<close>

definition Run :: "env \<Rightarrow> 'w host \<Rightarrow> string list \<Rightarrow> 'w \<Rightarrow> (string \<times> api_error option) \<times> 'w" where
  "Run E H args w =
     (let dir = fst (GetProjectDir H w);
          w1 = chdir H dir w;
          command = str_join args '' ''
      in case exec H dir args w1 of
           ((output, Some err), w2) \<Rightarrow>
             ((output, Some (wrap_error (quote E command @ '' failed with error '' @ quote E output @ '': '') err)), w2)
         | ((output, None), w2) \<Rightarrow> ((output, None), w2))"

definition certmanagerURL :: string where
  "certmanagerURL = ''https://github.com/cert-manager/cert-manager/releases/download/v1.20.0/cert-manager.yaml''"

definition kubeSystemLeases :: "string list" where
  "kubeSystemLeases = [''cert-manager-cainjector-leader-election'', ''cert-manager-controller'']"

text \<open>Errors of the uninstallation are only printed, and every later command runs all the same.\<close>

definition UninstallCertManager :: "env \<Rightarrow> 'w host \<Rightarrow> 'w \<Rightarrow> 'w" where
  "UninstallCertManager E H w =
     foldl (\<lambda>w lease. snd (Run E H [''kubectl'', ''delete'', ''lease'', lease, ''-n'', ''kube-system'',
         ''--ignore-not-found'', ''--force'', ''--grace-period=0''] w))
       (snd (Run E H [''kubectl'', ''delete'', ''-f'', certmanagerURL] w)) kubeSystemLeases"

definition InstallCertManager :: "env \<Rightarrow> 'w host \<Rightarrow> 'w \<Rightarrow> api_error option \<times> 'w" where
  "InstallCertManager E H w =
     (case Run E H [''kubectl'', ''apply'', ''-f'', certmanagerURL] w of
        ((output, Some err), w1) \<Rightarrow> (Some err, w1)
      | ((output, None), w1) \<Rightarrow>
          (let ((output', err), w2) = Run E H [''kubectl'', ''wait'', ''deployment.apps/cert-manager-webhook'',
                 ''--for'', ''condition=Available'', ''--namespace'', ''cert-manager'', ''--timeout'', ''5m''] w1
           in (err, w2)))"

definition GetNonEmptyLines :: "string \<Rightarrow> string list" where
  "GetNonEmptyLines output = filter (\<lambda>element. element \<noteq> '''') (split_lines output)"

definition certManagerCRDs :: "string list" where
  "certManagerCRDs = [''certificates.cert-manager.io'', ''issuers.cert-manager.io'', ''clusterissuers.cert-manager.io'',
     ''certificaterequests.cert-manager.io'', ''orders.acme.cert-manager.io'', ''challenges.acme.cert-manager.io'']"

definition IsCertManagerCRDsInstalled :: "env \<Rightarrow> 'w host \<Rightarrow> 'w \<Rightarrow> bool \<times> 'w" where
  "IsCertManagerCRDsInstalled E H w =
     (case Run E H [''kubectl'', ''get'', ''crds''] w of
        ((output, Some err), w') \<Rightarrow> (False, w')
      | ((output, None), w') \<Rightarrow>
          (list_ex (\<lambda>crd. list_ex (\<lambda>line. str_contains line crd) (GetNonEmptyLines output)) certManagerCRDs, w'))"

definition LoadImageToKindClusterWithName :: "env \<Rightarrow> 'w host \<Rightarrow> string \<Rightarrow> 'w \<Rightarrow> api_error option \<times> 'w" where
  "LoadImageToKindClusterWithName E H name w =
     (let cluster = (case lookup_env H ''KIND_CLUSTER'' w of Some v \<Rightarrow> v | None \<Rightarrow> ''kind'');
          kind_binary = (case lookup_env H ''KIND'' w of Some v \<Rightarrow> v | None \<Rightarrow> ''kind'');
          ((output, err), w') = Run E H [kind_binary, ''load'', ''docker-image'', name, ''--name'', cluster] w
      in (err, w'))"

definition uncommented :: "string \<Rightarrow> string \<Rightarrow> string" where
  "uncommented target prefix = str_join (map (\<lambda>l. trim_prefix l prefix) (scan_lines target)) [newline]"

definition UncommentCode :: "env \<Rightarrow> 'w host \<Rightarrow> string \<Rightarrow> string \<Rightarrow> string \<Rightarrow> 'w \<Rightarrow> api_error option \<times> 'w" where
  "UncommentCode E H filename target prefix w =
     (case read_file H filename w of
        Inl err \<Rightarrow> (Some (wrap_error (''failed to read file '' @ quote E filename @ '': '') err), w)
      | Inr content \<Rightarrow>
          (case str_index content target of
             None \<Rightarrow> (Some (OtherError (''unable to find the code '' @ quote E target @ '' to be uncommented'')), w)
           | Some idx \<Rightarrow>
               if scan_lines target = [] then (None, w)
               else let out = take idx content @ uncommented target prefix @ drop (idx + length target) content
                    in case write_file H filename out w of
                         (Some err, w') \<Rightarrow> (Some (wrap_error (''failed to write file '' @ quote E filename @ '': '') err), w')
                       | (None, w') \<Rightarrow> (None, w')))"

subsection \<open>Substring search\<close>

lemma has_prefix_iff: "has_prefix s p \<longleftrightarrow> (\<exists>t. s = p @ t)"
  by (metis append_take_drop_id append_eq_conv_conj has_prefix_def)

lemma str_contains_iff: "str_contains s p \<longleftrightarrow> (\<exists>a b. s = a @ p @ b)"
proof (induction s p rule: str_contains.induct)
  case (2 c s p)
  have "(\<exists>a b. c # s = a @ p @ b) \<longleftrightarrow> (\<exists>b. c # s = p @ b) \<or> (\<exists>a b. s = a @ p @ b)"
    by (simp add: append_eq_Cons_conv Cons_eq_append_conv) (metis append_Cons append_Nil list.inject neq_Nil_conv)
  then show ?case using 2 by (simp add: has_prefix_iff)
qed simp

text \<open>\<open>str_index\<close> finds the first occurrence: no shorter prefix of the string is followed by the pattern.\<close>

lemma str_index_Some:
  "str_index s p = Some i \<longleftrightarrow> i \<le> length s \<and> has_prefix (drop i s) p \<and> (\<forall>k < i. \<not> has_prefix (drop k s) p)"
proof (induction s arbitrary: i)
  case Nil
  then show ?case by (auto simp: has_prefix_def)
next
  case (Cons c s)
  show ?case
  proof (cases i)
    case 0
    then show ?thesis by auto
  next
    case (Suc j)
    then show ?thesis using Cons [of j] by (auto simp: All_less_Suc2)
  qed
qed

lemma str_index_None: "str_index s p = None \<longleftrightarrow> \<not> str_contains s p"
  by (induction s) (auto simp: has_prefix_def)

subsection \<open>Lines\<close>

lemma split_lines_nonempty [simp]: "split_lines s \<noteq> []"
  by (cases s) (auto split: list.splits)

lemma str_join_Cons: "str_join ((c # l) # ls) sep = c # str_join (l # ls) sep"
  by (cases ls) simp_all

lemma split_lines_join: "str_join (split_lines s) [newline] = s"
proof (induction s)
  case (Cons c s)
  then show ?case by (cases "split_lines s") (auto simp: neq_Nil_conv str_join_Cons)
qed simp

lemma split_lines_no_newline: "l \<in> set (split_lines s) \<Longrightarrow> newline \<notin> set l"
  by (induction s arbitrary: l) (auto split: list.splits if_splits)

lemma split_lines_line: "newline \<notin> set l \<Longrightarrow> split_lines l = [l]"
  by (induction l) auto

lemma split_lines_append: "newline \<notin> set l \<Longrightarrow> split_lines (l @ newline # s) = l # split_lines s"
  by (induction l) auto

lemma split_join:
  "ls \<noteq> [] \<Longrightarrow> \<forall>l \<in> set ls. newline \<notin> set l \<Longrightarrow> split_lines (str_join ls [newline]) = ls"
  by (induction ls "[newline]" rule: str_join.induct) (auto simp: split_lines_line split_lines_append)

lemma split_lines_hd: "hd (split_lines s) = takeWhile (\<lambda>c. c \<noteq> newline) s"
  by (induction s) (auto split: list.splits)

lemma has_prefix_line:
  assumes "newline \<notin> set p"
  shows "has_prefix (hd (split_lines s)) p \<longleftrightarrow> has_prefix s p"
proof
  assume "has_prefix (hd (split_lines s)) p"
  then obtain t where t: "takeWhile (\<lambda>c. c \<noteq> newline) s = p @ t" by (auto simp: split_lines_hd has_prefix_iff)
  have "s = takeWhile (\<lambda>c. c \<noteq> newline) s @ dropWhile (\<lambda>c. c \<noteq> newline) s" by simp
  then have "s = p @ t @ dropWhile (\<lambda>c. c \<noteq> newline) s" unfolding t by simp
  then show "has_prefix s p" by (metis has_prefix_append)
next
  assume "has_prefix s p"
  then obtain t where t: "s = p @ t" by (auto simp: has_prefix_iff)
  have "takeWhile (\<lambda>c. c \<noteq> newline) (p @ t) = p @ takeWhile (\<lambda>c. c \<noteq> newline) t"
    using assms by (intro takeWhile_append2) auto
  then show "has_prefix (hd (split_lines s)) p" by (simp add: split_lines_hd t)
qed

text \<open>A pattern without a newline occurs in a text exactly when it occurs in one of its lines.\<close>

lemma contains_line:
  assumes "newline \<notin> set p"
  shows "list_ex (\<lambda>l. str_contains l p) (split_lines s) \<longleftrightarrow> str_contains s p"
proof (induction s)
  case Nil
  then show ?case by simp
next
  case (Cons c s)
  obtain l ls where ls: "split_lines s = l # ls" by (meson neq_Nil_conv split_lines_nonempty)
  show ?case
    using Cons has_prefix_line [OF assms, of "c # s"] ls by (cases "p = []") (auto simp: has_prefix_def split: if_splits)
qed

subsection \<open>The tokens of the scanner\<close>

lemma scan_lines_Nil [simp]: "scan_lines [] = []"
  by (subst scan_lines.simps) simp

lemma scan_lines_last:
  "l \<noteq> [] \<Longrightarrow> newline \<notin> set l \<Longrightarrow> length l < max_scan_token \<Longrightarrow> scan_lines l = [drop_cr l]"
  by (subst scan_lines.simps) (auto simp: takeWhile_eq_all_conv[THEN iffD2] dropWhile_eq_Nil_conv[THEN iffD2] Let_def)

lemma scan_lines_append:
  "newline \<notin> set l \<Longrightarrow> length l < max_scan_token \<Longrightarrow> scan_lines (l @ newline # s) = drop_cr l # scan_lines s"
  by (subst scan_lines.simps) (simp add: takeWhile_append dropWhile_append Let_def)

definition scannable :: "string \<Rightarrow> bool" where
  "scannable l = (l \<noteq> [] \<and> last l \<noteq> carriage_return \<and> newline \<notin> set l \<and> length l < max_scan_token)"

lemma drop_cr_scannable: "scannable l \<Longrightarrow> drop_cr l = l"
  by (simp add: scannable_def drop_cr_def)

lemma scan_join: "list_all scannable ls \<Longrightarrow> scan_lines (str_join ls [newline]) = ls"
proof (induction ls "[newline]" rule: str_join.induct)
  case (2 l)
  then show ?case using scan_lines_last [of l] drop_cr_scannable [of l] by (simp add: scannable_def)
next
  case (3 l l' ls)
  then show ?case
    using scan_lines_append [of l "str_join (l' # ls) [newline]"] drop_cr_scannable [of l] by (simp add: scannable_def)
qed simp

lemma scan_join_newline: "list_all scannable ls \<Longrightarrow> ls \<noteq> [] \<Longrightarrow> scan_lines (str_join ls [newline] @ [newline]) = ls"
proof (induction ls "[newline]" rule: str_join.induct)
  case (2 l)
  then show ?case using scan_lines_append [of l "[]"] drop_cr_scannable [of l] by (simp add: scannable_def)
next
  case (3 l l' ls)
  then show ?case
    using scan_lines_append [of l "str_join (l' # ls) [newline] @ [newline]"] drop_cr_scannable [of l] by (simp add: scannable_def)
qed simp

subsection \<open>What the helpers do\<close>

text \<open>The lines of a text are its non-empty lines, in order.\<close>

lemma GetNonEmptyLines_join:
  assumes "list_all (\<lambda>l. l \<noteq> [] \<and> newline \<notin> set l) ls"
  shows "GetNonEmptyLines (str_join ls [newline]) = ls"
proof (cases "ls = []")
  case False
  then have "split_lines (str_join ls [newline]) = ls"
    using assms by (intro split_join) (auto simp: list_all_iff)
  then show ?thesis using assms by (simp add: GetNonEmptyLines_def list_all_iff)
qed (simp add: GetNonEmptyLines_def)

text \<open>The search line by line finds a CRD exactly when the output of \<open>kubectl\<close> names one anywhere.\<close>

lemma IsCertManagerCRDsInstalled_iff:
  "IsCertManagerCRDsInstalled E H w =
     (case Run E H [''kubectl'', ''get'', ''crds''] w of ((output, err), w') \<Rightarrow>
        (err = None \<and> (\<exists>crd \<in> set certManagerCRDs. str_contains output crd), w'))"
proof -
  have "list_ex (\<lambda>l. str_contains l crd) (GetNonEmptyLines s) \<longleftrightarrow> str_contains s crd" if "crd \<in> set certManagerCRDs" for crd s
  proof -
    have crd: "newline \<notin> set crd" "crd \<noteq> []" using that by (auto simp: certManagerCRDs_def newline_def)
    then have "list_ex (\<lambda>l. str_contains l crd) (GetNonEmptyLines s) \<longleftrightarrow> list_ex (\<lambda>l. str_contains l crd) (split_lines s)"
      by (auto simp: GetNonEmptyLines_def list_ex_iff)
    then show ?thesis using contains_line [OF crd(1)] by simp
  qed
  then show ?thesis
    by (auto simp: IsCertManagerCRDsInstalled_def list_ex_iff split: prod.split option.split)
qed

text \<open>A text that is not in the file is an error, and the file is not touched.\<close>

lemma UncommentCode_missing:
  assumes "read_file H f w = Inr content" "\<not> str_contains content target"
  shows "UncommentCode E H f target prefix w =
    (Some (OtherError (''unable to find the code '' @ quote E target @ '' to be uncommented'')), w)"
  using assms by (simp add: UncommentCode_def str_index_None [THEN iffD2])

definition commented :: "string \<Rightarrow> string list \<Rightarrow> string" where
  "commented prefix ls = str_join (map (\<lambda>l. prefix @ l) ls) [newline]"

lemma uncommented_commented:
  "list_all scannable (map (\<lambda>l. prefix @ l) ls) \<Longrightarrow> uncommented (commented prefix ls) prefix = str_join ls [newline]"
  by (simp add: uncommented_def commented_def scan_join comp_def)

text \<open>C40: Uncommenting undoes commenting. In a file whose first occurrence of the target is a block of
  lines that were commented out by putting the prefix before each of them, \<open>UncommentCode\<close> writes the file
  with exactly these lines restored and everything before and after them unchanged, and it fails only if
  the write fails. The lines have to fit the buffer of the scanner and must not end in a carriage return.\<close>

theorem UncommentCode_uncomments:
  assumes "read_file H f w = Inr (pre @ commented prefix ls @ post)" "ls \<noteq> []"
    and "list_all scannable (map (\<lambda>l. prefix @ l) ls)"
    and "\<forall>k < length pre. \<not> has_prefix (drop k (pre @ commented prefix ls @ post)) (commented prefix ls)"
  shows "UncommentCode E H f (commented prefix ls) prefix w =
    (let (err, w') = write_file H f (pre @ str_join ls [newline] @ post) w
     in (map_option (wrap_error (''failed to write file '' @ quote E f @ '': '')) err, w'))"
proof -
  have "str_index (pre @ commented prefix ls @ post) (commented prefix ls) = Some (length pre)"
    using assms(4) by (simp add: str_index_Some)
  moreover have "scan_lines (commented prefix ls) \<noteq> []"
    using assms(2,3) by (simp add: commented_def scan_join)
  ultimately show ?thesis
    using assms(1) uncommented_commented [OF assms(3)]
    by (auto simp: UncommentCode_def Let_def split: prod.split option.split)
qed

definition file_host :: "(string \<rightharpoonup> string) host" where
  "file_host = \<lparr>lookup_env = (\<lambda>v w. None), getwd = (\<lambda>w. (''/repo/test/e2e'', None)), chdir = (\<lambda>d w. w),
     exec = (\<lambda>d args w. (('''', None), w)),
     read_file = (\<lambda>f w. case w f of None \<Rightarrow> Inl (NotFound f) | Some c \<Rightarrow> Inr c),
     write_file = (\<lambda>f c w. (None, w(f \<mapsto> c)))\<rparr>"

lemma UncommentCode_uncomments_witness:
  "let file = ''all:'' @ [newline] @ ''#- webhook'' @ [newline] @ ''#- certs'' @ [newline] @ ''# end'';
       target = ''#- webhook'' @ [newline] @ ''#- certs''
   in UncommentCode ref_env file_host ''k.yaml'' target ''#'' [''k.yaml'' \<mapsto> file] =
        (None, [''k.yaml'' \<mapsto> ''all:'' @ [newline] @ ''- webhook'' @ [newline] @ ''- certs'' @ [newline] @ ''# end''])"
proof -
  let ?pre = "''all:'' @ [newline]" and ?ls = "[''- webhook'', ''- certs'']" and ?post = "newline # ''# end''"
  have target: "commented ''#'' ?ls = ''#- webhook'' @ [newline] @ ''#- certs''"
    by (simp add: commented_def)
  have read: "read_file file_host ''k.yaml'' [''k.yaml'' \<mapsto> ?pre @ commented ''#'' ?ls @ ?post] = Inr (?pre @ commented ''#'' ?ls @ ?post)"
    by (simp add: file_host_def)
  have lines: "list_all scannable (map (\<lambda>l. ''#'' @ l) ?ls)"
    by (simp add: scannable_def max_scan_token_def newline_def carriage_return_def)
  have first: "\<forall>k < length ?pre. \<not> has_prefix (drop k (?pre @ commented ''#'' ?ls @ ?post)) (commented ''#'' ?ls)"
    by (simp add: target All_less_Suc has_prefix_def newline_def numeral_eq_Suc)
  show ?thesis
    using UncommentCode_uncomments [OF read _ lines first] by (simp add: target file_host_def Let_def)
qed

text \<open>A newline at the end of the target is lost: the line after the block is appended to its last line.\<close>

lemma uncommented_loses_newline:
  assumes "list_all scannable (map (\<lambda>l. prefix @ l) ls)" "ls \<noteq> []"
  shows "uncommented (commented prefix ls @ [newline]) prefix = str_join ls [newline]"
  using assms by (simp add: uncommented_def commented_def scan_join_newline comp_def)

text \<open>A line that does not fit the buffer ends the scan without an error: it and the lines after it are deleted
  from the file.\<close>

lemma uncommented_loses_long_line:
  assumes "scannable (prefix @ l)" "newline \<notin> set long" "max_scan_token \<le> length long"
  shows "uncommented (prefix @ l @ newline # long) prefix = l"
proof -
  have "scan_lines long = []"
  proof -
    have "length (takeWhile (\<lambda>c. c \<noteq> newline) long) = length long"
      using assms(2) by (subst takeWhile_eq_all_conv [THEN iffD2]) auto
    then show ?thesis using assms(3) by (subst scan_lines.simps) (simp add: Let_def)
  qed
  then show ?thesis
    using scan_lines_append [of "prefix @ l" long] assms(1) drop_cr_scannable [of "prefix @ l"]
    by (simp add: uncommented_def scannable_def)
qed

end
