(* ===== verification/Go_Memory.thy ===== *)
theory Go_Memory
  imports Main
begin

text \<open>
  A store with addresses, for the one part of the program whose point is what is shared and what is not:
  the generated deep copies. A cell of memory holds the elements of an array; what a pointer refers to
  is an array of one element. A value is an atom (a string, number, boolean or time: anything that
  contains no reference), a pointer or slice, nil or an address, or a struct with its fields by name. \<open>holds\<close> relates
  a value of a type to the tree one reads by following its references, all of which lie at or above a
  given address; \<open>copier\<close> is the contract of a deep copy, and the rest of the theory gives it for
  the statements the generator emits.
\<close>

type_synonym addr = nat

datatype gval = Atom string | NilRef | Ptr addr | Slice addr | Struct "string \<Rightarrow> gval"

datatype tree = TAtom string | TNil | TPtr tree | TSlice "tree list" | TStruct "string \<Rightarrow> tree"

datatype gtype = AtomT | PtrT gtype | SliceT gtype | StructT "(string \<times> gtype) list"

record memory =
  cells :: "addr \<Rightarrow> gval list option"
  limit :: addr

definition mem_ok :: "memory \<Rightarrow> bool" where
  "mem_ok m = (\<forall>a. cells m a \<noteq> None \<longrightarrow> a < limit m)"

text \<open>The second memory has everything the first one has, unchanged.\<close>

definition extends :: "memory \<Rightarrow> memory \<Rightarrow> bool" where
  "extends m m' = (limit m \<le> limit m' \<and> (\<forall>a < limit m. cells m' a = cells m a))"

subsection \<open>Operations\<close>

definition new_array :: "nat \<Rightarrow> memory \<Rightarrow> addr \<times> memory" where
  "new_array n m = (limit m, m\<lparr>cells := (cells m)(limit m \<mapsto> replicate n NilRef), limit := limit m + 1\<rparr>)"

definition elem :: "memory \<Rightarrow> addr \<Rightarrow> nat \<Rightarrow> gval" where
  "elem m a i = (case cells m a of None \<Rightarrow> NilRef | Some vs \<Rightarrow> if i < length vs then vs ! i else NilRef)"

definition array_len :: "memory \<Rightarrow> addr \<Rightarrow> nat" where
  "array_len m a = (case cells m a of None \<Rightarrow> 0 | Some vs \<Rightarrow> length vs)"

definition set_elem :: "addr \<Rightarrow> nat \<Rightarrow> gval \<Rightarrow> memory \<Rightarrow> memory" where
  "set_elem a i v m = (case cells m a of None \<Rightarrow> m | Some vs \<Rightarrow> m\<lparr>cells := (cells m)(a \<mapsto> vs[i := v])\<rparr>)"

definition field :: "gval \<Rightarrow> string \<Rightarrow> gval" where
  "field v n = (case v of Struct fs \<Rightarrow> fs n | _ \<Rightarrow> NilRef)"

definition set_field :: "gval \<Rightarrow> string \<Rightarrow> gval \<Rightarrow> gval" where
  "set_field v n x = (case v of Struct fs \<Rightarrow> Struct (fs(n := x)) | _ \<Rightarrow> v)"

subsection \<open>The statements of the generator\<close>

type_synonym copy_fun = "gval \<Rightarrow> memory \<Rightarrow> gval \<times> memory"

text \<open>\<open>*out = *in\<close>: the value itself, with whatever it refers to shared.\<close>

definition assign :: copy_fun where
  "assign v m = (v, m)"

text \<open>\<open>if in.F != nil\<close>, \<open>*out = new(T)\<close>, and the copy of what the pointer refers to.\<close>

definition copy_ptr :: "copy_fun \<Rightarrow> copy_fun" where
  "copy_ptr into v m =
     (case v of
        Ptr a \<Rightarrow> (let (b, m1) = new_array 1 m; (x, m2) = into (elem m1 a 0) m1 in (Ptr b, set_elem b 0 x m2))
      | _ \<Rightarrow> (v, m))"

text \<open>\<open>if in.F != nil\<close>, \<open>*out = make([]T, len(*in))\<close>, and the loop over the elements; the built-in \<open>copy\<close> is
  the loop that assigns.\<close>

definition copy_slice :: "copy_fun \<Rightarrow> copy_fun" where
  "copy_slice into v m =
     (case v of
        Slice a \<Rightarrow> (let n = array_len m a; (b, m1) = new_array n m
                    in (Slice b, fold (\<lambda>i m. let (x, m') = into (elem m a i) m in set_elem b i x m') [0..<n] m1))
      | _ \<Rightarrow> (v, m))"

text \<open>\<open>DeepCopyInto\<close> of a struct: \<open>*out = *in\<close>, then the listed fields one after the other.\<close>

fun copy_fields :: "(string \<times> copy_fun) list \<Rightarrow> gval \<Rightarrow> gval \<Rightarrow> memory \<Rightarrow> gval \<times> memory" where
  "copy_fields [] v out m = (out, m)"
| "copy_fields ((n, into) # fs) v out m =
     (let (x, m') = into (field v n) m in copy_fields fs v (set_field out n x) m')"

definition copy_struct :: "(string \<times> copy_fun) list \<Rightarrow> copy_fun" where
  "copy_struct fs v m = copy_fields fs v v m"

text \<open>\<open>DeepCopy\<close>: nil for nil, otherwise a new value to copy into.\<close>

definition deep_copy :: "copy_fun \<Rightarrow> copy_fun" where
  "deep_copy into p m = (if p = NilRef then (NilRef, m) else copy_ptr into p m)"

text \<open>\<open>DeepCopyObject\<close>: the copy as an interface value, which is nil for a nil copy.\<close>

definition deep_copy_object :: "copy_fun \<Rightarrow> gval \<Rightarrow> memory \<Rightarrow> gval option \<times> memory" where
  "deep_copy_object copy p m = (let (c, m') = copy p m in (if c \<noteq> NilRef then Some c else None, m'))"

subsection \<open>Reading a value\<close>

inductive holds :: "addr \<Rightarrow> memory \<Rightarrow> gtype \<Rightarrow> gval \<Rightarrow> tree \<Rightarrow> bool" for lo :: addr and m :: memory where
  atom: "holds lo m AtomT (Atom s) (TAtom s)"
| nil_ptr: "holds lo m (PtrT ty) NilRef TNil"
| nil_slice: "holds lo m (SliceT ty) NilRef TNil"
| ptr: "lo \<le> a \<Longrightarrow> cells m a = Some [v] \<Longrightarrow> holds lo m ty v t \<Longrightarrow> holds lo m (PtrT ty) (Ptr a) (TPtr t)"
| slice: "lo \<le> a \<Longrightarrow> cells m a = Some vs \<Longrightarrow> length ts = length vs \<Longrightarrow>
    (\<And>i. i < length vs \<Longrightarrow> holds lo m ty (vs ! i) (ts ! i)) \<Longrightarrow> holds lo m (SliceT ty) (Slice a) (TSlice ts)"
| struct: "(\<And>n ty. (n, ty) \<in> set fs \<Longrightarrow> holds lo m ty (vs n) (ts n)) \<Longrightarrow> holds lo m (StructT fs) (Struct vs) (TStruct ts)"

inductive_cases holds_ptrE [consumes 1, case_names nil_ptr ptr]: "holds lo m (PtrT ty) v t"
inductive_cases holds_sliceE [consumes 1, case_names nil_slice slice]: "holds lo m (SliceT ty) v t"
inductive_cases holds_structE [consumes 1, case_names struct]: "holds lo m (StructT fs) v t"
inductive_simps holds_atom [simp]: "holds lo m AtomT v t"

text \<open>Reading depends only on the cells above the bound.\<close>

lemma holds_agree:
  assumes "holds lo m ty v t" "lo' \<le> lo" "\<And>a c. lo \<le> a \<Longrightarrow> cells m a = Some c \<Longrightarrow> cells m' a = Some c"
  shows "holds lo' m' ty v t"
  using assms(1)
proof induction
  case (ptr a v ty t)
  then show ?case using assms(2,3) by (intro holds.ptr) auto
next
  case (slice a vs ts ty)
  then show ?case using assms(2,3) by (intro holds.slice) auto
qed (auto intro: holds.intros)

lemma holds_extends:
  assumes "mem_ok m" "extends m m'" "holds lo m ty v t"
  shows "holds lo m' ty v t"
  using assms(1,2) by (intro holds_agree [OF assms(3)]) (auto simp: mem_ok_def extends_def)

text \<open>A type whose values contain no references: its values read the same everywhere.\<close>

inductive flat :: "gtype \<Rightarrow> bool" where
  "flat AtomT"
| "(\<And>n ty. (n, ty) \<in> set fs \<Longrightarrow> flat ty) \<Longrightarrow> flat (StructT fs)"

lemma flat_holds:
  assumes "flat ty" "holds lo m ty v t"
  shows "holds lo' m' ty v t"
  using assms
proof (induction arbitrary: v t)
  case (2 fs)
  from 2(3) show ?case by (cases rule: holds_structE) (auto intro: holds.struct 2(2))
qed simp

subsection \<open>The contract of a deep copy\<close>

definition copied :: "gtype \<Rightarrow> tree \<Rightarrow> memory \<Rightarrow> gval \<Rightarrow> memory \<Rightarrow> bool" where
  "copied ty t m v' m' = (mem_ok m' \<and> extends m m' \<and> holds (limit m) m' ty v' t)"

definition copier :: "gtype \<Rightarrow> copy_fun \<Rightarrow> bool" where
  "copier ty into = (\<forall>m v t. mem_ok m \<longrightarrow> holds 0 m ty v t \<longrightarrow> (case into v m of (v', m') \<Rightarrow> copied ty t m v' m'))"

named_theorems copiers \<open>which function deeply copies which type\<close>

lemma extends_refl [simp]: "extends m m"
  by (simp add: extends_def)

lemma extends_trans: "extends m m1 \<Longrightarrow> extends m1 m2 \<Longrightarrow> extends m m2"
  by (auto simp: extends_def)

lemma copierD:
  "copier ty into \<Longrightarrow> mem_ok m \<Longrightarrow> holds 0 m ty v t \<Longrightarrow> into v m = (v', m') \<Longrightarrow>
   mem_ok m' \<and> extends m m' \<and> holds (limit m) m' ty v' t"
  by (fastforce simp: copier_def copied_def)

lemma copier_assign [copiers]: "flat ty \<Longrightarrow> copier ty assign"
  by (auto simp: copier_def copied_def assign_def intro: flat_holds)

lemma new_array_ok:
  assumes "mem_ok m" "new_array n m = (b, m1)"
  shows "mem_ok m1" "extends m m1" "b = limit m" "limit m1 = Suc (limit m)" "cells m1 b = Some (replicate n NilRef)"
  using assms by (auto simp: new_array_def mem_ok_def extends_def less_Suc_eq split: if_splits)

text \<open>Writing to a fresh array, after more memory was allocated, disturbs nothing that is older or newer.\<close>

lemma set_elem_ok:
  assumes "mem_ok m" "cells m b = Some xs"
  shows "mem_ok (set_elem b i x m)" "cells (set_elem b i x m) b = Some (xs[i := x])" "limit (set_elem b i x m) = limit m"
    "a \<noteq> b \<Longrightarrow> cells (set_elem b i x m) a = cells m a"
  using assms by (auto simp: set_elem_def mem_ok_def)

lemma copier_ptr [copiers]:
  assumes "copier ty into"
  shows "copier (PtrT ty) (copy_ptr into)"
  unfolding copier_def
proof (intro allI impI)
  fix m v t
  assume ok: "mem_ok m" and read: "holds 0 m (PtrT ty) v t"
  from read show "case copy_ptr into v m of (v', m') \<Rightarrow> copied (PtrT ty) t m v' m'"
  proof (cases rule: holds_ptrE)
    case nil_ptr
    then show ?thesis using ok by (simp add: copy_ptr_def copied_def holds.nil_ptr)
  next
    case (ptr a x u)
    obtain b m1 where b: "new_array (Suc 0) m = (b, m1)" by (cases "new_array (Suc 0) m")
    note m1 = new_array_ok [OF ok b]
    have "a < limit m" using ok ptr(4) by (auto simp: mem_ok_def)
    then have elem: "elem m1 a 0 = x" using m1(2) ptr(4) by (simp add: elem_def extends_def)
    obtain x' m2 where x': "into x m1 = (x', m2)" by (cases "into x m1")
    have m2: "mem_ok m2" "extends m1 m2" "holds (limit m1) m2 ty x' u"
      using copierD [OF assms m1(1) holds_extends [OF ok m1(2) ptr(5)] x'] by auto
    have cell: "cells m2 b = Some [NilRef]" using m1(3-5) m2(2) by (simp add: extends_def)
    let ?m3 = "set_elem b 0 x' m2"
    note m3 = set_elem_ok [where i = 0 and x = x', OF m2(1) cell]
    have "holds (limit m) ?m3 ty x' u"
      using m1(3,4) m3(4) by (intro holds_agree [OF m2(3)]) auto
    then have "holds (limit m) ?m3 (PtrT ty) (Ptr b) t"
      using m3(2) m1(3) ptr(2) by (auto intro: holds.ptr)
    moreover have "extends m ?m3"
      using m1(2-4) m2(2) m3(3,4) by (auto simp: extends_def)
    ultimately show ?thesis
      using m3(1) by (simp add: copy_ptr_def ptr(1) b elem x' copied_def)
  qed
qed

lemma holds_weaken: "holds lo m ty v t \<Longrightarrow> lo' \<le> lo \<Longrightarrow> holds lo' m ty v t"
  by (rule holds_agree)

lemma copy_loop:
  assumes "copier ty into" "cells m a = Some vs" "mem_ok m" "a < limit m"
    and elems: "\<And>i. i < length vs \<Longrightarrow> holds 0 m ty (vs ! i) (ts ! i)"
    and m1: "mem_ok m1" "extends m m1" "limit m \<le> b" "limit m1 = Suc b" "cells m1 b = Some xs" "length xs = length vs"
    and "n \<le> length vs"
  shows "\<exists>xs m'. fold (\<lambda>i m. let (x, m') = into (elem m a i) m in set_elem b i x m') [0..<n] m1 = m' \<and>
    mem_ok m' \<and> extends m m' \<and> Suc b \<le> limit m' \<and> cells m' b = Some xs \<and> length xs = length vs \<and>
    (\<forall>i < n. holds (Suc b) m' ty (xs ! i) (ts ! i))"
  using assms(12)
proof (induction n)
  case 0
  then show ?case using m1 by auto
next
  case (Suc n)
  then obtain xs m2 where fold: "fold (\<lambda>i m. let (x, m') = into (elem m a i) m in set_elem b i x m') [0..<n] m1 = m2"
    and m2: "mem_ok m2" "extends m m2" "Suc b \<le> limit m2" "cells m2 b = Some xs" "length xs = length vs"
      "\<And>i. i < n \<Longrightarrow> holds (Suc b) m2 ty (xs ! i) (ts ! i)" by auto
  have elem: "elem m2 a n = vs ! n" using m2(2) assms(2,4) Suc.prems by (simp add: elem_def extends_def)
  obtain x m3 where x: "into (vs ! n) m2 = (x, m3)" by (cases "into (vs ! n) m2")
  have m3: "mem_ok m3" "extends m2 m3" "holds (limit m2) m3 ty x (ts ! n)"
    using copierD [OF assms(1) m2(1) holds_extends [OF assms(3) m2(2) elems] x] Suc.prems by auto
  have cell: "cells m3 b = Some xs" using m2(3,4) m3(2) by (simp add: extends_def)
  let ?m4 = "set_elem b n x m3"
  note m4 = set_elem_ok [where i = n and x = x, OF m3(1) cell]
  have "holds (Suc b) ?m4 ty (xs[n := x] ! i) (ts ! i)" if "i < Suc n" for i
  proof (cases "i = n")
    case True
    have "holds (Suc b) ?m4 ty x (ts ! n)"
      using m2(3) m4(4) by (intro holds_agree [OF m3(3)]) auto
    then show ?thesis using True Suc.prems m2(5) by simp
  next
    case False
    then have "holds (Suc b) m3 ty (xs ! i) (ts ! i)"
      using holds_extends [OF m2(1) m3(2) m2(6)] that by simp
    then have "holds (Suc b) ?m4 ty (xs ! i) (ts ! i)"
      using m4(4) by (auto intro: holds_agree)
    then show ?thesis using False by simp
  qed
  moreover have "extends m ?m4" "Suc b \<le> limit ?m4"
    using extends_trans [OF m2(2) m3(2)] m1(3) m2(3) m3(2) m4(3,4) by (auto simp: extends_def)
  ultimately show ?case
    using fold elem x m4(1,2) m2(5) by (intro exI [of _ "xs[n := x]"] exI [of _ ?m4]) simp
qed

lemma copier_slice [copiers]:
  assumes "copier ty into"
  shows "copier (SliceT ty) (copy_slice into)"
  unfolding copier_def
proof (intro allI impI)
  fix m v t
  assume ok: "mem_ok m" and read: "holds 0 m (SliceT ty) v t"
  from read show "case copy_slice into v m of (v', m') \<Rightarrow> copied (SliceT ty) t m v' m'"
  proof (cases rule: holds_sliceE)
    case nil_slice
    then show ?thesis using ok by (simp add: copy_slice_def copied_def holds.nil_slice)
  next
    case (slice a vs ts)
    obtain b m1 where b: "new_array (length vs) m = (b, m1)" by (cases "new_array (length vs) m")
    note m1 = new_array_ok [OF ok b]
    have a: "a < limit m" using ok slice(4) by (auto simp: mem_ok_def)
    obtain xs m' where fold: "fold (\<lambda>i m. let (x, m') = into (elem m a i) m in set_elem b i x m') [0..<length vs] m1 = m'"
      and m': "mem_ok m'" "extends m m'" "cells m' b = Some xs" "length xs = length vs"
        "\<And>i. i < length vs \<Longrightarrow> holds (Suc b) m' ty (xs ! i) (ts ! i)"
    proof -
      have "limit m \<le> b" "limit m1 = Suc b" "length (replicate (length vs) NilRef) = length vs" using m1(3,4) by simp_all
      from copy_loop [OF assms slice(4) ok a slice(6) m1(1,2) this(1,2) m1(5) this(3) order_refl]
      show thesis using that by blast
    qed
    have "holds (limit m) m' (SliceT ty) (Slice b) t"
      unfolding slice(2)
    proof (rule holds.slice)
      fix i assume "i < length xs"
      then have "i < length vs" using m'(4) by simp
      from m'(5) [OF this] show "holds (limit m) m' ty (xs ! i) (ts ! i)"
        by (rule holds_weaken) (simp add: m1(3))
    qed (simp_all add: m'(3) [unfolded m1(3)] m'(4) m1(3) slice(5))
    moreover have "array_len m a = length vs" using slice(4) by (simp add: array_len_def)
    ultimately show ?thesis
      using m'(1,2) b fold by (simp add: copy_slice_def slice(1) copied_def)
  qed
qed

lemma copy_fields_ok:
  assumes "copy_fields plan (Struct vs) (Struct os) m = (out, m')" "mem_ok m"
    and "\<And>n ty. (n, ty) \<in> set fs \<Longrightarrow> holds 0 m ty (vs n) (us n)"
    and "\<And>n into. (n, into) \<in> set plan \<Longrightarrow> \<exists>ty. (n, ty) \<in> set fs \<and> copier ty into"
    and "distinct (map fst plan)" "distinct (map fst fs)"
  shows "mem_ok m' \<and> extends m m' \<and> (\<exists>os'. out = Struct os' \<and> (\<forall>n. n \<notin> fst ` set plan \<longrightarrow> os' n = os n) \<and>
    (\<forall>n ty. (n, ty) \<in> set fs \<longrightarrow> n \<in> fst ` set plan \<longrightarrow> holds (limit m) m' ty (os' n) (us n)))"
  using assms
proof (induction plan arbitrary: os m)
  case Nil
  then have "out = Struct os" "m' = m" by simp_all
  then show ?case using Nil.prems(2) by simp
next
  case (Cons p plan)
  obtain n into where p: "p = (n, into)" by (cases p)
  obtain ty where ty: "(n, ty) \<in> set fs" "copier ty into" using Cons.prems(4) p by auto
  obtain x m1 where x: "into (vs n) m = (x, m1)" by (cases "into (vs n) m")
  have m1: "mem_ok m1" "extends m m1" "holds (limit m) m1 ty x (us n)"
    using copierD [OF ty(2) Cons.prems(2) Cons.prems(3) [OF ty(1)] x] by auto
  have rest: "copy_fields plan (Struct vs) (Struct (os(n := x))) m1 = (out, m')"
    using Cons.prems(1) x by (simp add: p field_def set_field_def)
  obtain os' where os': "mem_ok m'" "extends m1 m'" "out = Struct os'" "\<forall>k. k \<notin> fst ` set plan \<longrightarrow> os' k = (os(n := x)) k"
    "\<And>k ty. (k, ty) \<in> set fs \<Longrightarrow> k \<in> fst ` set plan \<Longrightarrow> holds (limit m1) m' ty (os' k) (us k)"
    using Cons.IH [OF rest m1(1) holds_extends [OF Cons.prems(2) m1(2) Cons.prems(3)]] Cons.prems(4-6) by auto
  have "n \<notin> fst ` set plan" using Cons.prems(5) p by simp
  then have "holds (limit m) m' ty (os' n) (us n)"
    using os'(4) holds_extends [OF m1(1) os'(2) m1(3)] by simp
  moreover have "ty' = ty" if "(n, ty') \<in> set fs" for ty'
    using that ty(1) Cons.prems(6) eq_key_imp_eq_value by fastforce
  moreover have "limit m \<le> limit m1" using m1(2) by (simp add: extends_def)
  ultimately have "holds (limit m) m' ty' (os' k) (us k)" if "(k, ty') \<in> set fs" "k \<in> fst ` set (p # plan)" for k ty'
    using that os'(5) [of k ty'] holds_weaken p by (cases "k = n") auto
  then show ?case
    using os'(1,3,4) extends_trans [OF m1(2) os'(2)] by (auto simp: p)
qed

text \<open>A struct is deeply copied if every field that may contain a reference is.\<close>

definition covers :: "(string \<times> copy_fun) list \<Rightarrow> (string \<times> gtype) list \<Rightarrow> bool" where
  "covers plan fs =
     (distinct (map fst plan) \<and> distinct (map fst fs) \<and> fst ` set plan \<subseteq> fst ` set fs \<and>
      list_all (\<lambda>(n, ty). case map_of plan n of None \<Rightarrow> flat ty | Some into \<Rightarrow> copier ty into) fs)"

lemma copier_struct [copiers]:
  assumes "covers plan fs"
  shows "copier (StructT fs) (copy_struct plan)"
  unfolding copier_def
proof (intro allI impI)
  fix m v t
  assume ok: "mem_ok m" and read: "holds 0 m (StructT fs) v t"
  note c = assms [unfolded covers_def]
  from read obtain vs us where v: "v = Struct vs" "t = TStruct us"
    and fields: "\<And>n ty. (n, ty) \<in> set fs \<Longrightarrow> holds 0 m ty (vs n) (us n)"
    by (cases rule: holds_structE) auto
  have typed: "case map_of plan n of None \<Rightarrow> flat ty | Some into \<Rightarrow> copier ty into" if "(n, ty) \<in> set fs" for n ty
    using c that by (auto simp: list_all_iff)
  have plan: "\<exists>ty. (n, ty) \<in> set fs \<and> copier ty into" if "(n, into) \<in> set plan" for n into
  proof -
    have "map_of plan n = Some into" using that c by simp
    moreover have "n \<in> fst ` set plan" using that by (rule rev_image_eqI) simp
    then obtain ty where ty: "(n, ty) \<in> set fs" using c by auto
    ultimately have "copier ty into" using typed [OF ty] by simp
    then show ?thesis using ty by blast
  qed
  obtain out m' where out: "copy_fields plan (Struct vs) (Struct vs) m = (out, m')"
    by (cases "copy_fields plan (Struct vs) (Struct vs) m")
  obtain os where os: "mem_ok m'" "extends m m'" "out = Struct os" "\<And>n. n \<notin> fst ` set plan \<Longrightarrow> os n = vs n"
    "\<And>n ty. (n, ty) \<in> set fs \<Longrightarrow> n \<in> fst ` set plan \<Longrightarrow> holds (limit m) m' ty (os n) (us n)"
    using copy_fields_ok [OF out ok fields plan] c by auto
  have "holds (limit m) m' ty (os n) (us n)" if n: "(n, ty) \<in> set fs" for n ty
  proof (cases "n \<in> fst ` set plan")
    case False
    then have "map_of plan n = None" by (simp add: map_of_eq_None_iff)
    then have "flat ty" using typed [OF n] by simp
    then show ?thesis using flat_holds fields [OF n] os(4) [OF False] by simp
  qed (use os(5) n in blast)
  then show "case copy_struct plan v m of (v', m') \<Rightarrow> copied (StructT fs) t m v' m'"
    using os(1-3) out by (auto simp: copy_struct_def v copied_def intro: holds.struct)
qed

end
