(* ===== verification/Deep_Copy.thy ===== *)
theory Deep_Copy
  imports Go_Memory
begin

text \<open>
  \<open>api/v1/zz_generated.deepcopy.go\<close>: for every type of the API its shape as declared in \<open>api/v1\<close>, the
  generated \<open>DeepCopyInto\<close>, \<open>DeepCopy\<close> and, for the objects the scheme registers, \<open>DeepCopyObject\<close>. The types of
  the Kubernetes libraries that occur as fields are parameters, with the functions that copy them. The
  theorem says that the generated code fits the declared types: nothing reachable from a copy is shared with
  its original.
\<close>

record library =
  type_meta_T :: gtype
  object_meta_T :: gtype
  list_meta_T :: gtype
  condition_T :: gtype
  label_selector_T :: gtype
  json_T :: gtype
  int_or_string_T :: gtype
  duration_T :: gtype
  time_T :: gtype
  copy_object_meta :: copy_fun
  copy_list_meta :: copy_fun
  copy_condition :: copy_fun
  copy_label_selector :: copy_fun
  copy_json :: copy_fun
  copy_time :: copy_fun

text \<open>The copy functions of the libraries copy deeply, and the types that the generated code assigns contain
  no references.\<close>

definition lib_laws :: "library \<Rightarrow> bool" where
  "lib_laws L =
     (flat (type_meta_T L) \<and> flat (int_or_string_T L) \<and> flat (duration_T L) \<and>
      copier (object_meta_T L) (copy_object_meta L) \<and> copier (list_meta_T L) (copy_list_meta L) \<and>
      copier (condition_T L) (copy_condition L) \<and> copier (label_selector_T L) (copy_label_selector L) \<and>
      copier (json_T L) (copy_json L) \<and> copier (PtrT (time_T L)) (copy_time L))"

text \<open>\<open>if in.F != nil\<close> around a call.\<close>

definition if_set :: "copy_fun \<Rightarrow> copy_fun" where
  "if_set f v m = (if v \<noteq> NilRef then f v m else (v, m))"

subsection \<open>The generated functions\<close>

definition CapacityStrategy_T :: "gtype" where
  "CapacityStrategy_T = StructT
     [(''Type'', AtomT), (''SpotRatio'', AtomT), (''FallbackAction'', AtomT)]"

definition CapacityStrategy_DeepCopyInto :: "copy_fun" where
  "CapacityStrategy_DeepCopyInto = copy_struct
     []"

definition CapacityStrategy_DeepCopy :: "copy_fun" where
  "CapacityStrategy_DeepCopy = deep_copy CapacityStrategy_DeepCopyInto"

definition Disruption_T :: "gtype" where
  "Disruption_T = StructT
     [(''DaysOfWeek'', SliceT AtomT), (''MaxAllowedWindows'', AtomT),
      (''MaxNonDisruptionDurationDays'', AtomT), (''EnforcedDisruptionTimeoutSeconds'', AtomT),
      (''EmergencyOverride'', AtomT)]"

definition Disruption_DeepCopyInto :: "copy_fun" where
  "Disruption_DeepCopyInto = copy_struct
     [(''DaysOfWeek'', copy_slice assign)]"

definition Disruption_DeepCopy :: "copy_fun" where
  "Disruption_DeepCopy = deep_copy Disruption_DeepCopyInto"

definition Constraints_T :: "gtype" where
  "Constraints_T = StructT
     [(''Disruption'', Disruption_T)]"

definition Constraints_DeepCopyInto :: "copy_fun" where
  "Constraints_DeepCopyInto = copy_struct
     [(''Disruption'', Disruption_DeepCopyInto)]"

definition Constraints_DeepCopy :: "copy_fun" where
  "Constraints_DeepCopy = deep_copy Constraints_DeepCopyInto"

definition DisruptionWindow_T :: "gtype" where
  "DisruptionWindow_T = StructT
     [(''Name'', AtomT), (''DaysOfWeek'', SliceT AtomT), (''TimeZone'', AtomT), (''StartTime'', AtomT),
      (''EndTime'', AtomT)]"

definition DisruptionWindow_DeepCopyInto :: "copy_fun" where
  "DisruptionWindow_DeepCopyInto = copy_struct
     [(''DaysOfWeek'', copy_slice assign)]"

definition DisruptionWindow_DeepCopy :: "copy_fun" where
  "DisruptionWindow_DeepCopy = deep_copy DisruptionWindow_DeepCopyInto"

definition Subject_T :: "gtype" where
  "Subject_T = StructT
     [(''Kind'', AtomT), (''Name'', AtomT), (''Namespace'', AtomT)]"

definition Subject_DeepCopyInto :: "copy_fun" where
  "Subject_DeepCopyInto = copy_struct
     []"

definition Subject_DeepCopy :: "copy_fun" where
  "Subject_DeepCopy = deep_copy Subject_DeepCopyInto"

definition DisruptionPolicy_T :: "gtype" where
  "DisruptionPolicy_T = StructT
     [(''AllowedDisruptionWindows'', SliceT DisruptionWindow_T),
      (''AllowedDisruptionsOutsideOfWindow'', SliceT Subject_T), (''MaxNonDisruptionDurationDays'', AtomT),
      (''MinInitialRunDurationDays'', AtomT), (''GraceTerminationDurationSeconds'', AtomT),
      (''EmergencyOverride'', AtomT)]"

definition DisruptionPolicy_DeepCopyInto :: "copy_fun" where
  "DisruptionPolicy_DeepCopyInto = copy_struct
     [(''AllowedDisruptionWindows'', copy_slice DisruptionWindow_DeepCopyInto),
      (''AllowedDisruptionsOutsideOfWindow'', copy_slice assign)]"

definition DisruptionPolicy_DeepCopy :: "copy_fun" where
  "DisruptionPolicy_DeepCopy = deep_copy DisruptionPolicy_DeepCopyInto"

definition GKESpotFallbackConstraints_T :: "library \<Rightarrow> gtype" where
  "GKESpotFallbackConstraints_T L = StructT
     [(''AllowFallbackToOnDemand'', PtrT AtomT), (''MaxFallbackRatio'', PtrT (int_or_string_T L))]"

definition GKESpotFallbackConstraints_DeepCopyInto :: "library \<Rightarrow> copy_fun" where
  "GKESpotFallbackConstraints_DeepCopyInto L = copy_struct
     [(''AllowFallbackToOnDemand'', copy_ptr assign), (''MaxFallbackRatio'', copy_ptr assign)]"

definition GKESpotFallbackConstraints_DeepCopy :: "library \<Rightarrow> copy_fun" where
  "GKESpotFallbackConstraints_DeepCopy L = deep_copy (GKESpotFallbackConstraints_DeepCopyInto L)"

definition GKESpotReversionConstraints_T :: "library \<Rightarrow> gtype" where
  "GKESpotReversionConstraints_T L = StructT
     [(''RequiredReversionAction'', PtrT AtomT), (''MaxFallbackDuration'', PtrT (duration_T L))]"

definition GKESpotReversionConstraints_DeepCopyInto :: "library \<Rightarrow> copy_fun" where
  "GKESpotReversionConstraints_DeepCopyInto L = copy_struct
     [(''RequiredReversionAction'', copy_ptr assign), (''MaxFallbackDuration'', copy_ptr assign)]"

definition GKESpotReversionConstraints_DeepCopy :: "library \<Rightarrow> copy_fun" where
  "GKESpotReversionConstraints_DeepCopy L = deep_copy (GKESpotReversionConstraints_DeepCopyInto L)"

definition GKESpotGuardrailParameters_T :: "library \<Rightarrow> gtype" where
  "GKESpotGuardrailParameters_T L = StructT
     [(''EnforcementMode'', AtomT), (''MinSpotRatio'', PtrT AtomT),
      (''Fallback'', PtrT (GKESpotFallbackConstraints_T L)),
      (''Reversion'', PtrT (GKESpotReversionConstraints_T L))]"

definition GKESpotGuardrailParameters_DeepCopyInto :: "library \<Rightarrow> copy_fun" where
  "GKESpotGuardrailParameters_DeepCopyInto L = copy_struct
     [(''MinSpotRatio'', copy_ptr assign),
      (''Fallback'', copy_ptr (GKESpotFallbackConstraints_DeepCopyInto L)),
      (''Reversion'', copy_ptr (GKESpotReversionConstraints_DeepCopyInto L))]"

definition GKESpotGuardrailParameters_DeepCopy :: "library \<Rightarrow> copy_fun" where
  "GKESpotGuardrailParameters_DeepCopy L = deep_copy (GKESpotGuardrailParameters_DeepCopyInto L)"

definition SpotReversionPolicy_T :: "library \<Rightarrow> gtype" where
  "SpotReversionPolicy_T L = StructT
     [(''Action'', AtomT), (''MinDurationOnFallback'', PtrT (duration_T L))]"

definition SpotReversionPolicy_DeepCopyInto :: "library \<Rightarrow> copy_fun" where
  "SpotReversionPolicy_DeepCopyInto L = copy_struct
     [(''MinDurationOnFallback'', copy_ptr assign)]"

definition SpotReversionPolicy_DeepCopy :: "library \<Rightarrow> copy_fun" where
  "SpotReversionPolicy_DeepCopy L = deep_copy (SpotReversionPolicy_DeepCopyInto L)"

definition GKESpotPlacementPolicySpec_T :: "library \<Rightarrow> gtype" where
  "GKESpotPlacementPolicySpec_T L = StructT
     [(''CustomComputeClass'', AtomT), (''FallbackAllowedMachineFamilies'', SliceT AtomT),
      (''Reversion'', SpotReversionPolicy_T L)]"

definition GKESpotPlacementPolicySpec_DeepCopyInto :: "library \<Rightarrow> copy_fun" where
  "GKESpotPlacementPolicySpec_DeepCopyInto L = copy_struct
     [(''FallbackAllowedMachineFamilies'', copy_slice assign),
      (''Reversion'', SpotReversionPolicy_DeepCopyInto L)]"

definition GKESpotPlacementPolicySpec_DeepCopy :: "library \<Rightarrow> copy_fun" where
  "GKESpotPlacementPolicySpec_DeepCopy L = deep_copy (GKESpotPlacementPolicySpec_DeepCopyInto L)"

definition GKESpotPlacementPolicyStatus_T :: "library \<Rightarrow> gtype" where
  "GKESpotPlacementPolicyStatus_T L = StructT
     [(''Conditions'', SliceT (condition_T L))]"

definition GKESpotPlacementPolicyStatus_DeepCopyInto :: "library \<Rightarrow> copy_fun" where
  "GKESpotPlacementPolicyStatus_DeepCopyInto L = copy_struct
     [(''Conditions'', copy_slice (copy_condition L))]"

definition GKESpotPlacementPolicyStatus_DeepCopy :: "library \<Rightarrow> copy_fun" where
  "GKESpotPlacementPolicyStatus_DeepCopy L = deep_copy (GKESpotPlacementPolicyStatus_DeepCopyInto L)"

definition GKESpotPlacementPolicy_T :: "library \<Rightarrow> gtype" where
  "GKESpotPlacementPolicy_T L = StructT
     [(''TypeMeta'', type_meta_T L), (''ObjectMeta'', object_meta_T L),
      (''Spec'', GKESpotPlacementPolicySpec_T L), (''Status'', GKESpotPlacementPolicyStatus_T L)]"

definition GKESpotPlacementPolicy_DeepCopyInto :: "library \<Rightarrow> copy_fun" where
  "GKESpotPlacementPolicy_DeepCopyInto L = copy_struct
     [(''TypeMeta'', assign), (''ObjectMeta'', copy_object_meta L),
      (''Spec'', GKESpotPlacementPolicySpec_DeepCopyInto L),
      (''Status'', GKESpotPlacementPolicyStatus_DeepCopyInto L)]"

definition GKESpotPlacementPolicy_DeepCopy :: "library \<Rightarrow> copy_fun" where
  "GKESpotPlacementPolicy_DeepCopy L = deep_copy (GKESpotPlacementPolicy_DeepCopyInto L)"

definition GKESpotPlacementPolicy_DeepCopyObject :: "library \<Rightarrow> gval \<Rightarrow> memory \<Rightarrow> gval option \<times> memory" where
  "GKESpotPlacementPolicy_DeepCopyObject L = deep_copy_object (GKESpotPlacementPolicy_DeepCopy L)"

definition GKESpotPlacementPolicyList_T :: "library \<Rightarrow> gtype" where
  "GKESpotPlacementPolicyList_T L = StructT
     [(''TypeMeta'', type_meta_T L), (''ListMeta'', list_meta_T L),
      (''Items'', SliceT (GKESpotPlacementPolicy_T L))]"

definition GKESpotPlacementPolicyList_DeepCopyInto :: "library \<Rightarrow> copy_fun" where
  "GKESpotPlacementPolicyList_DeepCopyInto L = copy_struct
     [(''TypeMeta'', assign), (''ListMeta'', copy_list_meta L),
      (''Items'', copy_slice (GKESpotPlacementPolicy_DeepCopyInto L))]"

definition GKESpotPlacementPolicyList_DeepCopy :: "library \<Rightarrow> copy_fun" where
  "GKESpotPlacementPolicyList_DeepCopy L = deep_copy (GKESpotPlacementPolicyList_DeepCopyInto L)"

definition GKESpotPlacementPolicyList_DeepCopyObject :: "library \<Rightarrow> gval \<Rightarrow> memory \<Rightarrow> gval option \<times> memory" where
  "GKESpotPlacementPolicyList_DeepCopyObject L = deep_copy_object (GKESpotPlacementPolicyList_DeepCopy L)"

definition InfrastructureProfileReference_T :: "gtype" where
  "InfrastructureProfileReference_T = StructT
     [(''Group'', AtomT), (''Kind'', AtomT), (''Name'', AtomT)]"

definition InfrastructureProfileReference_DeepCopyInto :: "copy_fun" where
  "InfrastructureProfileReference_DeepCopyInto = copy_struct
     []"

definition InfrastructureProfileReference_DeepCopy :: "copy_fun" where
  "InfrastructureProfileReference_DeepCopy = deep_copy InfrastructureProfileReference_DeepCopyInto"

definition PluginConstraint_T :: "library \<Rightarrow> gtype" where
  "PluginConstraint_T L = StructT
     [(''Name'', AtomT), (''AllowedConfigTemplate'', AtomT), (''Parameters'', PtrT (json_T L))]"

definition PluginConstraint_DeepCopyInto :: "library \<Rightarrow> copy_fun" where
  "PluginConstraint_DeepCopyInto L = copy_struct
     [(''Parameters'', copy_ptr (copy_json L))]"

definition PluginConstraint_DeepCopy :: "library \<Rightarrow> copy_fun" where
  "PluginConstraint_DeepCopy L = deep_copy (PluginConstraint_DeepCopyInto L)"

definition PluginConstraints_T :: "library \<Rightarrow> gtype" where
  "PluginConstraints_T L = StructT
     [(''Placement'', SliceT (PluginConstraint_T L))]"

definition PluginConstraints_DeepCopyInto :: "library \<Rightarrow> copy_fun" where
  "PluginConstraints_DeepCopyInto L = copy_struct
     [(''Placement'', copy_slice (PluginConstraint_DeepCopyInto L))]"

definition PluginConstraints_DeepCopy :: "library \<Rightarrow> copy_fun" where
  "PluginConstraints_DeepCopy L = deep_copy (PluginConstraints_DeepCopyInto L)"

definition WorkloadClassGuardrailSpec_T :: "library \<Rightarrow> gtype" where
  "WorkloadClassGuardrailSpec_T L = StructT
     [(''Constraints'', Constraints_T), (''PluginConstraints'', PtrT (PluginConstraints_T L))]"

definition WorkloadClassGuardrailSpec_DeepCopyInto :: "library \<Rightarrow> copy_fun" where
  "WorkloadClassGuardrailSpec_DeepCopyInto L = copy_struct
     [(''Constraints'', Constraints_DeepCopyInto),
      (''PluginConstraints'', copy_ptr (PluginConstraints_DeepCopyInto L))]"

definition WorkloadClassGuardrailSpec_DeepCopy :: "library \<Rightarrow> copy_fun" where
  "WorkloadClassGuardrailSpec_DeepCopy L = deep_copy (WorkloadClassGuardrailSpec_DeepCopyInto L)"

definition WorkloadClassGuardrailStatus_T :: "library \<Rightarrow> gtype" where
  "WorkloadClassGuardrailStatus_T L = StructT
     [(''Conditions'', SliceT (condition_T L))]"

definition WorkloadClassGuardrailStatus_DeepCopyInto :: "library \<Rightarrow> copy_fun" where
  "WorkloadClassGuardrailStatus_DeepCopyInto L = copy_struct
     [(''Conditions'', copy_slice (copy_condition L))]"

definition WorkloadClassGuardrailStatus_DeepCopy :: "library \<Rightarrow> copy_fun" where
  "WorkloadClassGuardrailStatus_DeepCopy L = deep_copy (WorkloadClassGuardrailStatus_DeepCopyInto L)"

definition WorkloadClassGuardrail_T :: "library \<Rightarrow> gtype" where
  "WorkloadClassGuardrail_T L = StructT
     [(''TypeMeta'', type_meta_T L), (''ObjectMeta'', object_meta_T L),
      (''Spec'', WorkloadClassGuardrailSpec_T L), (''Status'', WorkloadClassGuardrailStatus_T L)]"

definition WorkloadClassGuardrail_DeepCopyInto :: "library \<Rightarrow> copy_fun" where
  "WorkloadClassGuardrail_DeepCopyInto L = copy_struct
     [(''TypeMeta'', assign), (''ObjectMeta'', copy_object_meta L),
      (''Spec'', WorkloadClassGuardrailSpec_DeepCopyInto L),
      (''Status'', WorkloadClassGuardrailStatus_DeepCopyInto L)]"

definition WorkloadClassGuardrail_DeepCopy :: "library \<Rightarrow> copy_fun" where
  "WorkloadClassGuardrail_DeepCopy L = deep_copy (WorkloadClassGuardrail_DeepCopyInto L)"

definition WorkloadClassGuardrail_DeepCopyObject :: "library \<Rightarrow> gval \<Rightarrow> memory \<Rightarrow> gval option \<times> memory" where
  "WorkloadClassGuardrail_DeepCopyObject L = deep_copy_object (WorkloadClassGuardrail_DeepCopy L)"

definition WorkloadClassGuardrailList_T :: "library \<Rightarrow> gtype" where
  "WorkloadClassGuardrailList_T L = StructT
     [(''TypeMeta'', type_meta_T L), (''ListMeta'', list_meta_T L),
      (''Items'', SliceT (WorkloadClassGuardrail_T L))]"

definition WorkloadClassGuardrailList_DeepCopyInto :: "library \<Rightarrow> copy_fun" where
  "WorkloadClassGuardrailList_DeepCopyInto L = copy_struct
     [(''TypeMeta'', assign), (''ListMeta'', copy_list_meta L),
      (''Items'', copy_slice (WorkloadClassGuardrail_DeepCopyInto L))]"

definition WorkloadClassGuardrailList_DeepCopy :: "library \<Rightarrow> copy_fun" where
  "WorkloadClassGuardrailList_DeepCopy L = deep_copy (WorkloadClassGuardrailList_DeepCopyInto L)"

definition WorkloadClassGuardrailList_DeepCopyObject :: "library \<Rightarrow> gval \<Rightarrow> memory \<Rightarrow> gval option \<times> memory" where
  "WorkloadClassGuardrailList_DeepCopyObject L = deep_copy_object (WorkloadClassGuardrailList_DeepCopy L)"

definition WorkloadClassSpec_T :: "library \<Rightarrow> gtype" where
  "WorkloadClassSpec_T L = StructT
     [(''PodSelector'', PtrT (label_selector_T L)), (''DisruptionPolicy'', DisruptionPolicy_T),
      (''CapacityStrategy'', PtrT CapacityStrategy_T),
      (''InfrastructureProfileRef'', PtrT InfrastructureProfileReference_T)]"

definition WorkloadClassSpec_DeepCopyInto :: "library \<Rightarrow> copy_fun" where
  "WorkloadClassSpec_DeepCopyInto L = copy_struct
     [(''PodSelector'', copy_ptr (copy_label_selector L)),
      (''DisruptionPolicy'', DisruptionPolicy_DeepCopyInto), (''CapacityStrategy'', copy_ptr assign),
      (''InfrastructureProfileRef'', copy_ptr assign)]"

definition WorkloadClassSpec_DeepCopy :: "library \<Rightarrow> copy_fun" where
  "WorkloadClassSpec_DeepCopy L = deep_copy (WorkloadClassSpec_DeepCopyInto L)"

definition WorkloadClassStatus_T :: "library \<Rightarrow> gtype" where
  "WorkloadClassStatus_T L = StructT
     [(''MaintenanceReadiness'', AtomT), (''LastDisruptionTime'', PtrT (time_T L)),
      (''Conditions'', SliceT (condition_T L))]"

definition WorkloadClassStatus_DeepCopyInto :: "library \<Rightarrow> copy_fun" where
  "WorkloadClassStatus_DeepCopyInto L = copy_struct
     [(''LastDisruptionTime'', if_set (copy_time L)), (''Conditions'', copy_slice (copy_condition L))]"

definition WorkloadClassStatus_DeepCopy :: "library \<Rightarrow> copy_fun" where
  "WorkloadClassStatus_DeepCopy L = deep_copy (WorkloadClassStatus_DeepCopyInto L)"

definition WorkloadClass_T :: "library \<Rightarrow> gtype" where
  "WorkloadClass_T L = StructT
     [(''TypeMeta'', type_meta_T L), (''ObjectMeta'', object_meta_T L), (''Spec'', WorkloadClassSpec_T L),
      (''Status'', WorkloadClassStatus_T L)]"

definition WorkloadClass_DeepCopyInto :: "library \<Rightarrow> copy_fun" where
  "WorkloadClass_DeepCopyInto L = copy_struct
     [(''TypeMeta'', assign), (''ObjectMeta'', copy_object_meta L),
      (''Spec'', WorkloadClassSpec_DeepCopyInto L), (''Status'', WorkloadClassStatus_DeepCopyInto L)]"

definition WorkloadClass_DeepCopy :: "library \<Rightarrow> copy_fun" where
  "WorkloadClass_DeepCopy L = deep_copy (WorkloadClass_DeepCopyInto L)"

definition WorkloadClass_DeepCopyObject :: "library \<Rightarrow> gval \<Rightarrow> memory \<Rightarrow> gval option \<times> memory" where
  "WorkloadClass_DeepCopyObject L = deep_copy_object (WorkloadClass_DeepCopy L)"

definition WorkloadClassList_T :: "library \<Rightarrow> gtype" where
  "WorkloadClassList_T L = StructT
     [(''TypeMeta'', type_meta_T L), (''ListMeta'', list_meta_T L),
      (''Items'', SliceT (WorkloadClass_T L))]"

definition WorkloadClassList_DeepCopyInto :: "library \<Rightarrow> copy_fun" where
  "WorkloadClassList_DeepCopyInto L = copy_struct
     [(''TypeMeta'', assign), (''ListMeta'', copy_list_meta L),
      (''Items'', copy_slice (WorkloadClass_DeepCopyInto L))]"

definition WorkloadClassList_DeepCopy :: "library \<Rightarrow> copy_fun" where
  "WorkloadClassList_DeepCopy L = deep_copy (WorkloadClassList_DeepCopyInto L)"

definition WorkloadClassList_DeepCopyObject :: "library \<Rightarrow> gval \<Rightarrow> memory \<Rightarrow> gval option \<times> memory" where
  "WorkloadClassList_DeepCopyObject L = deep_copy_object (WorkloadClassList_DeepCopy L)"

subsection \<open>They copy deeply\<close>

lemma flat_simps [simp]: "flat AtomT" "flat (StructT fs) \<longleftrightarrow> list_all (\<lambda>x. flat (snd x)) fs"
  "\<not> flat (PtrT ty)" "\<not> flat (SliceT ty)"
  by (auto simp: flat.simps [of "StructT fs"] list_all_iff intro: flat.intros elim: flat.cases)

lemma copier_if_set [copiers]: "copier (PtrT ty) f \<Longrightarrow> copier (PtrT ty) (if_set f)"
  by (auto simp: copier_def copied_def if_set_def intro: holds.nil_ptr elim: holds_ptrE)

lemma copier_deep_copy [copiers]: "copier ty into \<Longrightarrow> copier (PtrT ty) (deep_copy into)"
  using copier_ptr [of ty into]
  by (auto simp: copier_def copied_def deep_copy_def intro: holds.nil_ptr elim: holds_ptrE)

text \<open>As an interface value the copy of nil is nil, and every other copy is the copy.\<close>

lemma deep_copy_object_copies:
  assumes "copier (PtrT ty) copy" "mem_ok m" "holds 0 m (PtrT ty) p t"
  shows "case deep_copy_object copy p m of
      (None, m') \<Rightarrow> p = NilRef \<and> mem_ok m' \<and> extends m m'
    | (Some c, m') \<Rightarrow> p \<noteq> NilRef \<and> copied (PtrT ty) t m c m'"
proof (cases "copy p m")
  case (Pair c m')
  then have c: "mem_ok m' \<and> extends m m' \<and> holds (limit m) m' (PtrT ty) c t" using copierD assms by blast
  then have "c = NilRef \<longleftrightarrow> p = NilRef" using assms(3) by (auto elim!: holds_ptrE)
  then show ?thesis using Pair c by (simp add: deep_copy_object_def copied_def)
qed

lemma lib_lawsD [copiers]:
  assumes "lib_laws L"
  shows "flat (type_meta_T L)" "flat (int_or_string_T L)" "flat (duration_T L)"
    "copier (object_meta_T L) (copy_object_meta L)" "copier (list_meta_T L) (copy_list_meta L)"
    "copier (condition_T L) (copy_condition L)" "copier (label_selector_T L) (copy_label_selector L)"
    "copier (json_T L) (copy_json L)" "copier (PtrT (time_T L)) (copy_time L)"
  using assms by (simp_all add: lib_laws_def)

lemma CapacityStrategy_flat [simp]: "flat CapacityStrategy_T"
  by (simp add: CapacityStrategy_T_def)

lemma CapacityStrategy_copier [copiers]: "copier CapacityStrategy_T CapacityStrategy_DeepCopyInto"
  by (simp add: CapacityStrategy_T_def CapacityStrategy_DeepCopyInto_def copiers covers_def)

lemma Disruption_copier [copiers]: "copier Disruption_T Disruption_DeepCopyInto"
  by (simp add: Disruption_T_def Disruption_DeepCopyInto_def copiers covers_def)

lemma Constraints_copier [copiers]: "copier Constraints_T Constraints_DeepCopyInto"
  by (simp add: Constraints_T_def Constraints_DeepCopyInto_def copiers covers_def)

lemma DisruptionWindow_copier [copiers]: "copier DisruptionWindow_T DisruptionWindow_DeepCopyInto"
  by (simp add: DisruptionWindow_T_def DisruptionWindow_DeepCopyInto_def copiers covers_def)

lemma Subject_flat [simp]: "flat Subject_T"
  by (simp add: Subject_T_def)

lemma Subject_copier [copiers]: "copier Subject_T Subject_DeepCopyInto"
  by (simp add: Subject_T_def Subject_DeepCopyInto_def copiers covers_def)

lemma DisruptionPolicy_copier [copiers]: "copier DisruptionPolicy_T DisruptionPolicy_DeepCopyInto"
  by (simp add: DisruptionPolicy_T_def DisruptionPolicy_DeepCopyInto_def copiers covers_def)

lemma GKESpotFallbackConstraints_copier [copiers]: "lib_laws L \<Longrightarrow> copier (GKESpotFallbackConstraints_T L) (GKESpotFallbackConstraints_DeepCopyInto L)"
  by (simp add: GKESpotFallbackConstraints_T_def GKESpotFallbackConstraints_DeepCopyInto_def copiers covers_def)

lemma GKESpotReversionConstraints_copier [copiers]: "lib_laws L \<Longrightarrow> copier (GKESpotReversionConstraints_T L) (GKESpotReversionConstraints_DeepCopyInto L)"
  by (simp add: GKESpotReversionConstraints_T_def GKESpotReversionConstraints_DeepCopyInto_def copiers covers_def)

lemma GKESpotGuardrailParameters_copier [copiers]: "lib_laws L \<Longrightarrow> copier (GKESpotGuardrailParameters_T L) (GKESpotGuardrailParameters_DeepCopyInto L)"
  by (simp add: GKESpotGuardrailParameters_T_def GKESpotGuardrailParameters_DeepCopyInto_def copiers covers_def)

lemma SpotReversionPolicy_copier [copiers]: "lib_laws L \<Longrightarrow> copier (SpotReversionPolicy_T L) (SpotReversionPolicy_DeepCopyInto L)"
  by (simp add: SpotReversionPolicy_T_def SpotReversionPolicy_DeepCopyInto_def copiers covers_def)

lemma GKESpotPlacementPolicySpec_copier [copiers]: "lib_laws L \<Longrightarrow> copier (GKESpotPlacementPolicySpec_T L) (GKESpotPlacementPolicySpec_DeepCopyInto L)"
  by (simp add: GKESpotPlacementPolicySpec_T_def GKESpotPlacementPolicySpec_DeepCopyInto_def copiers covers_def)

lemma GKESpotPlacementPolicyStatus_copier [copiers]: "lib_laws L \<Longrightarrow> copier (GKESpotPlacementPolicyStatus_T L) (GKESpotPlacementPolicyStatus_DeepCopyInto L)"
  by (simp add: GKESpotPlacementPolicyStatus_T_def GKESpotPlacementPolicyStatus_DeepCopyInto_def copiers covers_def)

lemma GKESpotPlacementPolicy_copier [copiers]: "lib_laws L \<Longrightarrow> copier (GKESpotPlacementPolicy_T L) (GKESpotPlacementPolicy_DeepCopyInto L)"
  by (simp add: GKESpotPlacementPolicy_T_def GKESpotPlacementPolicy_DeepCopyInto_def copiers covers_def)

lemma GKESpotPlacementPolicyList_copier [copiers]: "lib_laws L \<Longrightarrow> copier (GKESpotPlacementPolicyList_T L) (GKESpotPlacementPolicyList_DeepCopyInto L)"
  by (simp add: GKESpotPlacementPolicyList_T_def GKESpotPlacementPolicyList_DeepCopyInto_def copiers covers_def)

lemma InfrastructureProfileReference_flat [simp]: "flat InfrastructureProfileReference_T"
  by (simp add: InfrastructureProfileReference_T_def)

lemma InfrastructureProfileReference_copier [copiers]: "copier InfrastructureProfileReference_T InfrastructureProfileReference_DeepCopyInto"
  by (simp add: InfrastructureProfileReference_T_def InfrastructureProfileReference_DeepCopyInto_def copiers covers_def)

lemma PluginConstraint_copier [copiers]: "lib_laws L \<Longrightarrow> copier (PluginConstraint_T L) (PluginConstraint_DeepCopyInto L)"
  by (simp add: PluginConstraint_T_def PluginConstraint_DeepCopyInto_def copiers covers_def)

lemma PluginConstraints_copier [copiers]: "lib_laws L \<Longrightarrow> copier (PluginConstraints_T L) (PluginConstraints_DeepCopyInto L)"
  by (simp add: PluginConstraints_T_def PluginConstraints_DeepCopyInto_def copiers covers_def)

lemma WorkloadClassGuardrailSpec_copier [copiers]: "lib_laws L \<Longrightarrow> copier (WorkloadClassGuardrailSpec_T L) (WorkloadClassGuardrailSpec_DeepCopyInto L)"
  by (simp add: WorkloadClassGuardrailSpec_T_def WorkloadClassGuardrailSpec_DeepCopyInto_def copiers covers_def)

lemma WorkloadClassGuardrailStatus_copier [copiers]: "lib_laws L \<Longrightarrow> copier (WorkloadClassGuardrailStatus_T L) (WorkloadClassGuardrailStatus_DeepCopyInto L)"
  by (simp add: WorkloadClassGuardrailStatus_T_def WorkloadClassGuardrailStatus_DeepCopyInto_def copiers covers_def)

lemma WorkloadClassGuardrail_copier [copiers]: "lib_laws L \<Longrightarrow> copier (WorkloadClassGuardrail_T L) (WorkloadClassGuardrail_DeepCopyInto L)"
  by (simp add: WorkloadClassGuardrail_T_def WorkloadClassGuardrail_DeepCopyInto_def copiers covers_def)

lemma WorkloadClassGuardrailList_copier [copiers]: "lib_laws L \<Longrightarrow> copier (WorkloadClassGuardrailList_T L) (WorkloadClassGuardrailList_DeepCopyInto L)"
  by (simp add: WorkloadClassGuardrailList_T_def WorkloadClassGuardrailList_DeepCopyInto_def copiers covers_def)

lemma WorkloadClassSpec_copier [copiers]: "lib_laws L \<Longrightarrow> copier (WorkloadClassSpec_T L) (WorkloadClassSpec_DeepCopyInto L)"
  by (simp add: WorkloadClassSpec_T_def WorkloadClassSpec_DeepCopyInto_def copiers covers_def)

lemma WorkloadClassStatus_copier [copiers]: "lib_laws L \<Longrightarrow> copier (WorkloadClassStatus_T L) (WorkloadClassStatus_DeepCopyInto L)"
  by (simp add: WorkloadClassStatus_T_def WorkloadClassStatus_DeepCopyInto_def copiers covers_def)

lemma WorkloadClass_copier [copiers]: "lib_laws L \<Longrightarrow> copier (WorkloadClass_T L) (WorkloadClass_DeepCopyInto L)"
  by (simp add: WorkloadClass_T_def WorkloadClass_DeepCopyInto_def copiers covers_def)

lemma WorkloadClassList_copier [copiers]: "lib_laws L \<Longrightarrow> copier (WorkloadClassList_T L) (WorkloadClassList_DeepCopyInto L)"
  by (simp add: WorkloadClassList_T_def WorkloadClassList_DeepCopyInto_def copiers covers_def)

definition generated :: "library \<Rightarrow> (gtype \<times> copy_fun) list" where
  "generated L =
     [(CapacityStrategy_T, CapacityStrategy_DeepCopy),
      (Disruption_T, Disruption_DeepCopy),
      (Constraints_T, Constraints_DeepCopy),
      (DisruptionWindow_T, DisruptionWindow_DeepCopy),
      (Subject_T, Subject_DeepCopy),
      (DisruptionPolicy_T, DisruptionPolicy_DeepCopy),
      (GKESpotFallbackConstraints_T L, GKESpotFallbackConstraints_DeepCopy L),
      (GKESpotReversionConstraints_T L, GKESpotReversionConstraints_DeepCopy L),
      (GKESpotGuardrailParameters_T L, GKESpotGuardrailParameters_DeepCopy L),
      (SpotReversionPolicy_T L, SpotReversionPolicy_DeepCopy L),
      (GKESpotPlacementPolicySpec_T L, GKESpotPlacementPolicySpec_DeepCopy L),
      (GKESpotPlacementPolicyStatus_T L, GKESpotPlacementPolicyStatus_DeepCopy L),
      (GKESpotPlacementPolicy_T L, GKESpotPlacementPolicy_DeepCopy L),
      (GKESpotPlacementPolicyList_T L, GKESpotPlacementPolicyList_DeepCopy L),
      (InfrastructureProfileReference_T, InfrastructureProfileReference_DeepCopy),
      (PluginConstraint_T L, PluginConstraint_DeepCopy L),
      (PluginConstraints_T L, PluginConstraints_DeepCopy L),
      (WorkloadClassGuardrailSpec_T L, WorkloadClassGuardrailSpec_DeepCopy L),
      (WorkloadClassGuardrailStatus_T L, WorkloadClassGuardrailStatus_DeepCopy L),
      (WorkloadClassGuardrail_T L, WorkloadClassGuardrail_DeepCopy L),
      (WorkloadClassGuardrailList_T L, WorkloadClassGuardrailList_DeepCopy L),
      (WorkloadClassSpec_T L, WorkloadClassSpec_DeepCopy L),
      (WorkloadClassStatus_T L, WorkloadClassStatus_DeepCopy L),
      (WorkloadClass_T L, WorkloadClass_DeepCopy L),
      (WorkloadClassList_T L, WorkloadClassList_DeepCopy L)]"

lemma generated_copies:
  assumes "lib_laws L" "(ty, copy) \<in> set (generated L)"
  shows "copier (PtrT ty) copy"
proof -
  have "list_all (\<lambda>(ty, copy). copier (PtrT ty) copy) (generated L)"
    by (simp add: generated_def copiers assms(1) CapacityStrategy_DeepCopy_def Disruption_DeepCopy_def Constraints_DeepCopy_def DisruptionWindow_DeepCopy_def
      Subject_DeepCopy_def DisruptionPolicy_DeepCopy_def GKESpotFallbackConstraints_DeepCopy_def GKESpotReversionConstraints_DeepCopy_def
      GKESpotGuardrailParameters_DeepCopy_def SpotReversionPolicy_DeepCopy_def GKESpotPlacementPolicySpec_DeepCopy_def GKESpotPlacementPolicyStatus_DeepCopy_def
      GKESpotPlacementPolicy_DeepCopy_def GKESpotPlacementPolicyList_DeepCopy_def InfrastructureProfileReference_DeepCopy_def PluginConstraint_DeepCopy_def
      PluginConstraints_DeepCopy_def WorkloadClassGuardrailSpec_DeepCopy_def WorkloadClassGuardrailStatus_DeepCopy_def WorkloadClassGuardrail_DeepCopy_def
      WorkloadClassGuardrailList_DeepCopy_def WorkloadClassSpec_DeepCopy_def WorkloadClassStatus_DeepCopy_def WorkloadClass_DeepCopy_def
      WorkloadClassList_DeepCopy_def)
  then show ?thesis using assms(2) by (auto simp: list_all_iff)
qed

text \<open>C39: A deep copy shares nothing with its original. For every type of the API, \<open>DeepCopy\<close> of a pointer to a
  well-typed value returns a pointer to the same value (nil for nil) and leaves all memory that was in
  use unchanged; afterwards no write to memory allocated by the copy or later changes the original, and no
  write to memory that existed before changes the copy.\<close>

theorem DeepCopy_isolated:
  assumes "lib_laws L" "(ty, copy) \<in> set (generated L)"
    and "mem_ok m" "holds 0 m (PtrT ty) p t" "copy p m = (p', m')"
  shows "holds 0 m' (PtrT ty) p' t \<and> extends m m' \<and>
    (\<forall>w. (\<forall>a < limit m. cells w a = cells m a) \<longrightarrow> holds 0 w (PtrT ty) p t) \<and>
    (\<forall>w. (\<forall>a \<ge> limit m. cells w a = cells m' a) \<longrightarrow> holds 0 w (PtrT ty) p' t)"
proof -
  have copy: "extends m m'" "holds (limit m) m' (PtrT ty) p' t"
    using copierD [OF generated_copies [OF assms(1,2)] assms(3-5)] by simp_all
  have "holds 0 w (PtrT ty) p t" if "\<forall>a < limit m. cells w a = cells m a" for w
    using that assms(3) by (intro holds_agree [OF assms(4)]) (auto simp: mem_ok_def)
  moreover have "holds 0 w (PtrT ty) p' t" if "\<forall>a \<ge> limit m. cells w a = cells m' a" for w
    using that by (intro holds_agree [OF copy(2)]) auto
  ultimately show ?thesis using copy holds_weaken by blast
qed

definition plain_library :: library where
  "plain_library = \<lparr>type_meta_T = AtomT, object_meta_T = AtomT, list_meta_T = AtomT, condition_T = AtomT,
     label_selector_T = SliceT AtomT, json_T = SliceT AtomT, int_or_string_T = AtomT, duration_T = AtomT, time_T = AtomT,
     copy_object_meta = assign, copy_list_meta = assign, copy_condition = assign, copy_label_selector = copy_slice assign,
     copy_json = copy_slice assign, copy_time = copy_ptr assign\<rparr>"

lemma lib_laws_plain: "lib_laws plain_library"
  by (simp add: lib_laws_def plain_library_def copiers)

definition limits_value :: gval where
  "limits_value = Struct (\<lambda>n. if n = ''DaysOfWeek'' then Slice 0 else Atom ''1'')"

definition limits_memory :: memory where
  "limits_memory = \<lparr>cells = [0 \<mapsto> [Atom ''Monday''], 1 \<mapsto> [limits_value]], limit = 2\<rparr>"

definition limits_tree :: tree where
  "limits_tree = TPtr (TStruct (\<lambda>n. if n = ''DaysOfWeek'' then TSlice [TAtom ''Monday''] else TAtom ''1''))"

lemma limits_read: "holds 0 limits_memory (PtrT Disruption_T) (Ptr 1) limits_tree"
  unfolding limits_tree_def Disruption_T_def
  by (auto simp: limits_memory_def limits_value_def intro!: holds.ptr holds.struct holds.slice)

lemma DeepCopy_isolated_witness:
  "let (p', m') = Disruption_DeepCopy (Ptr 1) limits_memory
   in holds 0 (m'\<lparr>cells := (cells m')(0 \<mapsto> [Atom ''Sunday''])\<rparr>) (PtrT Disruption_T) p' limits_tree"
proof -
  obtain p' m' where copy: "Disruption_DeepCopy (Ptr 1) limits_memory = (p', m')"
    by (cases "Disruption_DeepCopy (Ptr 1) limits_memory")
  have entry: "(Disruption_T, Disruption_DeepCopy) \<in> set (generated plain_library)" by (simp add: generated_def)
  have ok: "mem_ok limits_memory" by (simp add: mem_ok_def limits_memory_def)
  show ?thesis
    using DeepCopy_isolated [OF lib_laws_plain entry ok limits_read copy] copy by (simp add: limits_memory_def)
qed

end
