(* ===== verification/Spec2Isabelle.thy ===== *)
theory Spec2Isabelle
  imports Pod_Placement Manager Lease_Requests Wc_Status Test_Utils Deep_Copy
begin

text \<open>
  A verification development for the WorkloadClass controller: the Go program that expresses how
  workloads may be disrupted and placed on Spot capacity as Kubernetes resources, webhooks and
  controllers. This root theory imports the model and holds the properties that span webhooks and
  controllers.

  \<^bold>\<open>The program.\<close> One process (\<open>cmd/main.go\<close>) runs four reconcilers and three admission webhooks over the
  state of the cluster. A WorkloadClass selects Pods and says when they may be disrupted and where they
  run; WorkloadClassGuardrails limit what WorkloadClasses may say; a GKESpotPlacementPolicy refines
  placement. The WorkloadClass controller validates each class, computes whether it is ready for
  maintenance, and keeps one PodDisruptionBudget per governed Pod. The disruption webhook decides on
  evictions; for subjects that may evict outside the windows it queues a lease in an in-memory tracker,
  which the controller drains and grants by annotating and opening the Pod's PDB. The Pod webhook
  places new Pods on Spot or on demand by ratio and budget; the placement controller maintains the
  InFallback condition and evicts fallback Pods once Spot capacity is back.

  \<^bold>\<open>Theories.\<close> Definitions carry the names of the source.
  \<^item> \<open>Prelude\<close>: Go durations, times, errors, strings, decimal numbers; \<open>int64\<close> arithmetic reduced by \<open>i64\<close>.
  \<^item> \<open>Api_Types\<close>: the types and constants of \<open>api/v1\<close>, the Kubernetes objects, and the parameters \<open>env\<close>
    and \<open>client\<close>.
  \<^item> \<open>Utils_Basic\<close>, \<open>Selector\<close>, \<open>Guardrail\<close>, \<open>Gke_Guardrail\<close>, \<open>Temporal\<close>, \<open>Best_Match\<close>, \<open>Pdb\<close>,
    \<open>Lease_Tracker\<close>: the files of \<open>internal/utils\<close>.
  \<^item> \<open>Disruption_Webhook\<close>, \<open>Pod_Placement\<close>: \<open>internal/webhook\<close>; the guardrail webhook is in
    \<open>Guardrail_Controller\<close> beside the reconciler it has to agree with.
  \<^item> \<open>Wc_Validation\<close>, \<open>Wc_Readiness\<close>, \<open>Wc_Pdbs\<close>, \<open>Wc_Controller\<close>: \<open>workloadclass_controller.go\<close>.
  \<^item> \<open>Controller_Common\<close>, \<open>Guardrail_Controller\<close>, \<open>Spot_Policy\<close>, \<open>Spot_Fallback\<close>, \<open>Spot_Reversion\<close>: the other
    controllers (\<open>Spot_Reversion\<close> holds \<open>spot_capacity.go\<close>, \<open>spot_reversion.go\<close> and
    \<open>gkespotplacement_controller.go\<close>).
  \<^item> \<open>Watches\<close>: every event predicate and the four \<open>SetupWithManager\<close>. \<open>Manager\<close>: \<open>cmd/main.go\<close>.
    \<open>Test_Utils\<close>: \<open>test/utils/utils.go\<close>, the helpers of the end-to-end tests. \<open>Go_Memory\<close>, \<open>Deep_Copy\<close>: the
    generated deep copies of \<open>api/v1\<close>, over a store with addresses.
  \<^item> \<open>Pdb_Runs\<close>: a run of the WorkloadClass reconciler as a sequence of steps on single PDBs (\<open>pdb_step\<close>,
    \<open>pdb_run\<close>), and what every such step keeps. \<open>Lease_System\<close>: an abstract lock per Pod, the proof that the
    reconciler refines it, and the system of webhook, reconciler and clock (\<open>system_step\<close>).
    \<open>Lease_Requests\<close>: what that system does with a request until it is granted. \<open>Wc_Status\<close>: the
    status a successful run leaves behind. \<open>Status_Writer\<close>: the contract of the two controllers that write
    a condition with a retry on conflicts. These theories add no code of the program.
  \<^item> \<open>Reference_Env\<close>, \<open>Reference_Client\<close>: concrete instances of the parameters, used only to show that
    theorems with hypotheses apply.

  \<^bold>\<open>State and effects.\<close> The cluster is an abstract state \<open>'s\<close>; a \<open>'s client\<close> is a record of the API calls
  the code makes, reads returning an error or an object and writes an optional error and the next
  state, so every early return and every partial failure is a branch of the model. The lease tracker
  is a record; each section under its mutex is one function, its channel a list with a capacity. Each
  handler takes one clock reading \<open>now\<close>, where the code may read the clock more than once. Values are
  immutable; that a deep copy of an object shares nothing with it is shown in \<open>Deep_Copy\<close>, the one part
  with an explicit memory. Go maps that
  are iterated are association lists, or the result is a set. \<open>env\<close> and \<open>client\<close> stand for code outside the
  repository. A theorem that depends on them says so by a named law (\<open>selector_laws\<close>, \<open>condition_laws\<close>,
  \<open>owner_laws\<close>, \<open>expiration_law\<close>, \<open>pdb_store_laws\<close>, \<open>status_store_laws\<close>, \<open>retry_law\<close>, \<open>evict_law\<close>, \<open>sem_laws\<close>,
  \<open>runtime_law\<close>, \<open>fixed_zones\<close>, \<open>pdb_server_laws\<close>, \<open>pdb_writes_keep_wcs\<close>, \<open>lib_laws\<close>), which states documented
  behaviour and is proved for the reference instances.

  \<^bold>\<open>What is shown.\<close>
  \<^item> Leases: a granted lease is a lock with one holder until its expiry (\<open>Pdb\<close>); what the controller does
    with a Pod is a function of that lock and the pending request, a request on a free PDB is granted,
    an active lease is never touched (\<open>Wc_Pdbs\<close>); no wake-up is lost in any interleaving of webhook and
    controller (\<open>Lease_Tracker\<close>, an inductive step relation with its invariant); no error of the
    reconciler loses a request (\<open>Wc_Controller\<close>); every run of the reconciler is a run of the abstract
    lock (\<open>Lease_System\<close>); an eviction request of an allowed subject waits, whatever happens meanwhile, and
    is granted by the next run that finds the lock free (\<open>Lease_Requests\<close>);
    PDBs stay well typed and PDBs of users are never touched (\<open>Pdb_Runs\<close>); a lease lasts until it expires in every
    interleaving of webhook, reconcilers and clock (\<open>lease_lasts\<close>, below).
  \<^item> Eviction: the webhook denies exactly what the policy forbids (\<open>Disruption_Webhook\<close>); the disruption
    windows mean what the API says, with time zones and windows past midnight, and the wait reported
    outside them is bounded (\<open>Temporal\<close>); readiness follows from windows, Pod ages and grace periods.
  \<^item> Governance: the selector overlap test is exact (\<open>Selector\<close>); webhooks and controllers resolve the same
    class, the most specific and oldest (\<open>Best_Match\<close>); no Pod update that matters goes unnoticed
    (\<open>Watches\<close>).
  \<^item> Validation: the effective guardrail is equivalent to all guardrails taken one by one, capacity limits
    combine to the strictest, the guardrail webhook and reconciler agree, a policy is attached exactly
    when it obeys every guardrail, and the status reaches a fixed point and is true of the cluster
    (\<open>Wc_Status\<close>); plugin controller, reconciler and placement webhook together admit a WorkloadClass to
    placement exactly when it and its policy obey the guardrails (\<open>placement_gate_opens\<close>, below).
  \<^item> Placement: the mutations of the Pod webhook are characterised by the nodes a Pod can be scheduled on;
    the ratio rule converges to its share; fallback budgets are respected; the webhook fails open,
    going by the strategy alone when it cannot count the workload's Pods; the
    InFallback condition says what it stands for, and reversion evicts only fallback Pods: those
    past the guardrails' maximum, and others only while the Spot share is short, counting all evictions.

  Contracts between components are locales, each interpreted on the model: the ratio rule
  (\<open>Utils_Basic\<close>), the selection rule (\<open>Best_Match\<close>), the lease store (\<open>Lease_Tracker\<close>), the event
  filters (\<open>Watches\<close>) and the status writers (\<open>Status_Writer\<close>, interpreted in \<open>Spot_Fallback\<close> and
  \<open>Spot_Policy\<close>). Lemmas beside the properties record where the code departs from its
  documentation: \<open>overdue_unset\<close>, \<open>days_duration_overflow\<close>, \<open>window_start_missed\<close>, \<open>wait_misses_next_day\<close>,
  \<open>empty_term_widens\<close>, \<open>unreadable_ratio_keeps_fallback\<close>, \<open>getPodForPDB_misses_trimmed\<close>, \<open>required_zero_satisfiable\<close>, \<open>relabelling_unnoticed\<close>,
  \<open>uncommented_loses_newline\<close>, \<open>uncommented_loses_long_line\<close>.

  \<^bold>\<open>Bounds.\<close> No fuel is used: every loop of the code is over a finite list and is structural recursion
  here, and every definition is total. Where 64-bit arithmetic could wrap, theorems give the range in
  which it does not (Pod counts below \<open>2 ^ 50\<close>, at most 106751 days); outside of it the definitions
  wrap as the code does.

  \<^bold>\<open>Not modelled.\<close> Scheme registration, log lines, recorded events except for the message of the ambiguity warning, and
  the running servers. Concurrent changes of the
  cluster during a handler are not interleaved; conflicts appear as errors of the client.
\<close>

subsection \<open>Webhook and controller together\<close>

text \<open>The lease protocol works end to end. Once the controller has granted the request of a subject
  on a Pod, the webhook lets evictions of the Pod by that subject through and denies those of every
  other allowed subject until the lease expires; after that it denies none of them on account of
  the lease.\<close>

theorem lease_protocol:
  assumes "pdb_store_laws C" "expiration_law E" "owner_laws E"
    and "map_get (pod_labels p) PodUIDLabel = pod_uid p" "wanted_lease leases p = Some sub" "lease_free E C now p s"
    and "reconcilePodPDB E C now wc p leases s = (Inr d, s')"
    and "0 \<le> now + LeaseDurationForPod (Some p)" "now + LeaseDurationForPod (Some p) < end_of_years"
    and "req_sub_resource req = ''eviction''" "get_pod C s' (req_namespace req) (req_name req) = Inr p"
    and "FindBestMatchWorkloadClass E C s' True (Some p) = Inr (Some governor, event)"
    and "\<not> failed_guardrails E governor" "\<not> dp_emergency (wc_policy governor)"
    and "matching_subjects req (dp_allowed_outside (wc_policy governor)) = subs" "subs \<noteq> []"
    and "list_all valid_subject (sub # subs)"
  shows "is_denied (fst (Handle E C s' t req tr)) \<longleftrightarrow>
    t < lease_expiry now p \<and> sub \<notin> set subs"
proof -
  obtain b where b: "get_pdb C s' (pod_namespace p) (PDBName E (pod_name p)) = Inr b"
    "IsWorkloadClassManagedPDB E (Some b)"
    "\<forall>t. lease_holder E t b p =
      (if t < lease_expiry now p then Some (BypassOwnerValue sub) else None)"
    using reconcilePodPDB_granted [OF assms(1-9)] by blast
  have "BypassOwnerValue sub \<in> BypassOwnerValue ` set subs \<longleftrightarrow> sub \<in> set subs"
    using assms(17) BypassOwnerValue_inj by (auto simp: list_all_iff)
  then have "lease_blocks E C s' t p subs \<longleftrightarrow>
      t < lease_expiry now p \<and> sub \<notin> set subs"
    using b by (simp add: lease_blocks_def)
  then show ?thesis
    using assms(10-16) by (simp add: Handle_denied_governed)
qed

definition eve :: subject where
  "eve = \<lparr>sub_kind = ''User'', sub_name = ''eve'', sub_namespace = ''''\<rparr>"

definition duo_wc :: workload_class where
  "duo_wc = sample_wc\<lparr>wc_spec := sample_spec\<lparr>ws_policy := sample_policy\<lparr>dp_allowed_outside := [sample_subject, eve]\<rparr>\<rparr>\<rparr>"

definition duo_cluster :: "pdb list \<Rightarrow> cluster" where
  "duo_cluster bs = sample_cluster\<lparr>k_wcs := [duo_wc], k_pods := [labelled_pod], k_pdbs := bs\<rparr>"

lemma duo_governs:
  "\<exists>event. FindBestMatchWorkloadClass ref_env ref_client (duo_cluster bs) recorder (Some labelled_pod) = Inr (Some duo_wc, event)"
proof -
  have labels: "selector_matches sample_selector (pod_labels labelled_pod)"
    by (simp add: selector_matches_def sample_selector_def labelled_pod_def with_uid_label_def sample_pod_def)
  have "wc_selector duo_wc = wc_selector sample_wc" "wc_namespace duo_wc = ''prod''" "wc_deletion duo_wc = None"
    by (simp_all add: duo_wc_def sample_wc_def sample_spec_def)
  then have "eligible ref_env labelled_pod duo_wc"
    using labels sample_selects by (simp add: eligible_def)
  then have "ms_best (selectBestMatchFromList ref_env labelled_pod [duo_wc]) = Some duo_wc"
    by (simp add: selectBest_fold)
  moreover have "list_wcs ref_client (duo_cluster bs) ''prod'' = Inr [duo_wc]"
    by (simp add: duo_cluster_def duo_wc_def sample_wc_def)
  moreover have "NamespaceEnforcedWorkloadClass ref_client (duo_cluster bs) ''prod'' = Inr None"
    by (simp add: NamespaceEnforcedWorkloadClass_def duo_cluster_def sample_cluster_def)
  ultimately show ?thesis
    by (simp add: FindBestMatchWorkloadClass_def Let_def)
qed

lemma duo_grant:
  "\<exists>b. reconcilePodPDB ref_env ref_client 5 sample_wc labelled_pod sample_leases (duo_cluster []) = (Inr 30000000000, duo_cluster [b])"
proof -
  have "claimPDB ref_env sample_wc (PDBBase ref_env (Some labelled_pod)) =
      Inr ((PDBBase ref_env (Some labelled_pod))\<lparr>pdb_owners := [sample_owner]\<rparr>)"
    by (simp add: claimPDB_def PDBBase_def empty_pdb_def ref_controller_def ref_set_controller_def sample_owner_def
        sample_wc_def)
  then obtain b where "lease_mutate ref_env 5 sample_wc labelled_pod sample_subject (PDBBase ref_env (Some labelled_pod)) = Inr b"
    by (simp add: lease_mutate_def PDBWithLease_def Let_def)
  then have "leasePodPDB ref_env ref_client 5 sample_wc labelled_pod sample_subject (duo_cluster []) =
      (None, duo_cluster [b\<lparr>pdb_version := ''1''\<rparr>])"
    by (simp add: leasePodPDB_def ref_upsert_def duo_cluster_def)
  then show ?thesis
    by (auto simp: reconcilePodPDB_def ensurePodUIDLabel_done choose_action_cases sample_leases_wanted duo_cluster_def)
qed

lemma lease_protocol_witness:
  "\<exists>b. reconcilePodPDB ref_env ref_client 5 sample_wc labelled_pod sample_leases (duo_cluster []) = (Inr 30000000000, duo_cluster [b]) \<and>
     \<not> is_denied (fst (Handle ref_env ref_client (duo_cluster [b]) 9 sample_request None)) \<and>
     is_denied (fst (Handle ref_env ref_client (duo_cluster [b]) 9 (sample_request\<lparr>req_username := ''eve''\<rparr>) None)) \<and>
     \<not> is_denied (fst (Handle ref_env ref_client (duo_cluster [b]) 30000000005 (sample_request\<lparr>req_username := ''eve''\<rparr>) None))"
proof -
  obtain b where b: "reconcilePodPDB ref_env ref_client 5 sample_wc labelled_pod sample_leases (duo_cluster []) = (Inr 30000000000, duo_cluster [b])"
    using duo_grant by blast
  obtain event where event: "FindBestMatchWorkloadClass ref_env ref_client (duo_cluster [b]) True (Some labelled_pod) = Inr (Some duo_wc, event)"
    using duo_governs by blast
  have free: "lease_free ref_env ref_client 5 labelled_pod (duo_cluster [])"
    by (simp add: lease_free_def duo_cluster_def)
  have expiry: "lease_expiry 5 labelled_pod = 30000000005"
    by (simp add: lease_expiry_def second_def)
  have active: "\<not> failed_guardrails ref_env duo_wc" "\<not> dp_emergency (wc_policy duo_wc)"
    by (simp_all add: failed_guardrails_def duo_wc_def samples ref_find_def)
  have subs: "matching_subjects sample_request (dp_allowed_outside (wc_policy duo_wc)) = [sample_subject]"
      "matching_subjects (sample_request\<lparr>req_username := ''eve''\<rparr>) (dp_allowed_outside (wc_policy duo_wc)) = [eve]"
    by (simp_all add: matching_subjects_def matchesIdentity_def matchesUserKind_def duo_wc_def sample_subject_def eve_def sample_request_def)
  have valid: "valid_subject sample_subject" "valid_subject eve" "sample_subject \<noteq> eve"
    by (simp_all add: valid_subject_def sample_subject_def eve_def)
  have pod: "get_pod ref_client (duo_cluster [b]) ''prod'' ''web-0'' = Inr labelled_pod"
    by (simp add: duo_cluster_def)
  have protocol: "is_denied (fst (Handle ref_env ref_client (duo_cluster [b]) t req None)) \<longleftrightarrow> t < 30000000005 \<and> sample_subject \<notin> set xs"
    if "req_sub_resource req = ''eviction''" "req_namespace req = ''prod''" "req_name req = ''web-0''"
      "matching_subjects req (dp_allowed_outside (wc_policy duo_wc)) = xs" "xs \<noteq> []" "list_all valid_subject xs" for t req xs
    using lease_protocol [OF pdb_store_laws_ref expiration_law_ref_env owner_laws_ref_env _ sample_leases_wanted free b _ _
        that(1) _ event active that(4,5), of t None] that pod expiry valid(1)
    by (simp add: end_of_years_def second_def)
  show ?thesis
    using b protocol [of sample_request "[sample_subject]" 9] protocol [of "sample_request\<lparr>req_username := ''eve''\<rparr>" "[eve]" 9]
      protocol [of "sample_request\<lparr>req_username := ''eve''\<rparr>" "[eve]" 30000000005] subs valid
    by (auto simp: sample_request_def)
qed

text \<open>C1: A lease lasts until it expires. From a state in which a subject holds the lease of a Pod, let the
  system run: time passes, eviction requests come in, the cluster changes elsewhere, and the reconciler
  runs for any WorkloadClass that protects its Pods and either governs this instance of the Pod or does
  not control its PDB. As long as the lease has not expired, its PDB is unchanged, and an eviction of
  the Pod by an allowed subject is denied exactly if the subject is not the holder.\<close>

theorem lease_lasts:
  assumes "pdb_server_laws C" "system_run E C p \<sigma> \<sigma>'"
    and "get_pdb C (sy_cluster \<sigma>) (pod_namespace p) (PDBName E (pod_name p)) = Inr b" "IsWorkloadClassManagedPDB E (Some b)"
    and "lease_holder E (sy_now \<sigma>') b p = Some (BypassOwnerValue sub)"
    and "req_sub_resource req = ''eviction''" "get_pod C (sy_cluster \<sigma>') (req_namespace req) (req_name req) = Inr q"
    and "pod_namespace q = pod_namespace p" "pod_name q = pod_name p" "pod_uid q = pod_uid p"
    and "FindBestMatchWorkloadClass E C (sy_cluster \<sigma>') True (Some q) = Inr (Some governor, event)"
    and "\<not> failed_guardrails E governor" "\<not> dp_emergency (wc_policy governor)"
    and "matching_subjects req (dp_allowed_outside (wc_policy governor)) = subs" "subs \<noteq> []"
    and "list_all valid_subject (sub # subs)"
  shows "get_pdb C (sy_cluster \<sigma>') (pod_namespace p) (PDBName E (pod_name p)) = Inr b \<and>
    (is_denied (fst (Handle E C (sy_cluster \<sigma>') (sy_now \<sigma>') req (sy_tracker \<sigma>'))) \<longleftrightarrow> sub \<notin> set subs)"
proof -
  have pdb: "get_pdb C (sy_cluster \<sigma>') (pod_namespace p) (PDBName E (pod_name p)) = Inr b"
    using held_lease_lasts [OF assms(1-3,5)] .
  have "BypassOwnerValue sub \<in> BypassOwnerValue ` set subs \<longleftrightarrow> sub \<in> set subs"
    using assms(16) BypassOwnerValue_inj by (auto simp: list_all_iff)
  then have "lease_blocks E C (sy_cluster \<sigma>') (sy_now \<sigma>') q subs \<longleftrightarrow> sub \<notin> set subs"
    using pdb assms(4,5,8,9) lease_holder_uid [OF assms(10)] by (simp add: lease_blocks_def)
  then show ?thesis
    using pdb Handle_denied_governed [OF assms(6,7,11-15)] by simp
qed

definition held_pdb :: pdb where
  "held_pdb = sample_pdb\<lparr>pdb_annotations := [BypassOwner \<mapsto> ''user:ops'', BypassExpiration \<mapsto> ''9'']\<rparr>"

definition eve_request :: request where
  "eve_request = sample_request\<lparr>req_username := ''eve''\<rparr>"

definition eve_governed :: "cluster \<Rightarrow> bool" where
  "eve_governed s =
     (case get_pod ref_client s ''prod'' ''web-0'' of Inl e \<Rightarrow> False
      | Inr q \<Rightarrow> pod_namespace q = ''prod'' \<and> pod_name q = ''web-0'' \<and> pod_uid q = ''p1'' \<and>
          (case FindBestMatchWorkloadClass ref_env ref_client s True (Some q) of Inl e \<Rightarrow> False
           | Inr (best, event) \<Rightarrow> (case best of None \<Rightarrow> False
               | Some w \<Rightarrow> \<not> failed_guardrails ref_env w \<and> \<not> dp_emergency (wc_policy w) \<and>
                   matching_subjects eve_request (dp_allowed_outside (wc_policy w)) = [eve])))"

lemma eve_governedE:
  assumes "eve_governed s"
  obtains q w event where "get_pod ref_client s ''prod'' ''web-0'' = Inr q" "pod_namespace q = ''prod''" "pod_name q = ''web-0''"
    "pod_uid q = ''p1''" "FindBestMatchWorkloadClass ref_env ref_client s True (Some q) = Inr (Some w, event)"
    "\<not> failed_guardrails ref_env w" "\<not> dp_emergency (wc_policy w)"
    "matching_subjects eve_request (dp_allowed_outside (wc_policy w)) = [eve]"
proof (cases "get_pod ref_client s ''prod'' ''web-0''")
  case (Inr q)
  then show thesis
    using assms that unfolding eve_governed_def
    by (cases "FindBestMatchWorkloadClass ref_env ref_client s True (Some q)") (auto split: option.splits prod.splits)
qed (use assms in \<open>simp add: eve_governed_def\<close>)

lemma held_spared: "spares ref_env ref_client 7000000000 (''prod'', ''web'') (duo_cluster [held_pdb]) labelled_pod"
  by code_simp

lemma held_reconciled:
  "eve_governed (fst (snd (Reconcile_WorkloadClass ref_env ref_client 7000000000 (''prod'', ''web'') (duo_cluster [held_pdb]) None)))"
  by code_simp

lemma held_by_ops: "lease_holder ref_env 8000000000 held_pdb labelled_pod = Some (BypassOwnerValue sample_subject)"
  by code_simp

lemma lease_lasts_witness:
  "let (r, s', tr') = Reconcile_WorkloadClass ref_env ref_client 7000000000 (''prod'', ''web'') (duo_cluster [held_pdb]) None
   in is_denied (fst (Handle ref_env ref_client s' 8000000000 eve_request tr'))"
proof -
  let ?s = "duo_cluster [held_pdb]"
  obtain r s' tr' where rec: "Reconcile_WorkloadClass ref_env ref_client 7000000000 (''prod'', ''web'') ?s None = (r, s', tr')"
    by (metis prod_cases3)
  let ?at = "\<lambda>s tr t. \<lparr>sy_cluster = s, sy_tracker = tr, sy_now = t\<rparr>"
  have "system_step ref_env ref_client labelled_pod (?at ?s None 7000000000) (?at s' tr' 7000000000)"
    using system_step.reconcile [of ref_env ref_client "?at ?s None 7000000000" "(''prod'', ''web'')" labelled_pod r s' tr']
      held_spared rec by simp
  moreover have "system_step ref_env ref_client labelled_pod (?at s' tr' 7000000000) (?at s' tr' 8000000000)"
    using system_step.time [of "?at s' tr' 7000000000" 8000000000] by simp
  moreover have "system_step ref_env ref_client labelled_pod (?at ?s None 5) (?at ?s None 7000000000)"
    using system_step.time [of "?at ?s None 5" 7000000000] by simp
  ultimately have run: "system_run ref_env ref_client labelled_pod (?at ?s None 5) (?at s' tr' 8000000000)"
    by (blast intro: system_run.intros)
  have pdb: "get_pdb ref_client ?s (pod_namespace labelled_pod) (PDBName ref_env (pod_name labelled_pod)) = Inr held_pdb"
    by (simp add: duo_cluster_def held_pdb_def sample_pdb_def PDBBase_def empty_pdb_def sample_pod_def)
  have managed: "IsWorkloadClassManagedPDB ref_env (Some held_pdb)"
    using sample_pdb_managed by (simp add: held_pdb_def IsWorkloadClassManagedPDB_def)
  have valid: "list_all valid_subject [sample_subject, eve]" "sample_subject \<noteq> eve"
    by (simp_all add: valid_subject_def sample_subject_def eve_def)
  obtain q w event where q: "get_pod ref_client s' ''prod'' ''web-0'' = Inr q" "pod_namespace q = ''prod''" "pod_name q = ''web-0''"
    "pod_uid q = ''p1''" "FindBestMatchWorkloadClass ref_env ref_client s' True (Some q) = Inr (Some w, event)"
    "\<not> failed_guardrails ref_env w" "\<not> dp_emergency (wc_policy w)"
    "matching_subjects eve_request (dp_allowed_outside (wc_policy w)) = [eve]"
    using held_reconciled rec by (auto elim: eve_governedE)
  have "is_denied (fst (Handle ref_env ref_client s' 8000000000 eve_request tr'))"
    using lease_lasts [OF pdb_server_laws_ref run, of held_pdb sample_subject eve_request q w event "[eve]"]
      pdb managed held_by_ops q valid by (simp add: eve_request_def sample_request_def)
  then show ?thesis using rec by simp
qed

subsection \<open>Plugin controller, reconciler and placement webhook together\<close>

text \<open>C3: The three components that have to agree before a Pod is placed do. After the plugin controller
  reconciled a policy and the WorkloadClass reconciler then ran successfully for a WorkloadClass that
  references it, the placement webhook finds the conditions it requires on the stored WorkloadClass
  exactly when the policy existed and obeyed every gke-spot-placement guardrail and the WorkloadClass
  itself violates no guardrail.\<close>

theorem placement_gate_opens:
  assumes laws: "status_store_laws C" "condition_laws E" "retry_law C" "pdb_writes_keep_wcs C"
    and wc: "list_all_wcs C s = Inr ws" "wc \<in> set ws" "references_policy nm wc"
    and policy: "Reconcile_SpotPolicy E C now nm s = (None, s1)"
    and w: "get_wc C s1 (wc_namespace wc) (wc_name wc) = Inr w" "wc_infra w \<noteq> None"
    and class_run: "Reconcile_WorkloadClass E C now' (wc_key wc) s1 tr = (Inr requeue, s2, tr')"
  shows "\<exists>gs w'. list_guardrails C s1 = Inr gs \<and> get_wc C s2 (wc_namespace wc) (wc_name wc) = Inr w' \<and>
    (list_all (condition_ready E w') (required_conditions True) \<longleftrightarrow>
      wc_violations E w gs = [] \<and>
      (\<exists>policy gs0. get_policy C s nm = Inr policy \<and> list_guardrails C s = Inr gs0 \<and> policy_valid E gs0 policy))"
proof -
  obtain options where attach_ok: "attach_done E C options s1 (wc_key wc)"
    "so_status options = ConditionTrue \<longleftrightarrow>
      (\<exists>policy gs0. get_policy C s nm = Inr policy \<and> list_guardrails C s = Inr gs0 \<and> policy_valid E gs0 policy)"
    using Reconcile_SpotPolicy_options [OF laws(1-3) wc(1) policy wc(2,3)] by blast
  then obtain c where c: "find_status_condition E (wc_conditions w) ConditionTypePlacementPluginAttached = Some c"
    "c_observed c = wc_generation w" "c_status c = so_status options"
    using w(1) by (auto simp: attach_done_def wc_key_def same_content_def attached_condition_def)
  have plugin: "placementPluginCondition E now' w = Some c" "plugin_attached E w \<longleftrightarrow> so_status options = ConditionTrue"
    using c w(2) by (auto simp: placementPluginCondition_def plugin_attached_def Let_def)
  have found: "get_wc C s1 (fst (wc_key wc)) (snd (wc_key wc)) = Inr w" using w(1) by (simp add: wc_key_def)
  obtain gs w' v x where gs: "list_guardrails C s1 = Inr gs"
    and w': "get_wc C s2 (fst (wc_key wc)) (snd (wc_key wc)) = Inr w'" "wc_generation w' = wc_generation w"
    and v: "find_status_condition E (wc_conditions w') ConditionTypeValidated = Some v" "c_observed v = wc_generation w"
      "IsValidated (Some v) \<longleftrightarrow> wc_violations E w gs = [] \<and> plugin_attached E w"
    and x: "find_status_condition E (wc_conditions w') ConditionTypePlacementPluginAttached = Some x" "same_content x c"
    using Reconcile_status [OF laws(1,2,4) found class_run] plugin(1) by blast
  have "list_all (condition_ready E w') (required_conditions True) \<longleftrightarrow>
      IsValidated (Some v) \<and> c_status x = ConditionTrue"
    using v x w'(2) c(2) by (auto simp: required_conditions_def condition_ready_def same_content_def)
  also have "\<dots> \<longleftrightarrow> wc_violations E w gs = [] \<and> so_status options = ConditionTrue"
    using v(3) plugin(2) x(2) c(3) by (auto simp: same_content_def)
  finally show ?thesis using gs w'(1) attach_ok(2) by (simp add: wc_key_def)
qed

definition gate_run :: "cluster \<Rightarrow> bool" where
  "gate_run s =
     (let (err, s1) = Reconcile_SpotPolicy ref_env ref_client 5 ''spot'' s
      in err = None \<and>
         (case get_wc ref_client s1 ''prod'' ''web'' of Inl e \<Rightarrow> False
          | Inr w \<Rightarrow> wc_infra w \<noteq> None \<and>
              (case list_guardrails ref_client s1 of Inl e \<Rightarrow> False | Inr gs \<Rightarrow> wc_violations ref_env w gs = [])) \<and>
         (case fst (Reconcile_WorkloadClass ref_env ref_client 6 (''prod'', ''web'') s1 None) of Inl e \<Rightarrow> False | Inr d \<Rightarrow> True))"

lemma gate_run_sample: "gate_run policy_cluster"
  by code_simp

lemma gate_runE:
  assumes "gate_run s"
  obtains s1 w gs d s2 tr where "Reconcile_SpotPolicy ref_env ref_client 5 ''spot'' s = (None, s1)"
    "get_wc ref_client s1 ''prod'' ''web'' = Inr w" "wc_infra w \<noteq> None"
    "list_guardrails ref_client s1 = Inr gs" "wc_violations ref_env w gs = []"
    "Reconcile_WorkloadClass ref_env ref_client 6 (''prod'', ''web'') s1 None = (Inr d, s2, tr)"
proof -
  obtain s1 where s1: "Reconcile_SpotPolicy ref_env ref_client 5 ''spot'' s = (None, s1)"
    using assms by (auto simp: gate_run_def split: prod.splits)
  obtain r s2 tr where r: "Reconcile_WorkloadClass ref_env ref_client 6 (''prod'', ''web'') s1 None = (r, s2, tr)"
    by (metis prod_cases3)
  show thesis
    using assms that [OF s1] s1 r unfolding gate_run_def by (auto simp del: ref_client_simps split: sum.splits)
qed

lemma placement_gate_opens_witness:
  "\<exists>s1 s2 d tr w. Reconcile_SpotPolicy ref_env ref_client 5 ''spot'' policy_cluster = (None, s1) \<and>
     Reconcile_WorkloadClass ref_env ref_client 6 (''prod'', ''web'') s1 None = (Inr d, s2, tr) \<and>
     get_wc ref_client s2 ''prod'' ''web'' = Inr w \<and>
     list_all (condition_ready ref_env w) (required_conditions True)"
proof -
  obtain s1 w gs d s2 tr where run: "Reconcile_SpotPolicy ref_env ref_client 5 ''spot'' policy_cluster = (None, s1)"
    "get_wc ref_client s1 ''prod'' ''web'' = Inr w" "wc_infra w \<noteq> None"
    "list_guardrails ref_client s1 = Inr gs" "wc_violations ref_env w gs = []"
    "Reconcile_WorkloadClass ref_env ref_client 6 (''prod'', ''web'') s1 None = (Inr d, s2, tr)"
    using gate_run_sample by (rule gate_runE)
  have profile: "wc_namespace profile_wc = ''prod''" "wc_name profile_wc = ''web''" "references_policy ''spot'' profile_wc"
    by (simp_all add: profile_wc_def spot_wc_def sample_wc_def references_policy_def ReferencesGKESpotPlacementPolicy_def)
  have listed: "list_all_wcs ref_client policy_cluster = Inr [profile_wc]"
    "get_policy ref_client policy_cluster ''spot'' = Inr lazy_policy"
    "list_guardrails ref_client policy_cluster = Inr [spot_guardrail]"
    by (simp_all add: policy_cluster_fields lazy_policy_def)
  show ?thesis
    using placement_gate_opens [OF status_store_laws_ref condition_laws_ref_env retry_law_ref pdb_writes_keep_wcs_ref listed(1)
        _ profile(3) run(1), of w 6 None d s2 tr] run profile listed(2,3) lazy_policy_valid
    by (auto simp del: ref_client_simps simp: wc_key_def)
qed

end
